(* ===== verification/Prelude.thy ===== *)
theory Prelude
  imports Main "HOL-Library.Word"
begin

text \<open>
  Shared vocabulary of the development: the parts of Go's standard library that the modelled
  packages use (package \<open>strings\<close>, decimal printing, slicing), an \<open>outcome\<close> type for code that
  may panic, and the generic lemmas about them.

  A Go string is a sequence of bytes, so it is modelled by \<^typ>\<open>string\<close> (a list of
  \<^typ>\<open>char\<close>, which in HOL are exactly the 256 byte values).
\<close>

named_theorems go_simps
  \<open>unfolding rules for the modelled operations, used to evaluate them on concrete input\<close>

section \<open>Panics\<close>

text \<open>The outcome of a Go call that may panic instead of returning.\<close>

datatype 'a outcome = Ret 'a | Panic

fun obind :: "'a outcome \<Rightarrow> ('a \<Rightarrow> 'b outcome) \<Rightarrow> 'b outcome" where
  "obind (Ret a) f = f a"
| "obind Panic f = Panic"

fun omap :: "('a \<Rightarrow> 'b) \<Rightarrow> 'a outcome \<Rightarrow> 'b outcome" where
  "omap f (Ret a) = Ret (f a)"
| "omap f Panic = Panic"

lemma obind_Ret_iff: "obind m f = Ret b \<longleftrightarrow> (\<exists>a. m = Ret a \<and> f a = Ret b)"
  by (cases m) auto

lemma omap_Ret_iff [simp]: "omap f m = Ret b \<longleftrightarrow> (\<exists>a. m = Ret a \<and> f a = b)"
  by (cases m) auto

section \<open>Package strings\<close>

text \<open>\<open>strings.HasPrefix\<close>, \<open>HasSuffix\<close>, \<open>TrimPrefix\<close>.\<close>

fun has_prefix :: "string \<Rightarrow> string \<Rightarrow> bool" where
  "has_prefix s [] = True"
| "has_prefix [] (p # ps) = False"
| "has_prefix (c # s) (p # ps) = (c = p \<and> has_prefix s ps)"

definition has_suffix :: "string \<Rightarrow> string \<Rightarrow> bool" where
  "has_suffix s p = has_prefix (rev s) (rev p)"

definition trim_prefix :: "string \<Rightarrow> string \<Rightarrow> string" where
  "trim_prefix s p = (if has_prefix s p then drop (length p) s else s)"

text \<open>\<open>strings.TrimLeft\<close>, \<open>TrimRight\<close> and \<open>Trim\<close> for a cutset of one (ASCII) character.\<close>

definition trim_left :: "char \<Rightarrow> string \<Rightarrow> string" where
  "trim_left c s = dropWhile (\<lambda>x. x = c) s"

definition trim_right :: "char \<Rightarrow> string \<Rightarrow> string" where
  "trim_right c s = rev (dropWhile (\<lambda>x. x = c) (rev s))"

definition trim :: "char \<Rightarrow> string \<Rightarrow> string" where
  "trim c s = trim_right c (trim_left c s)"

text \<open>\<open>strings.Index\<close> for a one-character substring: \<open>None\<close> stands for -1.\<close>

fun index_of :: "char \<Rightarrow> string \<Rightarrow> nat option" where
  "index_of c [] = None"
| "index_of c (x # s) = (if x = c then Some 0 else map_option Suc (index_of c s))"

text \<open>\<open>strings.Contains\<close>.\<close>

fun contains :: "string \<Rightarrow> string \<Rightarrow> bool" where
  "contains [] p = (p = [])"
| "contains (c # s) p = (has_prefix (c # s) p \<or> contains s p)"

text \<open>
  \<open>strings.ReplaceAll\<close>: occurrences of \<open>old\<close> are replaced from left to right, without overlap.
  For an empty \<open>old\<close> Go inserts \<open>new\<close> at every character boundary.
\<close>

function replace_all :: "string \<Rightarrow> string \<Rightarrow> string \<Rightarrow> string" where
  "replace_all s old new =
     (if old = [] then concat (map (\<lambda>c. new @ [c]) s) @ new
      else case s of
        [] \<Rightarrow> []
      | c # s' \<Rightarrow>
          (if has_prefix s old then new @ replace_all (drop (length old) s) old new
           else c # replace_all s' old new))"
  by pat_completeness auto
termination
  by (relation "measure (\<lambda>(s, old, new). length s)") auto

declare replace_all.simps [simp del]

text \<open>\<open>strings.Replace\<close> with a limit of 1: the first occurrence only (for a nonempty \<open>old\<close>).\<close>

fun replace_first :: "string \<Rightarrow> string \<Rightarrow> string \<Rightarrow> string" where
  "replace_first [] old new = (if old = [] then new else [])"
| "replace_first (c # s) old new =
     (if has_prefix (c # s) old then new @ drop (length old) (c # s)
      else c # replace_first s old new)"

text \<open>\<open>strings.ToLower\<close> and \<open>ToUpper\<close> on the ASCII range.\<close>

definition lower_char :: "char \<Rightarrow> char" where
  "lower_char c = (let n = of_char c :: nat in
     if 65 \<le> n \<and> n \<le> 90 then char_of (n + 32) else c)"

definition upper_char :: "char \<Rightarrow> char" where
  "upper_char c = (let n = of_char c :: nat in
     if 97 \<le> n \<and> n \<le> 122 then char_of (n - 32) else c)"

definition to_lower :: "string \<Rightarrow> string" where
  "to_lower s = map lower_char s"

definition to_upper :: "string \<Rightarrow> string" where
  "to_upper s = map upper_char s"

text \<open>\<open>strings.Cut\<close> at a one-character separator: the text before it, and the text after it.\<close>

fun cut :: "char \<Rightarrow> string \<Rightarrow> string \<times> string" where
  "cut c [] = ([], [])"
| "cut c (x # s) = (if x = c then ([], s) else (case cut c s of (a, b) \<Rightarrow> (x # a, b)))"

text \<open>\<open>strings.Split\<close> / \<open>strings.SplitSeq\<close> for a nonempty separator.\<close>

function split_seq :: "string \<Rightarrow> string \<Rightarrow> string \<Rightarrow> string list" where
  "split_seq sep acc s =
     (case s of
        [] \<Rightarrow> [rev acc]
      | c # s' \<Rightarrow>
          (if sep \<noteq> [] \<and> has_prefix s sep
           then rev acc # split_seq sep [] (drop (length sep) s)
           else split_seq sep (c # acc) s'))"
  by pat_completeness auto
termination
  by (relation "measure (\<lambda>(sep, acc, s). length s)") auto

declare split_seq.simps [simp del]

definition split_str :: "string \<Rightarrow> string \<Rightarrow> string list" where
  "split_str s sep = split_seq sep [] s"

text \<open>\<open>strings.Join\<close>, the separator first.\<close>

fun join_with :: "string \<Rightarrow> string list \<Rightarrow> string" where
  "join_with s [] = ''''"
| "join_with s [x] = x"
| "join_with s (x # y # ys) = x @ s @ join_with s (y # ys)"

section \<open>Lemmas on the string functions\<close>

lemma has_prefix_iff: "has_prefix s p \<longleftrightarrow> (\<exists>t. s = p @ t)"
  by (induction s p rule: has_prefix.induct) auto

lemma has_prefix_append [simp]: "has_prefix (p @ t) p"
  by (auto simp: has_prefix_iff)

lemma has_prefix_self [simp]: "has_prefix p p"
  by (auto simp: has_prefix_iff)

lemma has_suffix_iff: "has_suffix s p \<longleftrightarrow> (\<exists>t. s = t @ p)"
  unfolding has_suffix_def has_prefix_iff by (metis rev_append rev_rev_ident)

lemma trim_prefix_append [simp]: "trim_prefix (p @ t) p = t"
  by (simp add: trim_prefix_def)

lemma trim_left_Nil [simp]: "trim_left c [] = []"
  by (simp add: trim_left_def)

lemma trim_right_Nil [simp]: "trim_right c [] = []"
  by (simp add: trim_right_def)

lemma trim_left_id: "s = [] \<or> hd s \<noteq> c \<Longrightarrow> trim_left c s = s"
  by (cases s) (auto simp: trim_left_def)

lemma trim_right_id: "s = [] \<or> last s \<noteq> c \<Longrightarrow> trim_right c s = s"
  by (cases s rule: rev_cases) (auto simp: trim_right_def)

lemma trim_id: "c \<notin> set s \<Longrightarrow> trim c s = s"
  unfolding trim_def
  by (metis hd_in_set last_in_set trim_left_id trim_right_id)

lemma trim_left_replicate_append: "trim_left c (replicate n c @ s) = trim_left c s"
  by (induction n) (auto simp: trim_left_def)

lemma trim_left_Cons_same [simp]: "trim_left c (c # s) = trim_left c s"
  by (simp add: trim_left_def)

lemma trim_right_snoc_same [simp]: "trim_right c (s @ [c]) = trim_right c s"
  by (simp add: trim_right_def)

lemma trim_right_snoc_other [simp]: "x \<noteq> c \<Longrightarrow> trim_right c (s @ [x]) = s @ [x]"
  by (simp add: trim_right_def)

lemma trim_right_pad:
  "trim_right c s @ replicate (length s - length (trim_right c s)) c = s"
proof (induction s rule: rev_induct)
  case Nil
  then show ?case by simp
next
  case (snoc x s)
  have "length (trim_right c s) \<le> length s"
    by (simp add: trim_right_def length_dropWhile_le[THEN order_trans])
  with snoc show ?case
    by (cases "x = c") (auto simp: Suc_diff_le replicate_append_same [symmetric])
qed

lemma length_trim_right: "length (trim_right c s) \<le> length s"
  unfolding trim_right_def by (metis length_dropWhile_le length_rev)

lemma set_trim_right: "set (trim_right c s) \<subseteq> set s"
  unfolding trim_right_def using set_dropWhileD by fastforce

lemma index_of_None: "index_of c s = None \<longleftrightarrow> c \<notin> set s"
  by (induction s) auto

lemma index_of_append: "c \<notin> set s \<Longrightarrow> index_of c (s @ c # t) = Some (length s)"
  by (induction s) auto

lemma index_of_Some: "index_of c s = Some i \<Longrightarrow>
    i < length s \<and> s ! i = c \<and> c \<notin> set (take i s) \<and> s = take i s @ c # drop (Suc i) s"
  by (induction s arbitrary: i) (auto split: if_splits)

lemma contains_single: "contains s [c] \<longleftrightarrow> c \<in> set s"
  by (induction s) auto

lemma replace_all_Nil [simp]: "old \<noteq> [] \<Longrightarrow> replace_all [] old new = []"
  by (simp add: replace_all.simps)

lemma replace_all_empty_id [simp]: "replace_all s [] [] = s"
  by (induction s) (simp_all add: replace_all.simps)

lemma replace_all_single:
  "replace_all s [c] new = concat (map (\<lambda>x. if x = c then new else [x]) s)"
  by (induction s) (subst replace_all.simps, simp)+

lemma replace_all_single_filter: "replace_all s [c] [] = filter (\<lambda>x. x \<noteq> c) s"
  by (induction s) (auto simp: replace_all_single)

lemma replace_first_prefix:
  "old \<noteq> [] \<Longrightarrow> replace_first (old @ t) old new = new @ t"
  by (cases old) auto

lemma length_to_lower [simp]: "length (to_lower s) = length s"
  by (simp add: to_lower_def)

lemma lower_char_idem [simp]: "lower_char (lower_char c) = lower_char c"
  by (auto simp: lower_char_def Let_def)

lemma to_lower_idem [simp]: "to_lower (to_lower s) = to_lower s"
  by (simp add: to_lower_def)

end
