(* ===== verification/Decimal.thy ===== *)
theory Decimal
  imports Prelude
begin

text \<open>
  Decimal notation of natural numbers, as Go's \<open>math/big\<close> and \<open>strconv\<close> print and read it, with the
  lemmas that cut a printed number into its last \<open>k\<close> digits and the rest. The packages \<open>coin\<close> and
  \<open>notifications/push\<close> use it.
\<close>

definition digit :: "nat \<Rightarrow> char" where
  "digit d = char_of (48 + d)"

definition digit_val :: "char \<Rightarrow> nat" where
  "digit_val c = of_char c - 48"

definition is_digit :: "char \<Rightarrow> bool" where
  "is_digit c \<longleftrightarrow> 48 \<le> (of_char c :: nat) \<and> (of_char c :: nat) \<le> 57"

fun dec_string :: "nat \<Rightarrow> string" where
  "dec_string n = (if n < 10 then [digit n] else dec_string (n div 10) @ [digit (n mod 10)])"

declare dec_string.simps [simp del]

definition dec_val :: "string \<Rightarrow> nat" where
  "dec_val s = foldl (\<lambda>a c. 10 * a + digit_val c) 0 s"

text \<open>The last \<open>k\<close> digits, with leading zeros.\<close>

fun pad :: "nat \<Rightarrow> nat \<Rightarrow> string" where
  "pad 0 n = []"
| "pad (Suc k) n = pad k (n div 10) @ [digit (n mod 10)]"

lemma of_char_digit: "d < 10 \<Longrightarrow> (of_char (digit d) :: nat) = 48 + d"
  by (simp add: digit_def)

lemma digit_val_digit [simp]: "d < 10 \<Longrightarrow> digit_val (digit d) = d"
  by (simp add: digit_val_def of_char_digit)

lemma is_digit_digit [simp]: "d < 10 \<Longrightarrow> is_digit (digit d)"
  by (simp add: is_digit_def of_char_digit)

lemma digit_0: "digit 0 = CHR ''0''"
  by code_simp

lemma digit_eq_0 [simp]: "d < 10 \<Longrightarrow> digit d = CHR ''0'' \<longleftrightarrow> d = 0"
  by (metis digit_0 digit_val_digit zero_less_numeral)

lemma not_digit:
  "\<not> is_digit CHR ''.''" "\<not> is_digit CHR '' ''" "\<not> is_digit CHR '',''" "\<not> is_digit CHR 0x22"
  by (simp_all add: is_digit_def)

lemma dec_string_nonempty [simp]: "dec_string n \<noteq> []"
  by (subst dec_string.simps) simp

lemma dec_string_digits: "\<forall>c \<in> set (dec_string n). is_digit c"
  by (induction n rule: dec_string.induct) (subst dec_string.simps, auto)

lemma pad_digits: "\<forall>c \<in> set (pad k n). is_digit c"
  by (induction k arbitrary: n) auto

lemma length_pad [simp]: "length (pad k n) = k"
  by (induction k arbitrary: n) auto

lemma dec_val_append_digit: "dec_val (s @ [c]) = 10 * dec_val s + digit_val c"
  by (simp add: dec_val_def)

lemma dec_val_dec_string [simp]: "dec_val (dec_string n) = n"
proof (induction n rule: dec_string.induct)
  case (1 n)
  show ?case
  proof (cases "n < 10")
    case True
    then show ?thesis by (subst dec_string.simps) (simp add: dec_val_def)
  next
    case False
    with 1 show ?thesis
      by (subst dec_string.simps) (simp add: dec_val_append_digit)
  qed
qed

lemma dec_string_inj: "dec_string m = dec_string n \<Longrightarrow> m = n"
  by (metis dec_val_dec_string)

lemma dec_string_hd: "n \<noteq> 0 \<Longrightarrow> hd (dec_string n) \<noteq> CHR ''0''"
proof (induction n rule: dec_string.induct)
  case (1 n)
  show ?case
  proof (cases "n < 10")
    case True
    with 1 show ?thesis by (subst dec_string.simps) simp
  next
    case False
    with 1 show ?thesis by (subst dec_string.simps) auto
  qed
qed

lemma dec_string_0 [simp]: "dec_string 0 = ''0''"
  by (subst dec_string.simps) (simp add: digit_0)

lemma dec_string_eq_0: "dec_string n = ''0'' \<longleftrightarrow> n = 0"
  by (metis dec_string_0 dec_string_inj)

text \<open>A number of at least \<open>k + 1\<close> digits is its quotient by \<open>10 ^ k\<close> followed by \<open>k\<close> digits.\<close>

lemma dec_string_split:
  "10 ^ k \<le> n \<Longrightarrow> dec_string n = dec_string (n div 10 ^ k) @ pad k n"
proof (induction k arbitrary: n)
  case 0
  then show ?case by simp
next
  case (Suc k)
  have ge: "10 ^ k \<le> n div 10"
    using Suc.prems by (simp add: less_eq_div_iff_mult_less_eq mult.commute)
  have "1 \<le> (10::nat) ^ k" by simp
  then have "\<not> n < 10" using Suc.prems unfolding power_Suc by linarith
  then have "dec_string n = dec_string (n div 10) @ [digit (n mod 10)]"
    by (subst dec_string.simps) simp
  also have "\<dots> = (dec_string (n div 10 div 10 ^ k) @ pad k (n div 10)) @ [digit (n mod 10)]"
    by (simp only: Suc.IH [OF ge])
  finally show ?case
    by (simp add: div_mult2_eq)
qed

text \<open>A number of at most \<open>k\<close> digits, filled with zeros on the left.\<close>

lemma length_dec_string_le: "0 < k \<Longrightarrow> n < 10 ^ k \<Longrightarrow> length (dec_string n) \<le> k"
proof (induction k arbitrary: n)
  case 0
  then show ?case by simp
next
  case (Suc k)
  show ?case
  proof (cases "n < 10")
    case True
    then show ?thesis by (subst dec_string.simps) simp
  next
    case False
    then have k: "0 < k" using Suc.prems(2) by (cases k) auto
    have "n div 10 < 10 ^ k"
      using Suc.prems(2) by (simp add: less_mult_imp_div_less mult.commute)
    then have "length (dec_string (n div 10)) \<le> k"
      using Suc.IH k by blast
    with False show ?thesis by (subst dec_string.simps) simp
  qed
qed

lemma pad_zeros: "pad k 0 = replicate k CHR ''0''"
  by (induction k) (simp_all add: digit_0 replicate_append_same)

lemma pad_dec_string:
  "0 < k \<Longrightarrow> n < 10 ^ k \<Longrightarrow>
    pad k n = replicate (k - length (dec_string n)) CHR ''0'' @ dec_string n"
proof (induction k arbitrary: n)
  case 0
  then show ?case by simp
next
  case (Suc k)
  show ?case
  proof (cases "n < 10")
    case True
    then have "dec_string n = [digit n]" by (subst dec_string.simps) simp
    moreover have "n div 10 = 0" "n mod 10 = n" using True by simp_all
    ultimately show ?thesis by (simp add: pad_zeros)
  next
    case False
    then have k: "0 < k" using Suc.prems(2) by (cases k) auto
    have lt: "n div 10 < 10 ^ k"
      using Suc.prems(2) by (simp add: less_mult_imp_div_less mult.commute)
    have "dec_string n = dec_string (n div 10) @ [digit (n mod 10)]"
      using False by (subst dec_string.simps) simp
    then show ?thesis
      using Suc.IH [OF k lt] by simp
  qed
qed

lemma pad_mod: "pad k (n mod 10 ^ k) = pad k n"
proof (induction k arbitrary: n)
  case 0
  then show ?case by simp
next
  case (Suc k)
  have "n mod 10 ^ Suc k div 10 = n div 10 mod 10 ^ k"
    by (simp add: div_mult2_eq mod_mult2_eq)
  moreover have "n mod 10 ^ Suc k mod 10 = n mod 10"
    by (simp add: mod_mod_cancel)
  ultimately show ?case using Suc.IH by simp
qed

lemma trim_left_dec_string: "n \<noteq> 0 \<Longrightarrow> trim_left CHR ''0'' (dec_string n) = dec_string n"
  by (rule trim_left_id) (simp add: dec_string_hd)

lemma trim_left_pad:
  "0 < k \<Longrightarrow> n < 10 ^ k \<Longrightarrow>
    trim_left CHR ''0'' (pad k n) = (if n = 0 then [] else dec_string n)"
  using trim_left_replicate_append [of "CHR ''0''" k "[]"]
  by (simp add: pad_dec_string trim_left_replicate_append trim_left_dec_string)

lemma trim_right_pad_Nil: "trim_right CHR ''0'' (pad k n) = [] \<longleftrightarrow> n mod 10 ^ k = 0"
proof -
  have "trim_right CHR ''0'' (pad k n) = [] \<longleftrightarrow> (\<forall>x \<in> set (pad k n). x = CHR ''0'')"
    by (simp add: trim_right_def)
  also have "\<dots> \<longleftrightarrow> pad k n = replicate k CHR ''0''"
    by (metis in_set_replicate length_pad replicate_length_same)
  also have "\<dots> \<longleftrightarrow> n mod 10 ^ k = 0"
  proof
    assume a: "pad k n = replicate k CHR ''0''"
    show "n mod 10 ^ k = 0"
    proof (cases k)
      case 0
      then show ?thesis by simp
    next
      case (Suc j)
      have "n mod 10 ^ k < 10 ^ k" by simp
      then have "trim_left CHR ''0'' (pad k n) = (if n mod 10 ^ k = 0 then [] else dec_string (n mod 10 ^ k))"
        using trim_left_pad [of k "n mod 10 ^ k"] Suc by (simp only: pad_mod)
      moreover have "trim_left CHR ''0'' (pad k n) = []"
        using trim_left_replicate_append [of "CHR ''0''" k "[]"] by (simp add: a)
      ultimately show ?thesis by (metis dec_string_nonempty)
    qed
  next
    assume "n mod 10 ^ k = 0"
    then show "pad k n = replicate k CHR ''0''"
      by (metis pad_mod pad_zeros)
  qed
  finally show ?thesis .
qed

text \<open>The value of a concatenation, and of padded digits.\<close>

lemma dec_val_append: "dec_val (s @ t) = dec_val s * 10 ^ length t + dec_val t"
proof (induction t rule: rev_induct)
  case Nil
  then show ?case by (simp add: dec_val_def)
next
  case (snoc c t)
  then show ?case
    by (simp add: dec_val_append_digit algebra_simps flip: append_assoc)
qed

lemma dec_val_zeros [simp]: "dec_val (replicate k CHR ''0'') = 0"
  by (induction k) (simp_all add: dec_val_def digit_val_def flip: replicate_append_same)

lemma pad_val: "dec_val (pad k n) = n mod 10 ^ k"
proof (induction k arbitrary: n)
  case 0
  then show ?case by (simp add: dec_val_def)
next
  case (Suc k)
  then show ?case
    by (simp add: dec_val_append_digit mod_mult2_eq)
qed

end
