(* ===== verification/Go_Errors.thy ===== *)
theory Go_Errors
  imports Prelude
begin

text \<open>
  Go's error values and their traversal (\<open>errors.Is\<close>, \<open>errors.As\<close>, \<open>errors.Unwrap\<close>), and the
  package \<open>terror\<close> (\<open>terror/error.go\<close>): an error that carries data and is found again below
  any number of wrappers.

  An error value is a tree: sentinels (\<open>errors.New\<close>, named by their text), wrappers
  (\<open>errors.Wrap\<close>, \<open>fmt.Errorf\<close> with \<open>%w\<close>), \<open>terror.Err\<close> values, the driver's and the network's own
  error types, and joined errors (\<open>errors.Join\<close>, \<open>multierror.Append\<close>). What the drivers put in
  their errors are fields of the value. The interface value \<open>nil\<close> is \<^term>\<open>None\<close> of
  \<^typ>\<open>'a option\<close>.
\<close>

section \<open>Error values\<close>

record pg_error =
  sqlstate :: string
  constraint_name :: string
  table_name :: string
  detail :: string
  pg_text :: string

datatype goerr =
    Sentinel string
  | Wrapped string goerr
  | Terror goerr "(string \<times> string) list"
  | Pg pg_error
  | ConnectErr goerr
  | NetOp string
  | NetErr string
  | Canceled
  | DeadlineExceeded
  | Joined "goerr list"

type_synonym err = "goerr option"

text \<open>The errors below an error: what \<open>Unwrap\<close> returns.\<close>

fun unwrap :: "goerr \<Rightarrow> goerr list" where
  "unwrap (Wrapped m e) = [e]"
| "unwrap (Terror e d) = [e]"
| "unwrap (ConnectErr e) = [e]"
| "unwrap (Joined es) = es"
| "unwrap e = []"

text \<open>\<open>err.Error()\<close>: \<open>terror.Err\<close> embeds the error it carries, so it prints as that error.\<close>

fun err_text :: "goerr \<Rightarrow> string" where
  "err_text (Sentinel s) = s"
| "err_text (Wrapped m e) = m @ '': '' @ err_text e"
| "err_text (Terror e d) = err_text e"
| "err_text (Pg p) = pg_text p"
| "err_text (ConnectErr e) = err_text e"
| "err_text (NetOp s) = s"
| "err_text (NetErr s) = s"
| "err_text Canceled = ''context canceled''"
| "err_text DeadlineExceeded = ''context deadline exceeded''"
| "err_text (Joined es) = concat (map (\<lambda>e. err_text e @ ''; '') es)"

text \<open>\<open>errors.Wrap\<close> and \<open>errors.Wrapf\<close>: wrapping \<open>nil\<close> gives \<open>nil\<close>.\<close>

definition wrap_err :: "string \<Rightarrow> err \<Rightarrow> err" where
  "wrap_err m e = map_option (Wrapped m) e"

text \<open>
  \<open>errors.Join\<close> and \<open>multierror.Append(nil, errs...).ErrorOrNil()\<close>: \<open>nil\<close> members are dropped, and
  an empty collection is \<open>nil\<close>.
\<close>

definition join_errs :: "err list \<Rightarrow> err" where
  "join_errs es = (case List.map_filter id es of [] \<Rightarrow> None | es' \<Rightarrow> Some (Joined es'))"

section \<open>errors.Is and errors.As\<close>

text \<open>
  \<open>errors.Is(e, t)\<close>: the error itself, its own \<open>Is\<close> method, then everything it wraps. The only type
  here with an \<open>Is\<close> method of its own is \<open>terror.Err\<close>, whose \<open>Is(er)\<close> is \<open>errors.Is(er, e.error)\<close>:
  the roles are exchanged.
\<close>

function errors_is :: "goerr \<Rightarrow> goerr \<Rightarrow> bool" where
  "errors_is e t \<longleftrightarrow>
     e = t \<or>
     (case e of Terror e' d \<Rightarrow> errors_is t e' | _ \<Rightarrow> False) \<or>
     list_ex (\<lambda>e'. errors_is e' t) (unwrap e)"
  by pat_completeness auto
termination
proof (relation "measure (\<lambda>(e, t). size e + size t)", goal_cases)
  case 1
  then show ?case by simp
next
  case (2 e t e' d)
  then show ?case by simp
next
  case (3 e t e')
  then show ?case
    by (cases e) (auto simp: less_Suc_eq_le dest: size_list_estimation'[where f = size, OF _ order_refl])
qed

declare errors_is.simps [simp del]

text \<open>The nodes of an error tree in the order \<open>errors.As\<close> visits them.\<close>

fun chain :: "goerr \<Rightarrow> goerr list" where
  "chain (Wrapped m e) = Wrapped m e # chain e"
| "chain (Terror e d) = Terror e d # chain e"
| "chain (ConnectErr e) = ConnectErr e # chain e"
| "chain (Joined es) = Joined es # concat (map chain es)"
| "chain e = [e]"

definition errors_as :: "(goerr \<Rightarrow> bool) \<Rightarrow> goerr \<Rightarrow> goerr option" where
  "errors_as P e = find P (chain e)"

text \<open>The same on interface values: \<open>nil\<close> is only itself.\<close>

fun is_err :: "err \<Rightarrow> err \<Rightarrow> bool" where
  "is_err (Some e) (Some t) = errors_is e t"
| "is_err None None = True"
| "is_err _ _ = False"

fun as_err :: "(goerr \<Rightarrow> bool) \<Rightarrow> err \<Rightarrow> goerr option" where
  "as_err P None = None"
| "as_err P (Some e) = errors_as P e"

definition is_pg :: "goerr \<Rightarrow> bool" where
  "is_pg e = (case e of Pg p \<Rightarrow> True | _ \<Rightarrow> False)"

definition is_netop :: "goerr \<Rightarrow> bool" where
  "is_netop e = (case e of NetOp s \<Rightarrow> True | _ \<Rightarrow> False)"

text \<open>The interface \<open>net.Error\<close>: implemented by \<open>*net.OpError\<close>, by other network errors, and by
  \<open>context.DeadlineExceeded\<close>.\<close>

definition is_net_error :: "goerr \<Rightarrow> bool" where
  "is_net_error e = (case e of NetOp s \<Rightarrow> True | NetErr s \<Rightarrow> True
     | DeadlineExceeded \<Rightarrow> True | _ \<Rightarrow> False)"

section \<open>Package terror\<close>

definition terror_New :: "goerr \<Rightarrow> (string \<times> string) list \<Rightarrow> goerr" where
  "terror_New e data = Terror e data"

definition is_terror :: "goerr \<Rightarrow> bool" where
  "is_terror e = (case e of Terror _ _ \<Rightarrow> True | _ \<Rightarrow> False)"

text \<open>\<open>terror.As(err)\<close>: the outermost \<open>terror.Err\<close> in the error, \<open>nil\<close> when there is none.\<close>

definition terror_As :: "err \<Rightarrow> goerr option" where
  "terror_As e = as_err is_terror e"

text \<open>The methods \<open>Is\<close>, \<open>Unwrap\<close> and the field \<open>Data\<close> of a \<open>terror.Err\<close>.\<close>

fun terror_Is :: "goerr \<Rightarrow> goerr \<Rightarrow> bool" where
  "terror_Is (Terror e d) er = errors_is er e"
| "terror_Is _ er = False"

fun terror_Unwrap :: "goerr \<Rightarrow> err" where
  "terror_Unwrap (Terror e d) = Some e"
| "terror_Unwrap _ = None"

fun terror_Data :: "goerr \<Rightarrow> (string \<times> string) list" where
  "terror_Data (Terror e d) = d"
| "terror_Data _ = []"

section \<open>Lemmas\<close>

lemma errors_is_refl [simp]: "errors_is e e"
  by (subst errors_is.simps) simp

lemma errors_is_Sentinel [simp]: "errors_is (Sentinel s) t \<longleftrightarrow> t = Sentinel s"
  by (subst errors_is.simps) auto

lemma errors_is_Pg [simp]: "errors_is (Pg p) t \<longleftrightarrow> t = Pg p"
  by (subst errors_is.simps) auto

lemma errors_is_NetOp [simp]: "errors_is (NetOp s) t \<longleftrightarrow> t = NetOp s"
  by (subst errors_is.simps) auto

lemma errors_is_NetErr [simp]: "errors_is (NetErr s) t \<longleftrightarrow> t = NetErr s"
  by (subst errors_is.simps) auto

lemma errors_is_Canceled [simp]: "errors_is Canceled t \<longleftrightarrow> t = Canceled"
  by (subst errors_is.simps) auto

lemma errors_is_Deadline [simp]: "errors_is DeadlineExceeded t \<longleftrightarrow> t = DeadlineExceeded"
  by (subst errors_is.simps) auto

lemma errors_is_Wrapped: "errors_is (Wrapped m e) t \<longleftrightarrow> t = Wrapped m e \<or> errors_is e t"
  by (subst errors_is.simps) auto

lemma errors_is_ConnectErr: "errors_is (ConnectErr e) t \<longleftrightarrow> t = ConnectErr e \<or> errors_is e t"
  by (subst errors_is.simps) auto

lemma errors_is_Joined:
  "errors_is (Joined es) t \<longleftrightarrow> t = Joined es \<or> (\<exists>e \<in> set es. errors_is e t)"
  by (subst errors_is.simps) (auto simp: list_ex_iff)

lemma errors_is_Terror:
  "errors_is (Terror e d) t \<longleftrightarrow> t = Terror e d \<or> errors_is t e \<or> errors_is e t"
  by (subst errors_is.simps) auto

lemmas errors_is_simps =
  errors_is_Wrapped errors_is_ConnectErr errors_is_Joined errors_is_Terror

lemma chain_hd [simp]: "e \<in> set (chain e)"
  by (cases e) auto

lemma chain_trans: "x \<in> set (chain e) \<Longrightarrow> set (chain x) \<subseteq> set (chain e)"
  by (induction e rule: chain.induct) auto

text \<open>Being found is the same as occurring in the tree, for every target that is a leaf.\<close>

lemma errors_is_chain: "t \<in> set (chain e) \<Longrightarrow> errors_is e t"
  by (induction e rule: chain.induct) (auto simp: errors_is_simps)

lemma errors_as_None: "errors_as P e = None \<longleftrightarrow> (\<forall>x \<in> set (chain e). \<not> P x)"
  by (simp add: errors_as_def find_None_iff2) (metis find_None_iff2 find_None_iff)

lemma errors_as_Some: "errors_as P e = Some x \<Longrightarrow> P x \<and> x \<in> set (chain e)"
  unfolding errors_as_def by (metis find_Some_iff nth_mem)

lemma errors_as_Wrapped:
  "\<not> P (Wrapped m e) \<Longrightarrow> errors_as P (Wrapped m e) = errors_as P e"
  by (simp add: errors_as_def)

lemma wrap_err_simps [simp]:
  "wrap_err m None = None"
  "wrap_err m (Some e) = Some (Wrapped m e)"
  by (simp_all add: wrap_err_def)

lemma wrap_err_None [simp]: "wrap_err m e = None \<longleftrightarrow> e = None"
  by (simp add: wrap_err_def)

lemma join_errs_None [simp]: "join_errs es = None \<longleftrightarrow> (\<forall>e \<in> set es. e = None)"
proof -
  have "List.map_filter id es = [] \<longleftrightarrow> (\<forall>e \<in> set es. e = None)"
    by (induction es) (auto simp: List.map_filter_def)
  then show ?thesis by (auto simp: join_errs_def split: list.splits)
qed

lemma is_err_None [simp]: "is_err e None \<longleftrightarrow> e = None" "is_err None e \<longleftrightarrow> e = None"
  by (cases e; simp)+

text \<open>Wrapping any number of times, as the callers of a function do.\<close>

fun wrap_many :: "string list \<Rightarrow> goerr \<Rightarrow> goerr" where
  "wrap_many [] e = e"
| "wrap_many (m # ms) e = Wrapped m (wrap_many ms e)"

lemma errors_as_wrap_many:
  "(\<And>m e. \<not> P (Wrapped m e)) \<Longrightarrow> errors_as P (wrap_many ms e) = errors_as P e"
  by (induction ms) (auto simp: errors_as_Wrapped)

lemma errors_is_wrap_many: "errors_is e t \<Longrightarrow> errors_is (wrap_many ms e) t"
  by (induction ms) (auto simp: errors_is_simps)

text \<open>
  Whatever wraps it, a \<open>terror.Err\<close> is found again by \<open>terror.As\<close> with the data it was made
  with, and the wrapped error still is (\<open>errors.Is\<close>) the error the \<open>terror.Err\<close> was made from.
\<close>
theorem terror_survives_wrapping:
  "terror_As (Some (wrap_many ms (terror_New e d))) = Some (Terror e d) \<and>
   terror_Data (terror_New e d) = d \<and>
   errors_is (wrap_many ms (terror_New e d)) e"
proof -
  have "errors_as is_terror (wrap_many ms (Terror e d)) = errors_as is_terror (Terror e d)"
    by (rule errors_as_wrap_many) (simp add: is_terror_def)
  also have "\<dots> = Some (Terror e d)"
    by (simp add: errors_as_def is_terror_def)
  finally have "errors_as is_terror (wrap_many ms (Terror e d)) = Some (Terror e d)" .
  moreover have "errors_is (wrap_many ms (Terror e d)) e"
    by (rule errors_is_wrap_many) (simp add: errors_is_Terror)
  ultimately show ?thesis
    by (simp add: terror_As_def terror_New_def)
qed

end
