(* ===== verification/Coin.thy ===== *)
theory Coin
  imports Decimal Go_Errors
begin

text \<open>
  Package \<open>coin\<close> (\<open>coin/contract.go\<close> and the arithmetic of \<open>coin/coin.go\<close>): amounts of at most 256
  bits, counted in ice flakes, and coins, which keep an amount together with its four 64-bit
  words.

  The 256-bit integers themselves (\<open>cosmossdk.io/math.Uint\<close>) are third-party code: the record
  \<open>uint_lib\<close> is what the package calls, and \<open>uint_laws\<close> states its documented behaviour (exact
  arithmetic below \<open>2 ^ 256\<close>, a panic outside it, decimal text).
\<close>

section \<open>The library of unsigned 256-bit integers\<close>

text \<open>A \<open>*ICEFlake\<close>: a nil pointer, a pointer to a struct that holds the zero value \<open>math.Uint{}\<close>
  (whose inner pointer is nil), or one that holds a number.\<close>

datatype 'u flake = NilFlake | ZeroFlake | Flake 'u

record 'u uint_lib =
  u_val :: "'u \<Rightarrow> nat"
  u_of64 :: "64 word \<Rightarrow> 'u"
  u_zero :: "'u"
  u_is_zero :: "'u \<Rightarrow> bool"
  u_gte :: "'u \<Rightarrow> 'u \<Rightarrow> bool"
  u_add :: "'u \<Rightarrow> 'u \<Rightarrow> 'u outcome"
  u_sub :: "'u \<Rightarrow> 'u \<Rightarrow> 'u outcome"
  u_mul :: "'u \<Rightarrow> 'u \<Rightarrow> 'u outcome"
  u_quo :: "'u \<Rightarrow> 'u \<Rightarrow> 'u outcome"
  u_mod :: "'u \<Rightarrow> 'u \<Rightarrow> 'u outcome"
  u_mul64 :: "'u \<Rightarrow> 64 word \<Rightarrow> 'u outcome"
  u_quo64 :: "'u \<Rightarrow> 64 word \<Rightarrow> 'u outcome"
  u_parse :: "string \<Rightarrow> goerr + 'u"
  u_string :: "'u flake \<Rightarrow> string"
  u_marshal :: "'u flake \<Rightarrow> goerr + string"
  u_unmarshal :: "'u flake \<Rightarrow> string \<Rightarrow> err \<times> 'u flake"
  u_to_json :: "'u flake \<Rightarrow> goerr + string"
  u_from_json :: "'u flake \<Rightarrow> string \<Rightarrow> err \<times> 'u flake"

text \<open>\<open>uint_bound\<close> is the first number that does not fit.
  An arithmetic operation is exact when it returns its result if that is a 256-bit number and panics
  otherwise (\<open>None\<close>: no result, as for a negative difference or a division by zero).\<close>

definition uint_bound :: nat where
  "uint_bound = 2 ^ 256"

definition exact :: "'u uint_lib \<Rightarrow> 'u outcome \<Rightarrow> nat option \<Rightarrow> bool" where
  "exact U res r = (case r of
     Some n \<Rightarrow> if n < uint_bound then (case res of Ret u \<Rightarrow> u_val U u = n | Panic \<Rightarrow> False)
               else res = Panic
   | None \<Rightarrow> res = Panic)"

definition uint_laws :: "'u uint_lib \<Rightarrow> bool" where
  "uint_laws U \<longleftrightarrow>
     (\<forall>u. u_val U u < uint_bound) \<and>
     (\<forall>w. u_val U (u_of64 U w) = unat w) \<and> u_val U (u_zero U) = 0 \<and>
     (\<forall>u. u_is_zero U u \<longleftrightarrow> u_val U u = 0) \<and>
     (\<forall>a b. u_gte U a b \<longleftrightarrow> u_val U b \<le> u_val U a) \<and>
     (\<forall>a b. exact U (u_add U a b) (Some (u_val U a + u_val U b))) \<and>
     (\<forall>a b. exact U (u_sub U a b)
        (if u_val U b \<le> u_val U a then Some (u_val U a - u_val U b) else None)) \<and>
     (\<forall>a b. exact U (u_mul U a b) (Some (u_val U a * u_val U b))) \<and>
     (\<forall>a b. exact U (u_quo U a b)
        (if u_val U b = 0 then None else Some (u_val U a div u_val U b))) \<and>
     (\<forall>a b. exact U (u_mod U a b)
        (if u_val U b = 0 then None else Some (u_val U a mod u_val U b))) \<and>
     (\<forall>a w. exact U (u_mul64 U a w) (Some (u_val U a * unat w))) \<and>
     (\<forall>a w. exact U (u_quo64 U a w)
        (if w = 0 then None else Some (u_val U a div unat w))) \<and>
     (\<forall>u. u_marshal U (Flake u) = Inr (dec_string (u_val U u))) \<and>
     (\<forall>n. if n < uint_bound then \<exists>u. u_parse U (dec_string n) = Inr u \<and> u_val U u = n
          else \<exists>e. u_parse U (dec_string n) = Inl e) \<and>
     (\<forall>f n. n < uint_bound \<longrightarrow>
        (\<exists>u. u_unmarshal U f (dec_string n) = (None, Flake u) \<and> u_val U u = n))"

section \<open>Amounts (ICEFlake)\<close>

definition Denomination :: nat where
  "Denomination = 1000000000"

text \<open>The package variable \<open>denomination\<close>.\<close>

definition denomination :: "'u uint_lib \<Rightarrow> 'u" where
  "denomination U = u_of64 U 1000000000"

definition flake_IsNil :: "'u flake \<Rightarrow> bool" where
  "flake_IsNil i = (case i of NilFlake \<Rightarrow> True | ZeroFlake \<Rightarrow> True | Flake u \<Rightarrow> False)"

definition flake_IsZero :: "'u uint_lib \<Rightarrow> 'u flake \<Rightarrow> bool" where
  "flake_IsZero U i = (case i of NilFlake \<Rightarrow> True | ZeroFlake \<Rightarrow> True | Flake u \<Rightarrow> u_is_zero U u)"

definition ZeroICEFlakes :: "'u uint_lib \<Rightarrow> 'u flake" where
  "ZeroICEFlakes U = Flake (u_zero U)"

definition NewAmountUint64 :: "'u uint_lib \<Rightarrow> 64 word \<Rightarrow> 'u flake" where
  "NewAmountUint64 U n = Flake (u_of64 U n)"

definition ParseAmount :: "'u uint_lib \<Rightarrow> string \<Rightarrow> goerr + 'u flake" where
  "ParseAmount U s =
     (if s = [] then Inr NilFlake
      else if s = ''0'' then Inr (ZeroICEFlakes U)
      else case u_parse U s of
        Inl e \<Rightarrow> Inl (Wrapped (''failed to parse 256Bit uint '' @ s) e)
      | Inr u \<Rightarrow> Inr (Flake u))"

definition UnsafeParseAmount :: "'u uint_lib \<Rightarrow> string \<Rightarrow> 'u flake outcome" where
  "UnsafeParseAmount U s = (case ParseAmount U s of Inl e \<Rightarrow> Panic | Inr f \<Rightarrow> Ret f)"

text \<open>The number inside an amount; the methods below are only reached on one that has it, and a nil
  receiver would panic there.\<close>

definition the_uint :: "'u flake \<Rightarrow> 'u outcome" where
  "the_uint i = (case i of Flake u \<Rightarrow> Ret u | _ \<Rightarrow> Panic)"

definition flake_op2 :: "('u \<Rightarrow> 'u \<Rightarrow> 'u outcome) \<Rightarrow> 'u flake \<Rightarrow> 'u flake \<Rightarrow> 'u flake outcome" where
  "flake_op2 f i j = obind (the_uint i) (\<lambda>a. obind (the_uint j) (\<lambda>b. omap Flake (f a b)))"

definition flake_Add :: "'u uint_lib \<Rightarrow> 'u flake \<Rightarrow> 'u flake \<Rightarrow> 'u flake outcome" where
  "flake_Add U i amt =
     (if flake_IsZero U amt then Ret i
      else if flake_IsZero U i then Ret amt
      else flake_op2 (u_add U) i amt)"

definition flake_Subtract :: "'u uint_lib \<Rightarrow> 'u flake \<Rightarrow> 'u flake \<Rightarrow> 'u flake outcome" where
  "flake_Subtract U i amt =
     (if flake_IsZero U amt \<or> flake_IsZero U i then Ret i
      else obind (the_uint i) (\<lambda>a. obind (the_uint amt) (\<lambda>b.
        if u_val U a \<le> u_val U b then Ret (ZeroICEFlakes U)
        else flake_op2 (u_sub U) i amt)))"

definition flake_Divide :: "'u uint_lib \<Rightarrow> 'u flake \<Rightarrow> 'u flake \<Rightarrow> 'u flake outcome" where
  "flake_Divide U i amt =
     (if flake_IsNil i then Ret NilFlake
      else if flake_IsZero U i \<or> flake_IsZero U amt then Ret i
      else flake_op2 (u_quo U) i amt)"

definition flake_DivideUint64 :: "'u uint_lib \<Rightarrow> 'u flake \<Rightarrow> 64 word \<Rightarrow> 'u flake outcome" where
  "flake_DivideUint64 U i n =
     (if flake_IsNil i then Ret NilFlake
      else if n = 0 \<or> flake_IsZero U i then Ret i
      else obind (the_uint i) (\<lambda>a. omap Flake (u_quo64 U a n)))"

definition flake_MultiplyUint64 :: "'u uint_lib \<Rightarrow> 'u flake \<Rightarrow> 64 word \<Rightarrow> 'u flake outcome" where
  "flake_MultiplyUint64 U i n =
     (if flake_IsNil i then Ret NilFlake
      else if flake_IsZero U i then Ret i
      else if n = 0 then Ret (ZeroICEFlakes U)
      else obind (the_uint i) (\<lambda>a. omap Flake (u_mul64 U a n)))"

definition flake_Multiply :: "'u uint_lib \<Rightarrow> 'u flake \<Rightarrow> 'u flake \<Rightarrow> 'u flake outcome" where
  "flake_Multiply U i amt =
     (if flake_IsNil i then Ret NilFlake
      else if flake_IsNil amt \<or> flake_IsZero U i then Ret i
      else if flake_IsZero U amt then Ret amt
      else flake_op2 (u_mul U) i amt)"

text \<open>JSON and SQL: a two-byte JSON value is the empty string \<open>""\<close>, read as zero.\<close>

definition flake_MarshalJSON :: "'u uint_lib \<Rightarrow> 'u flake \<Rightarrow> (goerr + string) outcome" where
  "flake_MarshalJSON U i = (if i = NilFlake then Panic else Ret (u_to_json U i))"

definition flake_UnmarshalJSON :: "'u uint_lib \<Rightarrow> 'u flake \<Rightarrow> string \<Rightarrow> err \<times> 'u flake" where
  "flake_UnmarshalJSON U i bytes =
     (if length bytes = 1 + 1 then u_from_json U i (CHR 0x22 # ''0'' @ [CHR 0x22])
      else u_from_json U i bytes)"

text \<open>The value a database driver or a msgpack decoder hands over: a string, or something else.\<close>

datatype db_value = DbString string | DbOther string

definition flake_Scan :: "'u uint_lib \<Rightarrow> 'u flake \<Rightarrow> db_value \<Rightarrow> err \<times> 'u flake" where
  "flake_Scan U i src = (case src of
     DbString v \<Rightarrow>
       (let v' = (if v = [] then ''0'' else v);
            (e, i') = u_unmarshal U i v'
        in (wrap_err (''failed to Unmarshal val:'' @ v') e, i'))
   | DbOther d \<Rightarrow> (Some (Sentinel (''value:'' @ d @ '' is not a string'')), i))"

definition flake_EncodeMsgpack ::
    "'u uint_lib \<Rightarrow> (string \<Rightarrow> err) \<Rightarrow> 'u flake \<Rightarrow> err outcome" where
  "flake_EncodeMsgpack U enc i =
     (if i = NilFlake then Panic
      else case u_marshal U i of
        Inl e \<Rightarrow> Ret (Some (Wrapped (''cound not EncodeMsgpack->Marshall *ICEFlake '' @ u_string U i) e))
      | Inr v \<Rightarrow> Ret (wrap_err (''coud not EncodeMsgpack->EncodeString *ICEFlake '' @ v) (enc v)))"

definition flake_DecodeMsgpack ::
    "'u uint_lib \<Rightarrow> goerr + string \<Rightarrow> 'u flake \<Rightarrow> err \<times> 'u flake" where
  "flake_DecodeMsgpack U dec i = (case dec of
     Inl e \<Rightarrow> (Some (Wrapped ''could not DecodeMsgpack->DecodeString *ICEFlake'' e), i)
   | Inr v \<Rightarrow>
       (let v' = (if v = [] then ''0'' else v);
            (e, i') = u_unmarshal U i v'
        in (wrap_err (''coud not DecodeMsgpack->Unmarshal *ICEFlake '' @ v') e, i')))"

section \<open>Coins\<close>

record amount_words =
  word0 :: "64 word"
  word1 :: "64 word"
  word2 :: "64 word"
  word3 :: "64 word"

definition no_words :: amount_words where
  "no_words = \<lparr>word0 = 0, word1 = 0, word2 = 0, word3 = 0\<rparr>"

record 'u coin =
  coin_amount :: "'u flake"
  coin_words :: amount_words

text \<open>\<open>new(Coin)\<close>\<close>

definition new_coin :: "'u coin" where
  "new_coin = \<lparr>coin_amount = NilFlake, coin_words = no_words\<rparr>"

definition setWord :: "nat \<Rightarrow> 64 word \<Rightarrow> amount_words \<Rightarrow> amount_words" where
  "setWord pos v w =
     (if pos = 0 then w\<lparr>word0 := v\<rparr>
      else if pos = 1 then w\<lparr>word1 := v\<rparr>
      else if pos = 2 then w\<lparr>word2 := v\<rparr>
      else if pos = 3 then w\<lparr>word3 := v\<rparr>
      else w)"

text \<open>\<open>big.Int.Bits()\<close> on a 64-bit platform: the words of the absolute value, the least significant
  first, without leading zero words.\<close>

fun big_bits :: "nat \<Rightarrow> 64 word list" where
  "big_bits n = (if n = 0 then [] else of_nat n # big_bits (n div 2 ^ 64))"

declare big_bits.simps [simp del]

text \<open>The loops of \<open>setAmount\<close>: the words that are there, then zeros up to the fourth.\<close>

fun set_bits :: "nat \<Rightarrow> 64 word list \<Rightarrow> amount_words \<Rightarrow> amount_words" where
  "set_bits i [] w = w"
| "set_bits i (b # bs) w = set_bits (Suc i) bs (setWord i b w)"

definition setAmount :: "'u uint_lib \<Rightarrow> 'u coin option \<Rightarrow> 'u flake \<Rightarrow> 'u coin" where
  "setAmount U c amt =
     (let c' = (case c of None \<Rightarrow> new_coin | Some c0 \<Rightarrow> c0)\<lparr>coin_amount := amt\<rparr>
      in case amt of
           Flake u \<Rightarrow>
             (let bits = big_bits (u_val U u)
              in c'\<lparr>coin_words := fold (\<lambda>i. setWord i 0) [length bits..<1 + 1 + 1 + 1]
                                   (set_bits 0 bits (coin_words c'))\<rparr>)
         | _ \<Rightarrow> c'\<lparr>coin_words := no_words\<rparr>)"

definition coin_New :: "'u uint_lib \<Rightarrow> 'u flake \<Rightarrow> 'u coin option" where
  "coin_New U amt = (if flake_IsNil amt then None else Some (setAmount U (Some new_coin) amt))"

definition NewUint64 :: "'u uint_lib \<Rightarrow> 64 word \<Rightarrow> 'u coin option" where
  "NewUint64 U n = Some (setAmount U (Some new_coin) (NewAmountUint64 U n))"

definition ZeroCoins :: "'u uint_lib \<Rightarrow> 'u coin option" where
  "ZeroCoins U = Some (setAmount U (Some new_coin) (ZeroICEFlakes U))"

definition coin_Parse :: "'u uint_lib \<Rightarrow> string \<Rightarrow> goerr + 'u coin option" where
  "coin_Parse U s = (case ParseAmount U s of
     Inl e \<Rightarrow> Inl (Wrapped (''failed to build NewAmount for '' @ s) e)
   | Inr am \<Rightarrow> if flake_IsNil am then Inr None else Inr (Some (setAmount U (Some new_coin) am)))"

definition UnsafeParse :: "'u uint_lib \<Rightarrow> string \<Rightarrow> 'u coin option outcome" where
  "UnsafeParse U s = (case coin_Parse U s of Inl e \<Rightarrow> Panic | Inr c \<Rightarrow> Ret c)"

definition coin_IsNil :: "'u coin option \<Rightarrow> bool" where
  "coin_IsNil c = (case c of None \<Rightarrow> True | Some c0 \<Rightarrow> flake_IsNil (coin_amount c0))"

definition coin_IsZero :: "'u uint_lib \<Rightarrow> 'u coin option \<Rightarrow> bool" where
  "coin_IsZero U c = (case c of None \<Rightarrow> True
     | Some c0 \<Rightarrow> flake_IsNil (coin_amount c0) \<or> flake_IsZero U (coin_amount c0))"

definition coin_Add :: "'u uint_lib \<Rightarrow> 'u coin option \<Rightarrow> 'u flake \<Rightarrow> 'u coin option outcome" where
  "coin_Add U c amt =
     (if flake_IsZero U amt then Ret c
      else if coin_IsZero U c then Ret (Some (setAmount U (Some new_coin) amt))
      else case c of
        None \<Rightarrow> Panic
      | Some c0 \<Rightarrow> omap (\<lambda>f. Some (setAmount U (Some new_coin) f)) (flake_Add U (coin_amount c0) amt))"

definition coin_Subtract :: "'u uint_lib \<Rightarrow> 'u coin option \<Rightarrow> 'u flake \<Rightarrow> 'u coin option outcome" where
  "coin_Subtract U c amt =
     (if flake_IsZero U amt \<or> coin_IsZero U c then Ret c
      else case c of
        None \<Rightarrow> Panic
      | Some c0 \<Rightarrow> omap (\<lambda>f. Some (setAmount U (Some new_coin) f)) (flake_Subtract U (coin_amount c0) amt))"

section \<open>The library at work\<close>

text \<open>An instance that meets the laws: 256-bit words with checked arithmetic.\<close>

definition checked :: "nat option \<Rightarrow> 256 word outcome" where
  "checked r = (case r of None \<Rightarrow> Panic | Some n \<Rightarrow> if n < uint_bound then Ret (of_nat n) else Panic)"

definition word_parse :: "string \<Rightarrow> goerr + 256 word" where
  "word_parse s =
     (if s \<noteq> [] \<and> (\<forall>c \<in> set s. is_digit c) \<and> dec_val s < uint_bound then Inr (of_nat (dec_val s))
      else Inl (Sentinel ''not a 256-bit number''))"

definition word_uint :: "256 word uint_lib" where
  "word_uint = \<lparr>
     u_val = unat, u_of64 = ucast, u_zero = 0, u_is_zero = (\<lambda>u. u = 0), u_gte = (\<lambda>a b. b \<le> a),
     u_add = (\<lambda>a b. checked (Some (unat a + unat b))),
     u_sub = (\<lambda>a b. checked (if unat b \<le> unat a then Some (unat a - unat b) else None)),
     u_mul = (\<lambda>a b. checked (Some (unat a * unat b))),
     u_quo = (\<lambda>a b. checked (if unat b = 0 then None else Some (unat a div unat b))),
     u_mod = (\<lambda>a b. checked (if unat b = 0 then None else Some (unat a mod unat b))),
     u_mul64 = (\<lambda>a w. checked (Some (unat a * unat w))),
     u_quo64 = (\<lambda>a w. checked (if w = 0 then None else Some (unat a div unat w))),
     u_parse = word_parse,
     u_string = (\<lambda>f. case f of Flake u \<Rightarrow> dec_string (unat u) | _ \<Rightarrow> ''0''),
     u_marshal = (\<lambda>f. case f of Flake u \<Rightarrow> Inr (dec_string (unat u)) | _ \<Rightarrow> Inr ''0''),
     u_unmarshal = (\<lambda>f s. case word_parse s of Inl e \<Rightarrow> (Some e, f) | Inr u \<Rightarrow> (None, Flake u)),
     u_to_json = (\<lambda>f. case f of Flake u \<Rightarrow> Inr (CHR 0x22 # dec_string (unat u) @ [CHR 0x22])
       | _ \<Rightarrow> Inr (CHR 0x22 # ''0'' @ [CHR 0x22])),
     u_from_json = (\<lambda>f s. case word_parse (drop 1 (take (length s - 1) s)) of
        Inl e \<Rightarrow> (Some e, f) | Inr u \<Rightarrow> (None, Flake u))\<rparr>"

lemma word_parse_dec:
  "word_parse (dec_string n) =
    (if n < uint_bound then Inr (of_nat n) else Inl (Sentinel ''not a 256-bit number''))"
  using dec_string_digits [of n] by (simp add: word_parse_def)

lemma unat_of_nat_256 [simp]: "n < uint_bound \<Longrightarrow> unat (of_nat n :: 256 word) = n"
  by (simp add: unat_of_nat uint_bound_def take_bit_nat_eq_self)

lemma unat_lt_256: "unat (u :: 256 word) < uint_bound"
  using unsigned_less [of u] by (simp add: uint_bound_def)

lemma unat_ucast_64 [simp]: "unat (ucast (w :: 64 word) :: 256 word) = unat w"
  by (simp add: unsigned_ucast_eq take_bit_nat_eq_self
      order_less_trans [OF unsigned_less [of w]])

lemma exact_checked: "u_val U = unat \<Longrightarrow> exact U (checked r) r"
  by (cases r) (auto simp: exact_def checked_def)

lemma word_uint_val [simp]: "u_val word_uint = unat"
  by (simp add: word_uint_def)

lemma word_uint_sel:
  "u_of64 word_uint w = ucast w" "u_zero word_uint = 0" "u_is_zero word_uint u \<longleftrightarrow> u = 0"
  "u_gte word_uint a b \<longleftrightarrow> b \<le> a"
  "u_add word_uint a b = checked (Some (unat a + unat b))"
  "u_sub word_uint a b = checked (if unat b \<le> unat a then Some (unat a - unat b) else None)"
  "u_mul word_uint a b = checked (Some (unat a * unat b))"
  "u_quo word_uint a b = checked (if unat b = 0 then None else Some (unat a div unat b))"
  "u_mod word_uint a b = checked (if unat b = 0 then None else Some (unat a mod unat b))"
  "u_mul64 word_uint a w = checked (Some (unat a * unat w))"
  "u_quo64 word_uint a w = checked (if w = 0 then None else Some (unat a div unat w))"
  "u_parse word_uint s = word_parse s"
  "u_marshal word_uint (Flake u) = Inr (dec_string (unat u))"
  "u_unmarshal word_uint f s = (case word_parse s of Inl e \<Rightarrow> (Some e, f) | Inr u \<Rightarrow> (None, Flake u))"
  by (simp_all add: word_uint_def)

lemma word_uint_laws: "uint_laws word_uint"
  unfolding uint_laws_def
  by (intro conjI allI impI)
    (simp_all add: word_uint_sel exact_checked word_parse_dec unat_lt_256 unat_eq_0
      word_le_nat_alt del: unat_of_nat)

section \<open>Laws as rules\<close>

lemma uint_val_lt: "uint_laws U \<Longrightarrow> u_val U u < uint_bound"
  by (simp add: uint_laws_def)

lemma uint_basic:
  assumes "uint_laws U"
  shows "u_val U (u_of64 U w) = unat w" "u_val U (u_zero U) = 0"
    "u_is_zero U u \<longleftrightarrow> u_val U u = 0" "u_gte U a b \<longleftrightarrow> u_val U b \<le> u_val U a"
    "u_marshal U (Flake u) = Inr (dec_string (u_val U u))"
  using assms by (simp_all add: uint_laws_def)

lemma uint_exact:
  assumes "uint_laws U"
  shows "exact U (u_add U a b) (Some (u_val U a + u_val U b))"
    "exact U (u_sub U a b) (if u_val U b \<le> u_val U a then Some (u_val U a - u_val U b) else None)"
    "exact U (u_mul U a b) (Some (u_val U a * u_val U b))"
    "exact U (u_quo U a b) (if u_val U b = 0 then None else Some (u_val U a div u_val U b))"
    "exact U (u_mod U a b) (if u_val U b = 0 then None else Some (u_val U a mod u_val U b))"
    "exact U (u_mul64 U a w) (Some (u_val U a * unat w))"
    "exact U (u_quo64 U a w) (if w = 0 then None else Some (u_val U a div unat w))"
  using assms by (simp_all add: uint_laws_def)

lemma exact_Some: "exact U res (Some n) \<Longrightarrow> n < uint_bound \<Longrightarrow> \<exists>u. res = Ret u \<and> u_val U u = n"
  by (cases res) (auto simp: exact_def)

lemma uint_parse_dec:
  assumes "uint_laws U" and "n < uint_bound"
  obtains u where "u_parse U (dec_string n) = Inr u" and "u_val U u = n"
  using assms unfolding uint_laws_def by metis

lemma uint_parse_big:
  assumes "uint_laws U" and "\<not> n < uint_bound"
  obtains e where "u_parse U (dec_string n) = Inl e"
  using assms unfolding uint_laws_def by metis

lemma uint_unmarshal_dec:
  assumes "uint_laws U" and "n < uint_bound"
  obtains u where "u_unmarshal U f (dec_string n) = (None, Flake u)" and "u_val U u = n"
  using assms unfolding uint_laws_def by metis

section \<open>Amounts as numbers\<close>

text \<open>The number an amount stands for: nil counts as zero, as \<open>IsZero\<close> treats it.\<close>

definition flake_val :: "'u uint_lib \<Rightarrow> 'u flake \<Rightarrow> nat" where
  "flake_val U i = (case i of Flake u \<Rightarrow> u_val U u | _ \<Rightarrow> 0)"

lemma flake_val_simps [simp]:
  "flake_val U (Flake u) = u_val U u" "flake_val U NilFlake = 0" "flake_val U ZeroFlake = 0"
  by (simp_all add: flake_val_def)

lemma flake_IsZero_val: "uint_laws U \<Longrightarrow> flake_IsZero U i \<longleftrightarrow> flake_val U i = 0"
  by (cases i) (simp_all add: flake_IsZero_def uint_basic)

lemma flake_nonzero: "uint_laws U \<Longrightarrow> \<not> flake_IsZero U i \<Longrightarrow> \<exists>u. i = Flake u \<and> u_val U u \<noteq> 0"
  by (cases i) (simp_all add: flake_IsZero_def uint_basic)

lemma flake_IsNil_IsZero: "flake_IsNil i \<Longrightarrow> flake_IsZero U i"
  by (cases i) (simp_all add: flake_IsZero_def flake_IsNil_def)

lemma ParseAmount_dec:
  assumes "uint_laws U" and "n < uint_bound"
  shows "\<exists>f. ParseAmount U (dec_string n) = Inr f \<and> flake_val U f = n"
proof -
  obtain u where "u_parse U (dec_string n) = Inr u" "u_val U u = n"
    by (rule uint_parse_dec [OF assms])
  then show ?thesis
    by (cases "n = 0")
      (auto simp: ParseAmount_def ZeroICEFlakes_def uint_basic [OF assms(1)] dec_string_eq_0)
qed

lemma op2_exact:
  assumes "exact U (f a b) (Some n)"
  shows "n < uint_bound \<Longrightarrow> \<exists>u. flake_op2 f (Flake a) (Flake b) = Ret (Flake u) \<and> u_val U u = n"
    and "\<not> n < uint_bound \<Longrightarrow> flake_op2 f (Flake a) (Flake b) = Panic"
  using assms
  by (cases "f a b"; auto simp: exact_def flake_op2_def the_uint_def)+

text \<open>
  Addition of amounts is exact: it returns the sum when the sum fits into 256 bits, and panics
  when it does not.
\<close>
theorem flake_Add_exact:
  assumes "uint_laws U"
  shows "if flake_val U i + flake_val U j < uint_bound
    then \<exists>k. flake_Add U i j = Ret k \<and> flake_val U k = flake_val U i + flake_val U j
    else flake_Add U i j = Panic"
proof (cases "flake_IsZero U j \<or> flake_IsZero U i")
  case True
  have "flake_val U x < uint_bound" for x
    using uint_val_lt [OF assms] by (cases x) (simp_all add: uint_bound_def)
  with True show ?thesis
    by (auto simp: flake_Add_def flake_IsZero_val [OF assms])
next
  case False
  then obtain a b where ab: "i = Flake a" "j = Flake b"
    using flake_nonzero [OF assms] by blast
  have "flake_Add U i j = flake_op2 (u_add U) (Flake a) (Flake b)"
    using False ab by (simp add: flake_Add_def)
  with ab show ?thesis
    using op2_exact [where f = "u_add U" and a = a and b = b and n = "u_val U a + u_val U b",
        OF uint_exact(1) [OF assms]]
    by auto
qed

theorem flake_Add_exact_witness:
  "uint_laws word_uint \<and>
   (\<exists>k. flake_Add word_uint (Flake 3) (Flake 4) = Ret k \<and> flake_val word_uint k = 7)"
  using flake_Add_exact [OF word_uint_laws, of "Flake 3" "Flake 4"] word_uint_laws
  by (simp add: uint_bound_def)

lemma flake_Subtract_val:
  assumes "uint_laws U"
  shows "\<exists>k. flake_Subtract U i j = Ret k \<and> flake_val U k = flake_val U i - flake_val U j"
proof (cases "flake_IsZero U j \<or> flake_IsZero U i")
  case True
  then show ?thesis by (auto simp: flake_Subtract_def flake_IsZero_val [OF assms])
next
  case False
  then obtain a b where ab: "i = Flake a" "j = Flake b"
    using flake_nonzero [OF assms] by blast
  show ?thesis
  proof (cases "u_val U a \<le> u_val U b")
    case True
    with ab False show ?thesis
      by (simp add: flake_Subtract_def the_uint_def ZeroICEFlakes_def uint_basic [OF assms])
  next
    case less: False
    then have ex: "exact U (u_sub U a b) (Some (u_val U a - u_val U b))"
      using uint_exact(2) [OF assms, of a b] by simp
    moreover have "u_val U a - u_val U b < uint_bound"
      using uint_val_lt [OF assms, of a] by simp
    ultimately obtain u where "flake_op2 (u_sub U) (Flake a) (Flake b) = Ret (Flake u)"
        and "u_val U u = u_val U a - u_val U b"
      using op2_exact(1) [where U = U and f = "u_sub U" and a = a and b = b and
          n = "u_val U a - u_val U b"] by blast
    then show ?thesis
      using ab False less by (simp add: flake_Subtract_def the_uint_def)
  qed
qed

text \<open>
  Subtraction of amounts saturates and never panics: the result is the difference of the
  numbers, and zero when the subtrahend is larger.
\<close>
theorem flake_Subtract_saturates:
  assumes "uint_laws U"
  shows "\<exists>k. flake_Subtract U i j = Ret k \<and> flake_val U k = flake_val U i - flake_val U j"
  using assms by (rule flake_Subtract_val)

theorem flake_Subtract_saturates_witness:
  "uint_laws word_uint \<and>
   (\<exists>k. flake_Subtract word_uint (Flake 3) (Flake 4) = Ret k \<and> flake_val word_uint k = 0)"
  using flake_Subtract_saturates [OF word_uint_laws, of "Flake 3" "Flake 4"] word_uint_laws
  by simp

text \<open>
  C24. The arithmetic of amounts is that of the natural numbers below two to the 256: addition is exact, and panics if the sum does not fit (never
  wrapping around); subtraction is exact, and zero where the difference would be negative; and an amount that was added can be
  subtracted again.
\<close>

theorem flake_arithmetic:
  assumes "uint_laws U"
  shows "(if flake_val U i + flake_val U j < uint_bound
      then \<exists>k. flake_Add U i j = Ret k \<and> flake_val U k = flake_val U i + flake_val U j
      else flake_Add U i j = Panic) \<and>
    (\<exists>k. flake_Subtract U i j = Ret k \<and> flake_val U k = flake_val U i - flake_val U j) \<and>
    (\<forall>k. flake_Add U i j = Ret k \<longrightarrow> (\<exists>l. flake_Subtract U k j = Ret l \<and> flake_val U l = flake_val U i))"
proof -
  have undone: "\<exists>l. flake_Subtract U k j = Ret l \<and> flake_val U l = flake_val U i" if "flake_Add U i j = Ret k" for k
  proof -
    have "flake_val U k = flake_val U i + flake_val U j"
      using flake_Add_exact [OF assms, of i j] that by (auto split: if_splits)
    then show ?thesis using flake_Subtract_saturates [OF assms, of k j] by simp
  qed
  show ?thesis
    using flake_Add_exact [OF assms, of i j] flake_Subtract_saturates [OF assms, of i j] undone by blast
qed

theorem flake_arithmetic_witness:
  "(\<exists>k. flake_Add word_uint (Flake 3) (Flake 4) = Ret k \<and> flake_val word_uint k = 7) \<and>
   (\<exists>k. flake_Subtract word_uint (Flake 3) (Flake 4) = Ret k \<and> flake_val word_uint k = 0)"
  using flake_arithmetic [OF word_uint_laws, of "Flake 3" "Flake 4"] by (simp add: uint_bound_def)

section \<open>The words of a coin\<close>

text \<open>The number four words spell, the first one least significant.\<close>

definition words_val :: "amount_words \<Rightarrow> nat" where
  "words_val w = unat (word0 w) + 2 ^ 64 * (unat (word1 w) + 2 ^ 64 *
     (unat (word2 w) + 2 ^ 64 * unat (word3 w)))"

definition coin_synced :: "'u uint_lib \<Rightarrow> 'u coin \<Rightarrow> bool" where
  "coin_synced U c \<longleftrightarrow> words_val (coin_words c) = flake_val U (coin_amount c)"

fun bits_val :: "64 word list \<Rightarrow> nat" where
  "bits_val [] = 0"
| "bits_val (b # bs) = unat b + 2 ^ 64 * bits_val bs"

lemma bits_val_big_bits: "bits_val (big_bits n) = n"
proof (induction n rule: big_bits.induct)
  case (1 n)
  show ?case
  proof (cases "n = 0")
    case True
    then show ?thesis by (simp add: big_bits.simps)
  next
    case False
    then show ?thesis
      using 1 by (subst big_bits.simps) (simp add: unat_of_nat take_bit_eq_mod)
  qed
qed

lemma length_big_bits: "n < 2 ^ (64 * k) \<Longrightarrow> length (big_bits n) \<le> k"
proof (induction k arbitrary: n)
  case 0
  then show ?case by (simp add: big_bits.simps)
next
  case (Suc k)
  have "n div 2 ^ 64 < 2 ^ (64 * k)"
    using Suc.prems by (simp add: less_mult_imp_div_less power_add mult.commute)
  from Suc.IH [OF this] show ?case
    by (subst big_bits.simps) simp
qed

lemma set_bits_words:
  assumes "length bs \<le> 4"
  shows "words_val (fold (\<lambda>i. setWord i 0) [length bs..<1 + 1 + 1 + 1] (set_bits 0 bs w)) = bits_val bs"
proof -
  from assms consider "length bs = 0" | "length bs = 1" | "length bs = 2" | "length bs = 3" | "length bs = 4"
    by linarith
  then show ?thesis
  proof cases
    case 1
    then show ?thesis by (simp add: words_val_def setWord_def upt_rec)
  next
    case 2
    then obtain a where "bs = [a]" by (auto simp: length_Suc_conv)
    then show ?thesis by (simp add: words_val_def setWord_def upt_rec)
  next
    case 3
    then obtain a b where "bs = [a, b]" by (auto simp: length_Suc_conv numeral_2_eq_2)
    then show ?thesis by (simp add: words_val_def setWord_def upt_rec)
  next
    case 4
    then obtain a b c where "bs = [a, b, c]" by (auto simp: length_Suc_conv numeral_3_eq_3)
    then show ?thesis by (simp add: words_val_def setWord_def upt_rec)
  next
    case 5
    then obtain a b c d where "bs = [a, b, c, d]" by (auto simp: length_Suc_conv numeral_Bit0)
    then show ?thesis by (simp add: words_val_def setWord_def upt_rec)
  qed
qed

lemma setAmount_amount [simp]: "coin_amount (setAmount U c amt) = amt"
  by (cases amt) (simp_all add: setAmount_def Let_def)

lemma setAmount_sync:
  assumes "uint_laws U"
  shows "coin_synced U (setAmount U c amt)"
proof (cases amt)
  case (Flake u)
  have "length (big_bits (u_val U u)) \<le> 4"
    by (rule length_big_bits) (use uint_val_lt [OF assms, of u] in \<open>simp add: uint_bound_def\<close>)
  then show ?thesis
    using Flake set_bits_words
    by (simp add: coin_synced_def setAmount_def Let_def bits_val_big_bits)
qed (simp_all add: coin_synced_def setAmount_def no_words_def words_val_def)

text \<open>
  \<open>setAmount\<close> keeps a coin consistent, whatever the coin held before: its amount is the one
  given, and its four words spell that amount, with no word left over from before.
\<close>
theorem setAmount_synced:
  assumes "uint_laws U"
  shows "coin_synced U (setAmount U c amt) \<and> coin_amount (setAmount U c amt) = amt"
  using setAmount_sync [OF assms] by simp

theorem setAmount_synced_witness:
  "uint_laws word_uint \<and> coin_synced word_uint (setAmount word_uint (Some new_coin) (Flake 5))"
  using setAmount_synced [OF word_uint_laws, of "Some new_coin" "Flake 5"] word_uint_laws by simp



end
