(* ===== verification/Coin_Text.thy ===== *)
theory Coin_Text
  imports Coin
begin

text \<open>
  The decimal notation of package \<open>coin\<close> (\<open>coin/coin.go\<close>): \<open>ICE\<close> strings such as \<open>1,234.5\<close>, their
  conversion to and from ice flakes, the grouping of the integer part in thousands, and JSON.

  An \<open>*ICE\<close> receiver is a pointer to a string; all methods but \<open>IsZero\<close> dereference it, so they are
  modelled on the string. Loops are recursions over the remaining indices.
\<close>

section \<open>Operations\<close>

definition e9 :: nat where "e9 = 9"

definition e9Zeros :: string where "e9Zeros = ''000000000''"

definition zero_text :: string where "zero_text = ''0.0''"

text \<open>\<open>val[:n]\<close> and \<open>val[n:]\<close>, which panic when the bound is out of range.\<close>

definition slice_to :: "int \<Rightarrow> string \<Rightarrow> string outcome" where
  "slice_to n s = (if 0 \<le> n \<and> n \<le> int (length s) then Ret (take (nat n) s) else Panic)"

definition slice_from :: "int \<Rightarrow> string \<Rightarrow> string outcome" where
  "slice_from n s = (if 0 \<le> n \<and> n \<le> int (length s) then Ret (drop (nat n) s) else Panic)"

text \<open>The two loops of \<open>transformNumbersBiggerThan1ICE\<close>: the digits without trailing zeros, collected
  from the last one on, and the reversal in place (\<open>jj\<close> is kept plus one, as it may be -1).\<close>

fun collect_rest :: "string \<Rightarrow> nat \<Rightarrow> bool \<Rightarrow> string \<Rightarrow> string" where
  "collect_rest digits 0 seen rest = rest"
| "collect_rest digits (Suc ix) seen rest =
     (let seen' = (if digits ! ix \<noteq> CHR ''0'' then True else seen);
          rest' = (if seen' then rest @ [digits ! ix] else rest)
      in collect_rest digits ix seen' rest')"

function swap_loop :: "nat \<Rightarrow> nat \<Rightarrow> string \<Rightarrow> string" where
  "swap_loop ii jj1 rest =
     (if Suc ii < jj1
      then swap_loop (ii + 1) (jj1 - 1) (rest[ii := rest ! (jj1 - 1), jj1 - 1 := rest ! ii])
      else rest)"
  by pat_completeness auto
termination
  by (relation "measure (\<lambda>(ii, jj1, rest). jj1 - ii)") auto

declare swap_loop.simps [simp del]

definition transformNumbersBiggerThan1ICE ::
    "'u uint_lib \<Rightarrow> 'u \<Rightarrow> string \<Rightarrow> (goerr + string) outcome" where
  "transformNumbersBiggerThan1ICE U u val =
     obind (u_mod U u (denomination U)) (\<lambda>m.
       obind (slice_to (int (length val) - int e9) val) (\<lambda>whole.
         if u_is_zero U m then Ret (Inr (whole @ ''.0''))
         else obind (slice_from (int (length val) - int e9) val) (\<lambda>digits.
           let rest = collect_rest digits (length digits) False []
           in Ret (Inr (whole @ ''.'' @ swap_loop 0 (length rest) rest)))))"

definition flake_ICE :: "'u uint_lib \<Rightarrow> 'u flake \<Rightarrow> (goerr + string) outcome" where
  "flake_ICE U i =
     (if flake_IsZero U i then Ret (Inr zero_text)
      else case u_marshal U i of
        Inl e \<Rightarrow> Ret (Inl (Wrapped (''cound not EncodeMsgpack->Marshall *ICEFlake '' @ u_string U i) e))
      | Inr bytes \<Rightarrow> obind (the_uint i) (\<lambda>u.
          if u_gte U u (denomination U) then transformNumbersBiggerThan1ICE U u bytes
          else Ret (Inr (''0.'' @ replicate (e9 - length bytes) CHR ''0'' @ trim_right CHR ''0'' bytes))))"

definition flake_UnsafeICE :: "'u uint_lib \<Rightarrow> 'u flake \<Rightarrow> string outcome" where
  "flake_UnsafeICE U i = obind (flake_ICE U i) (\<lambda>r. case r of Inl e \<Rightarrow> Panic | Inr ice \<Rightarrow> Ret ice)"

text \<open>Both decoders start from \<open>new(ICEFlake)\<close> and leave the receiver alone when they fail.\<close>

definition ICE_DecodeMsgpack ::
    "'u uint_lib \<Rightarrow> goerr + string \<Rightarrow> string \<Rightarrow> (err \<times> string) outcome" where
  "ICE_DecodeMsgpack U dec i = (case flake_DecodeMsgpack U dec ZeroFlake of
     (Some e, f) \<Rightarrow> Ret (Some (Wrapped ''failed to DecodeMsgpack as ICEFlake'' e), i)
   | (None, f) \<Rightarrow> omap (\<lambda>r. case r of
       Inl e \<Rightarrow> (Some (Wrapped ''failed to convert iceFlakes to ice'' e), i)
     | Inr ice \<Rightarrow> (None, ice)) (flake_ICE U f))"

definition ICE_Scan :: "'u uint_lib \<Rightarrow> db_value \<Rightarrow> string \<Rightarrow> (err \<times> string) outcome" where
  "ICE_Scan U src i = (case flake_Scan U ZeroFlake src of
     (Some e, f) \<Rightarrow> Ret (Some (Wrapped ''failed to Scan as ICEFlake'' e), i)
   | (None, f) \<Rightarrow> omap (\<lambda>r. case r of
       Inl e \<Rightarrow> (Some (Wrapped ''failed to convert iceFlakes to ice'' e), i)
     | Inr ice \<Rightarrow> (None, ice)) (flake_ICE U f))"

definition ICE_IsZero :: "string option \<Rightarrow> bool" where
  "ICE_IsZero i = (case i of None \<Rightarrow> True | Some s \<Rightarrow> s = [] \<or> s = ''0'' \<or> s = zero_text)"

definition ICE_ICEFlake :: "'u uint_lib \<Rightarrow> string \<Rightarrow> goerr + 'u flake" where
  "ICE_ICEFlake U i =
     (let val = trim CHR '' '' i in
      if val = [] then Inr NilFlake
      else case index_of CHR ''.'' val of
        None \<Rightarrow> ParseAmount U (val @ e9Zeros)
      | Some ix \<Rightarrow>
          (let val' = val @ replicate (e9 - length (drop (ix + 1) val)) CHR ''0'';
               res = trim_left CHR ''0'' (take ix val' @ drop (ix + 1) val')
           in if res = [] \<and> (contains i ''.'' \<or> contains i ''0'') then Inr (ZeroICEFlakes U)
              else ParseAmount U res))"

definition ICE_UnsafeICEFlake :: "'u uint_lib \<Rightarrow> string \<Rightarrow> 'u flake outcome" where
  "ICE_UnsafeICEFlake U i = (case ICE_ICEFlake U i of Inl e \<Rightarrow> Panic | Inr f \<Rightarrow> Ret f)"

text \<open>\<open>string(r[j])\<close> of a byte is the UTF-8 encoding of the code point of that number: two bytes from
  128 on.\<close>

definition byte_rune :: "char \<Rightarrow> string" where
  "byte_rune c = (let n = of_char c :: nat in
     if n < 128 then [c] else [char_of (192 + n div 64), char_of (128 + n mod 64)])"

fun format_loop :: "nat \<Rightarrow> string \<Rightarrow> string \<Rightarrow> string \<Rightarrow> string \<times> string" where
  "format_loop 0 r grp val = (grp, val)"
| "format_loop (Suc j) r grp val =
     (let grp' = byte_rune (r ! j) @ grp in
      if length grp' = 3 then format_loop j r [] ('','' @ grp' @ val)
      else format_loop j r grp' val)"

definition formatGroups :: "nat \<Rightarrow> string \<Rightarrow> string" where
  "formatGroups dotIx r = (case format_loop dotIx r [] [] of
     (grp, val) \<Rightarrow> if grp \<noteq> [] then grp @ val else val)"

definition ICE_Format :: "string \<Rightarrow> string outcome" where
  "ICE_Format i =
     (let val = trim CHR '' '' i in
      if val = [] then Ret zero_text
      else
        (let (val1, dotIx) = (case index_of CHR ''.'' val of
               Some 0 \<Rightarrow> (''0'' @ val, 1)
             | Some ix \<Rightarrow> (val, ix)
             | None \<Rightarrow> (val, length val));
             s = formatGroups dotIx val1
         in case s of
              [] \<Rightarrow> Panic
            | c # s' \<Rightarrow>
                (let val2 = (if c = CHR '','' then s' else s) @ drop dotIx val1
                 in Ret (if contains val2 ''.'' then val2 else val2 @ ''.0''))))"

definition ICE_String :: "string \<Rightarrow> string outcome" where
  "ICE_String i = ICE_Format i"

definition ICE_MarshalJSON :: "string \<Rightarrow> string outcome" where
  "ICE_MarshalJSON i =
     (if contains i '','' then Ret (CHR 0x22 # i @ [CHR 0x22])
      else omap (\<lambda>s. CHR 0x22 # s @ [CHR 0x22]) (ICE_Format i))"

definition toICEFlake :: "string \<Rightarrow> string" where
  "toICEFlake iceValue =
     (let ice = (case index_of CHR ''.'' iceValue of
          None \<Rightarrow> iceValue @ e9Zeros
        | Some dotIdx \<Rightarrow>
            (let (ice1, dotIdx1) = (if dotIdx = 0 then (''0'' @ iceValue, dotIdx + 1) else (iceValue, dotIdx))
             in drop (dotIdx1 + 1) ice1 @ replicate (e9 + 1 - (length ice1 - dotIdx1)) CHR ''0''))
      in trim_left CHR ''0'' ice)"

definition ICE_UnmarshalJSON :: "'u uint_lib \<Rightarrow> string \<Rightarrow> string \<Rightarrow> err \<times> string" where
  "ICE_UnmarshalJSON U i bytes =
     (let val = trim CHR '' '' (replace_all (replace_all bytes '','' []) [CHR 0x22] [])
      in case ParseAmount U (toICEFlake val) of
           Inl e \<Rightarrow> (Some (Wrapped (''invalid number: ice amount '' @ bytes) e), i)
         | Inr f \<Rightarrow>
             (let val1 = (if val = [] then zero_text else val);
                  val2 = (if contains val1 ''.'' then val1 else val1 @ ''.0'');
                  val3 = (if index_of CHR ''.'' val2 = Some 0 then ''0'' @ val2 else val2)
              in (None, val3)))"

section \<open>The loops\<close>

lemma collect_rest_rev:
  "ix \<le> length d \<Longrightarrow> collect_rest d ix seen rest =
    rest @ (if seen then rev (take ix d) else dropWhile (\<lambda>c. c = CHR ''0'') (rev (take ix d)))"
proof (induction ix arbitrary: seen rest)
  case 0
  then show ?case by simp
next
  case (Suc ix)
  then show ?case
    by (simp add: take_Suc_conv_app_nth Let_def)
qed

lemma swap_loop_segment:
  "swap_loop (length p) (length p + length m) (p @ m @ s) = p @ rev m @ s"
proof (induction "length m" arbitrary: m p s rule: less_induct)
  case less
  show ?case
  proof (cases "Suc 0 < length m")
    case False
    then have "m = [] \<or> (\<exists>x. m = [x])"
      by (cases m) auto
    then show ?thesis by (subst swap_loop.simps) auto
  next
    case True
    then obtain a m' b where m: "m = a # m' @ [b]"
      by (cases m; cases "tl m" rule: rev_cases) auto
    have "swap_loop (length p) (length p + length m) (p @ m @ s) =
        swap_loop (length (p @ [b])) (length (p @ [b]) + length m') ((p @ [b]) @ m' @ (a # s))"
      by (subst swap_loop.simps) (simp add: m list_update_append nth_append)
    also have "\<dots> = (p @ [b]) @ rev m' @ (a # s)"
      by (rule less.hyps) (simp add: m)
    finally show ?thesis by (simp add: m)
  qed
qed

lemma swap_loop_rev: "swap_loop 0 (length r) r = rev r"
  using swap_loop_segment [of "[]" r "[]"] by simp

text \<open>Grouping by threes from the right, on the reversed digits.\<close>

fun commas :: "string \<Rightarrow> string" where
  "commas (a # b # c # r) = a # b # c # CHR '','' # commas r"
| "commas r = r"

fun comma3 :: "string \<Rightarrow> string" where
  "comma3 (a # b # c # d # r) = a # b # c # CHR '','' # comma3 (d # r)"
| "comma3 r = r"

fun format_list :: "string \<Rightarrow> string \<Rightarrow> string \<Rightarrow> string \<times> string" where
  "format_list [] grp val = (grp, val)"
| "format_list (c # cs) grp val =
     (let grp' = byte_rune c @ grp in
      if length grp' = 3 then format_list cs [] ('','' @ grp' @ val) else format_list cs grp' val)"

lemma format_loop_list:
  "j \<le> length r \<Longrightarrow> format_loop j r grp val = format_list (rev (take j r)) grp val"
  by (induction j r grp val rule: format_loop.induct) (simp_all add: take_Suc_conv_app_nth Let_def)

definition ascii :: "string \<Rightarrow> bool" where
  "ascii s \<longleftrightarrow> (\<forall>c \<in> set s. (of_char c :: nat) < 128)"

lemma ascii_simps [simp]:
  "ascii []" "ascii (c # s) \<longleftrightarrow> (of_char c :: nat) < 128 \<and> ascii s"
  "ascii (s @ t) \<longleftrightarrow> ascii s \<and> ascii t" "ascii (rev s) \<longleftrightarrow> ascii s"
  by (auto simp: ascii_def)

lemma byte_rune_ascii: "(of_char c :: nat) < 128 \<Longrightarrow> byte_rune c = [c]"
  by (simp add: byte_rune_def)

lemma format_list_commas:
  "ascii cs \<Longrightarrow> (case format_list cs [] val of (grp, v) \<Rightarrow> if grp \<noteq> [] then grp @ v else v) =
    rev (commas cs) @ val"
  by (induction cs arbitrary: val rule: commas.induct) (simp_all add: byte_rune_ascii)

lemma formatGroups_commas:
  "ascii (take j r) \<Longrightarrow> j \<le> length r \<Longrightarrow> formatGroups j r = rev (commas (rev (take j r)))"
  using format_list_commas [of "rev (take j r)" "[]"]
  by (simp add: formatGroups_def format_loop_list)

lemma commas_Nil [simp]: "commas r = [] \<longleftrightarrow> r = []"
  by (cases r rule: commas.cases) auto

lemma comma3_commas:
  "CHR '','' \<notin> set r \<Longrightarrow> r \<noteq> [] \<Longrightarrow>
    commas r = comma3 r \<and> last (comma3 r) \<noteq> CHR '','' \<or> commas r = comma3 r @ '',''"
proof (induction r rule: comma3.induct)
  case (1 a b c d r)
  then show ?case
    by (cases "commas (d # r)") auto
qed auto

lemma comma3_Nil [simp]: "comma3 r = [] \<longleftrightarrow> r = []"
  by (cases r rule: comma3.cases) auto

lemma strip_leading_comma:
  assumes "CHR '','' \<notin> set r" and "r \<noteq> []"
  shows "(case rev (commas r) of [] \<Rightarrow> Panic | c # s' \<Rightarrow> Ret (if c = CHR '','' then s' else rev (commas r)))
    = Ret (rev (comma3 r))"
  using comma3_commas [OF assms] assms(2)
  by (cases "comma3 r" rule: rev_cases) auto

lemma filter_comma3: "filter (\<lambda>c. c \<noteq> CHR '','') (comma3 r) = filter (\<lambda>c. c \<noteq> CHR '','') r"
  by (induction r rule: comma3.induct) auto

section \<open>Decimal strings\<close>

lemma is_digit_of_val: "is_digit c \<Longrightarrow> c = digit (digit_val c) \<and> digit_val c < 10"
  by (auto simp: is_digit_def digit_def digit_val_def)

lemma trim_left_digits:
  "\<forall>c \<in> set s. is_digit c \<Longrightarrow>
    trim_left CHR ''0'' s = (if dec_val s = 0 then [] else dec_string (dec_val s))"
proof (induction s rule: rev_induct)
  case Nil
  then show ?case by (simp add: dec_val_def)
next
  case (snoc c s)
  then have IH: "trim_left CHR ''0'' s = (if dec_val s = 0 then [] else dec_string (dec_val s))"
    and c: "c = digit (digit_val c)" "digit_val c < 10"
    using is_digit_of_val by auto
  show ?case
  proof (cases "dec_val s = 0")
    case True
    then have z: "\<forall>x \<in> set s. x = CHR ''0''"
      using IH by (simp add: trim_left_def dropWhile_eq_Nil_conv)
    then have "trim_left CHR ''0'' (s @ [c]) = (if c = CHR ''0'' then [] else [c])"
      by (simp add: trim_left_def dropWhile_append2)
    moreover have "c = CHR ''0'' \<longleftrightarrow> digit_val c = 0"
      using c by (metis digit_eq_0)
    moreover have "dec_string (digit_val c) = [c]"
      using c by (subst dec_string.simps) simp
    ultimately show ?thesis
      using True by (simp add: dec_val_append_digit)
  next
    case False
    have "trim_left CHR ''0'' s \<noteq> []"
      using IH False by simp
    then have "\<exists>x \<in> set s. x \<noteq> CHR ''0''"
      by (auto simp: trim_left_def dropWhile_eq_Nil_conv)
    then obtain x where "x \<in> set s" "x \<noteq> CHR ''0''"
      by blast
    then have "trim_left CHR ''0'' (s @ [c]) = trim_left CHR ''0'' s @ [c]"
      by (simp add: trim_left_def dropWhile_append1)
    moreover have "dec_string (10 * dec_val s + digit_val c) = dec_string (dec_val s) @ [c]"
      using c False by (subst dec_string.simps) simp
    ultimately show ?thesis
      using IH False by (simp add: dec_val_append_digit)
  qed
qed

lemma digits_no_special:
  assumes "\<forall>c \<in> set s. is_digit c"
  shows "CHR ''.'' \<notin> set s" "CHR '' '' \<notin> set s" "CHR '','' \<notin> set s" "CHR 0x22 \<notin> set s" "ascii s"
  using assms not_digit by (auto simp: is_digit_def ascii_def)

section \<open>Amounts as text\<close>

text \<open>The text of an amount of \<open>n\<close> flakes: whole ices, a point, and up to nine decimals.\<close>

definition ice_text :: "nat \<Rightarrow> string" where
  "ice_text n = dec_string (n div 10 ^ 9) @ CHR ''.'' #
     (let f = trim_right CHR ''0'' (pad 9 n) in if f = [] then ''0'' else f)"

lemma trim_right_append: "trim_right c b \<noteq> [] \<Longrightarrow> trim_right c (a @ b) = a @ trim_right c b"
proof -
  assume "trim_right c b \<noteq> []"
  then have "dropWhile (\<lambda>x. x = c) (rev b) \<noteq> []" by (simp add: trim_right_def)
  then have "\<exists>x \<in> set (rev b). x \<noteq> c" by (auto simp: dropWhile_eq_Nil_conv)
  then have "dropWhile (\<lambda>x. x = c) (rev b @ rev a) = dropWhile (\<lambda>x. x = c) (rev b) @ rev a"
    by (meson dropWhile_append1)
  then show ?thesis by (simp add: trim_right_def)
qed

lemma denomination_val: "uint_laws U \<Longrightarrow> u_val U (denomination U) = 10 ^ 9"
  by (simp add: denomination_def uint_basic)

lemma transform_text:
  assumes U: "uint_laws U" and n: "n = u_val U u" "10 ^ 9 \<le> n"
  shows "transformNumbersBiggerThan1ICE U u (dec_string n) = Ret (Inr (ice_text n))"
proof -
  define q where "q = dec_string (n div 10 ^ 9)"
  have d: "dec_string n = q @ pad 9 n"
    unfolding q_def by (rule dec_string_split [OF n(2)])
  have txt_n: "ice_text n = q @ CHR ''.'' #
     (if trim_right CHR ''0'' (pad 9 n) = [] then ''0'' else trim_right CHR ''0'' (pad 9 n))"
    unfolding ice_text_def q_def Let_def ..
  have ex: "exact U (u_mod U u (denomination U)) (Some (n mod 10 ^ 9))"
    using uint_exact(5) [OF U, of u "denomination U"] by (simp add: denomination_val [OF U] n(1))
  moreover have "n mod 10 ^ 9 < uint_bound"
    using uint_val_lt [OF U, of u] n(1) by (meson mod_less_eq_dividend order_le_less_trans)
  ultimately obtain m where m: "u_mod U u (denomination U) = Ret m" "u_val U m = n mod 10 ^ 9"
    using exact_Some by blast
  have z: "u_is_zero U m \<longleftrightarrow> trim_right CHR ''0'' (pad 9 n) = []"
    by (simp only: trim_right_pad_Nil uint_basic(3) [OF U] m(2))
  have rest: "collect_rest (pad 9 n) 9 False [] = rev (trim_right CHR ''0'' (pad 9 n))"
    by (simp add: collect_rest_rev trim_right_def)
  have len: "int (length (dec_string n)) - int e9 = int (length q)"
    by (simp add: d e9_def)
  have sl: "slice_to (int (length q)) (dec_string n) = Ret q"
      "slice_from (int (length q)) (dec_string n) = Ret (pad 9 n)"
    by (simp_all add: slice_to_def slice_from_def d)
  have sw: "swap_loop 0 (length (trim_right CHR ''0'' (pad 9 n))) (rev (trim_right CHR ''0'' (pad 9 n)))
      = trim_right CHR ''0'' (pad 9 n)"
    using swap_loop_rev [of "rev (trim_right CHR ''0'' (pad 9 n))"] by simp
  show ?thesis
    by (simp add: transformNumbersBiggerThan1ICE_def m(1) len sl z rest sw txt_n Let_def)
qed

lemma flake_ICE_text:
  assumes U: "uint_laws U"
  shows "flake_ICE U i = Ret (Inr (ice_text (flake_val U i)))"
proof (cases "flake_IsZero U i")
  case True
  then have "flake_val U i = 0" using flake_IsZero_val [OF U] by blast
  moreover have "ice_text 0 = zero_text"
    using trim_right_pad_Nil [of 9 0] by (simp add: ice_text_def zero_text_def)
  ultimately show ?thesis using True by (simp add: flake_ICE_def)
next
  case False
  then obtain u where u: "i = Flake u" "u_val U u \<noteq> 0"
    using flake_nonzero [OF U] by blast
  define n where "n = u_val U u"
  show ?thesis
  proof (cases "10 ^ 9 \<le> n")
    case True
    then show ?thesis
      using False u transform_text [OF U n_def]
      by (simp add: flake_ICE_def the_uint_def uint_basic [OF U] denomination_val [OF U] n_def)
  next
    case less: False
    then have n: "n < 10 ^ 9" "n mod 10 ^ 9 \<noteq> 0" using u n_def by simp_all
    then have p: "pad 9 n = replicate (9 - length (dec_string n)) CHR ''0'' @ dec_string n"
      using pad_dec_string [of 9 n] by simp
    have "trim_right CHR ''0'' (dec_string n) \<noteq> []"
    proof
      assume "trim_right CHR ''0'' (dec_string n) = []"
      then have "\<forall>x \<in> set (dec_string n). x = CHR ''0''"
        by (simp add: trim_right_def)
      moreover have "hd (dec_string n) \<in> set (dec_string n)" by simp
      ultimately show False using dec_string_hd [of n] u n_def by blast
    qed
    then have "trim_right CHR ''0'' (pad 9 n) =
        replicate (9 - length (dec_string n)) CHR ''0'' @ trim_right CHR ''0'' (dec_string n)"
      by (simp add: p trim_right_append)
    moreover have "trim_right CHR ''0'' (pad 9 n) \<noteq> []"
      using n by (simp add: trim_right_pad_Nil del: mod_less)
    ultimately show ?thesis
      using False u less n
      by (simp add: flake_ICE_def the_uint_def uint_basic [OF U] denomination_val [OF U]
          e9_def ice_text_def n_def Let_def)
  qed
qed

text \<open>Reading a decimal number \<open>a.b\<close>.\<close>

lemma ICE_ICEFlake_decimal:
  assumes "\<forall>c \<in> set a. is_digit c" and "\<forall>c \<in> set b. is_digit c"
  shows "ICE_ICEFlake U (a @ CHR ''.'' # b) =
    (let n = dec_val (a @ b) * 10 ^ (9 - length b)
     in if n = 0 then Inr (ZeroICEFlakes U) else ParseAmount U (dec_string n))"
proof -
  let ?s = "a @ CHR ''.'' # b"
  note na = digits_no_special [OF assms(1)] and nb = digits_no_special [OF assms(2)]
  have t: "trim CHR '' '' ?s = ?s" by (rule trim_id) (use na nb in auto)
  have ix: "index_of CHR ''.'' ?s = Some (length a)" by (rule index_of_append) (rule na(1))
  have dot: "contains ?s ''.''" by (simp add: contains_single)
  have d: "\<forall>c \<in> set (a @ b @ replicate (9 - length b) CHR ''0''). is_digit c"
    using assms by (auto simp: is_digit_def)
  have v: "dec_val (a @ b @ replicate (9 - length b) CHR ''0'') = dec_val (a @ b) * 10 ^ (9 - length b)"
    using dec_val_append [of "a @ b"] by simp
  show ?thesis
    using trim_left_digits [OF d] dot
    by (simp add: ICE_ICEFlake_def t ix e9_def v Let_def)
qed

lemma ice_text_shape:
  obtains a b where "ice_text n = a @ CHR ''.'' # b"
    and "a \<noteq> []" and "\<forall>c \<in> set a. is_digit c" and "\<forall>c \<in> set b. is_digit c"
    and "length b \<le> 9" and "dec_val (a @ b) * 10 ^ (9 - length b) = n"
proof -
  define q where "q = dec_string (n div 10 ^ 9)"
  define f where "f = trim_right CHR ''0'' (pad 9 n)"
  define b where "b = (if f = [] then ''0'' else f)"
  have t: "ice_text n = q @ CHR ''.'' # b"
    unfolding ice_text_def q_def b_def f_def Let_def ..
  have fl: "f @ replicate (9 - length f) CHR ''0'' = pad 9 n"
    using trim_right_pad [of "CHR ''0''" "pad 9 n"] by (simp add: f_def)
  have lf: "length f \<le> 9"
    using length_trim_right [of "CHR ''0''" "pad 9 n"] by (simp add: f_def)
  have lb: "length b \<le> 9" using lf by (simp add: b_def)
  have bl: "b @ replicate (9 - length b) CHR ''0'' = pad 9 n"
  proof (cases "f = []")
    case True
    have "[CHR ''0''] @ replicate 8 CHR ''0'' = replicate 9 CHR ''0''" by (simp add: eval_nat_numeral)
    moreover have "replicate 9 CHR ''0'' = pad 9 n" using fl True by simp
    ultimately show ?thesis using True by (simp add: b_def)
  next
    case False
    then show ?thesis using fl by (simp add: b_def)
  qed
  have db: "\<forall>c \<in> set b. is_digit c"
    using set_trim_right [of "CHR ''0''" "pad 9 n"] pad_digits [of 9 n]
    by (auto simp: b_def f_def is_digit_def)
  have "dec_val (q @ b) * 10 ^ (9 - length b) = dec_val ((q @ b) @ replicate (9 - length b) CHR ''0'')"
    by (subst dec_val_append) simp
  also have "\<dots> = dec_val (q @ pad 9 n)"
    using bl by simp
  also have "\<dots> = n div 10 ^ 9 * 10 ^ 9 + n mod 10 ^ 9"
    by (subst dec_val_append) (simp only: q_def dec_val_dec_string pad_val length_pad)
  also have "\<dots> = n" by (rule div_mult_mod_eq)
  finally show thesis
    using that [OF t _ _ db lb] dec_string_digits [of "n div 10 ^ 9"] by (simp add: q_def)
qed

lemma ICE_ICEFlake_ice_text:
  assumes U: "uint_laws U" and "n < uint_bound"
  shows "\<exists>f. ICE_ICEFlake U (ice_text n) = Inr f \<and> flake_val U f = n"
proof -
  obtain a b where ab: "ice_text n = a @ CHR ''.'' # b" "\<forall>c \<in> set a. is_digit c"
      "\<forall>c \<in> set b. is_digit c" "dec_val (a @ b) * 10 ^ (9 - length b) = n"
    by (rule ice_text_shape)
  show ?thesis
  proof (cases "n = 0")
    case True
    then show ?thesis
      using ICE_ICEFlake_decimal [OF ab(2,3), of U] ab(1,4)
      by (simp add: Let_def ZeroICEFlakes_def uint_basic [OF U])
  next
    case False
    then have "ICE_ICEFlake U (ice_text n) = ParseAmount U (dec_string n)"
      using ICE_ICEFlake_decimal [OF ab(2,3), of U] by (simp only: ab(1,4) Let_def if_False)
    then show ?thesis using ParseAmount_dec [OF assms] by simp
  qed
qed

lemma flake_val_lt: "uint_laws U \<Longrightarrow> flake_val U i < uint_bound"
  using uint_val_lt [of U] by (cases i) (simp_all add: uint_bound_def)

text \<open>
  C16. Writing an amount as ice and reading it back gives the same amount, for every 256-bit amount;
  and \<open>ICE\<close> never fails or panics.
\<close>
theorem ICE_roundtrip:
  assumes "uint_laws U"
  shows "\<exists>s f. flake_ICE U i = Ret (Inr s) \<and> ICE_ICEFlake U s = Inr f \<and> flake_val U f = flake_val U i"
  using flake_ICE_text [OF assms, of i] ICE_ICEFlake_ice_text [OF assms flake_val_lt [OF assms, of i]]
  by blast

theorem ICE_roundtrip_witness:
  "uint_laws word_uint \<and>
   (\<exists>s f. flake_ICE word_uint (Flake 1234500000) = Ret (Inr s) \<and> ICE_ICEFlake word_uint s = Inr f \<and>
      flake_val word_uint f = 1234500000)"
  using ICE_roundtrip [OF word_uint_laws, of "Flake 1234500000"] word_uint_laws by simp

text \<open>
  C38. What an ice string \<open>a.b\<close> of decimal digits is read as: the digits of \<open>a\<close> and \<open>b\<close> as one number,
  scaled to nine decimals. With at most nine decimals that is the exact amount
  (\<open>a * 10 ^ 9 + b * 10 ^ (9 - |b|)\<close>); with more, nothing is cut off, so that every further decimal,
  even a zero, multiplies the amount by ten.
\<close>
theorem ICE_decimal_value:
  assumes "uint_laws U" and "\<forall>c \<in> set a. is_digit c" and "\<forall>c \<in> set b. is_digit c"
    and "(dec_val a * 10 ^ length b + dec_val b) * 10 ^ (9 - length b) < uint_bound"
  shows "\<exists>f. ICE_ICEFlake U (a @ CHR ''.'' # b) = Inr f \<and>
    flake_val U f = (dec_val a * 10 ^ length b + dec_val b) * 10 ^ (9 - length b)"
proof -
  define n where "n = (dec_val a * 10 ^ length b + dec_val b) * 10 ^ (9 - length b)"
  have "ICE_ICEFlake U (a @ CHR ''.'' # b) =
      (if n = 0 then Inr (ZeroICEFlakes U) else ParseAmount U (dec_string n))"
    using ICE_ICEFlake_decimal [OF assms(2,3), of U] by (simp only: dec_val_append n_def Let_def)
  then show ?thesis
    using ParseAmount_dec [OF assms(1), of n] assms(4)
    by (simp add: n_def [symmetric] ZeroICEFlakes_def uint_basic [OF assms(1)])
qed

theorem ICE_decimal_value_witness:
  "\<exists>f. ICE_ICEFlake word_uint ''1.0000000000'' = Inr f \<and> flake_val word_uint f = 10 * 10 ^ 9"
proof -
  have v: "dec_val ''1'' = 1" "dec_val ''0000000000'' = 0" by code_simp+
  have d: "\<forall>c \<in> set ''1''. is_digit c" "\<forall>c \<in> set ''0000000000''. is_digit c" by (simp_all add: is_digit_def)
  show ?thesis
    using ICE_decimal_value [OF word_uint_laws d] unfolding v uint_bound_def by simp
qed

section \<open>Formatting and JSON\<close>

lemma ICE_Format_groups:
  assumes "a \<noteq> []" and "\<forall>c \<in> set a. is_digit c" and "\<forall>c \<in> set b. is_digit c"
  shows "ICE_Format (a @ CHR ''.'' # b) = Ret (rev (comma3 (rev a)) @ CHR ''.'' # b)"
proof -
  let ?s = "a @ CHR ''.'' # b"
  note na = digits_no_special [OF assms(2)] and nb = digits_no_special [OF assms(3)]
  have t: "trim CHR '' '' ?s = ?s" by (rule trim_id) (use na nb in auto)
  have ix: "index_of CHR ''.'' ?s = Some (length a)" by (rule index_of_append) (rule na(1))
  have g: "formatGroups (length a) ?s = rev (commas (rev a))"
    using formatGroups_commas [of "length a" ?s] na(5) by simp
  obtain k where k: "length a = Suc k" using assms(1) by (cases a) auto
  have dr: "drop (Suc k) ?s = CHR ''.'' # b" by (simp flip: k)
  obtain c s' where cs: "rev (commas (rev a)) = c # s'"
    using assms(1) by (cases "rev (commas (rev a))") auto
  have c: "(if c = CHR '','' then s' else c # s') = rev (comma3 (rev a))"
    using strip_leading_comma [of "rev a"] assms(1) na(3) unfolding cs by simp
  show ?thesis
    unfolding ICE_Format_def Let_def t
    using ix [unfolded k] g [unfolded k cs] dr by (simp add: contains_single flip: c)
qed

text \<open>
  \<open>Format\<close> prints a decimal number with its whole part grouped in threes, counted from the point
  and separated by commas, with no comma in front; without the commas the text is the number again.
\<close>
theorem Format_groups_thousands:
  assumes "a \<noteq> []" and "\<forall>c \<in> set a. is_digit c" and "\<forall>c \<in> set b. is_digit c"
  shows "ICE_Format (a @ CHR ''.'' # b) = Ret (rev (comma3 (rev a)) @ CHR ''.'' # b) \<and>
    filter (\<lambda>c. c \<noteq> CHR '','') (rev (comma3 (rev a)) @ CHR ''.'' # b) = a @ CHR ''.'' # b"
proof -
  have "filter (\<lambda>c. c \<noteq> CHR '','') x = x" if "\<forall>c \<in> set x. is_digit c" for x
    using digits_no_special(3) [OF that] by (auto intro!: filter_True)
  then show ?thesis
    using ICE_Format_groups [OF assms] assms(2,3) by (simp add: rev_filter [symmetric] filter_comma3)
qed

theorem Format_groups_thousands_witness:
  "ICE_Format ''1234567.50'' = Ret ''1,234,567.50''"
  using Format_groups_thousands [of "''1234567''" "''50''"] by (simp add: is_digit_def)

lemma dec_val_bound: "\<forall>c \<in> set s. is_digit c \<Longrightarrow> dec_val s < 10 ^ length s"
proof (induction s rule: rev_induct)
  case Nil
  then show ?case by (simp add: dec_val_def)
next
  case (snoc c s)
  then have "digit_val c < 10" "dec_val s < 10 ^ length s"
    using is_digit_of_val by auto
  then show ?case by (simp add: dec_val_append_digit)
qed

lemma decimals_bound:
  assumes "\<forall>c \<in> set b. is_digit c" and "length b \<le> 9"
  shows "dec_val b * 10 ^ (9 - length b) < uint_bound"
proof -
  have "dec_val b * 10 ^ (9 - length b) < 10 ^ length b * 10 ^ (9 - length b)"
    using dec_val_bound [OF assms(1)] by simp
  also have "\<dots> = 10 ^ 9" using assms(2) by (simp flip: power_add)
  also have "\<dots> < uint_bound" unfolding uint_bound_def by simp
  finally show ?thesis .
qed

lemma toICEFlake_decimals:
  assumes "a \<noteq> []" and "CHR ''.'' \<notin> set a" and "\<forall>c \<in> set b. is_digit c"
  shows "toICEFlake (a @ CHR ''.'' # b) =
    (let n = dec_val b * 10 ^ (9 - length b) in if n = 0 then [] else dec_string n)"
proof -
  have d: "\<forall>c \<in> set (b @ replicate (9 - length b) CHR ''0''). is_digit c"
    using assms(3) by (auto simp: is_digit_def)
  have v: "dec_val (b @ replicate (9 - length b) CHR ''0'') = dec_val b * 10 ^ (9 - length b)"
    by (simp add: dec_val_append)
  show ?thesis
    using trim_left_digits [OF d] assms(1) index_of_append [OF assms(2), of b]
    by (simp add: toICEFlake_def e9_def v Let_def)
qed

lemma ICE_UnmarshalJSON_decimal:
  assumes "uint_laws U"
    and "filter (\<lambda>c. c \<noteq> CHR 0x22) (filter (\<lambda>c. c \<noteq> CHR '','') bytes) = a @ CHR ''.'' # b"
    and "a \<noteq> []" and "CHR ''.'' \<notin> set a" and "CHR '' '' \<notin> set a"
    and "\<forall>c \<in> set b. is_digit c" and "length b \<le> 9"
  shows "ICE_UnmarshalJSON U old bytes = (None, a @ CHR ''.'' # b)"
proof -
  let ?s = "a @ CHR ''.'' # b"
  have t: "trim CHR '' '' ?s = ?s"
    by (rule trim_id) (use digits_no_special(2) [OF assms(6)] assms(5) in auto)
  have p: "\<exists>f. ParseAmount U (toICEFlake ?s) = Inr f"
    using ParseAmount_dec [OF assms(1) decimals_bound [OF assms(6,7)]]
    by (auto simp: toICEFlake_decimals [OF assms(3,4,6)] Let_def ParseAmount_def)
  have dot: "contains ?s ''.''" by (simp add: contains_single)
  have r: "replace_all (replace_all bytes '','' []) [CHR 0x22] [] = ?s"
    using assms(2) by (simp only: replace_all_single_filter)
  from p obtain f where "ParseAmount U (toICEFlake ?s) = Inr f" ..
  then show ?thesis
    using dot assms(3) index_of_append [OF assms(4), of b]
    by (simp add: ICE_UnmarshalJSON_def r t Let_def)
qed

text \<open>
  C40. JSON round trip: an amount written as ice and marshalled (with its commas) is unmarshalled to
  the very same ice string, whatever the receiver held.
\<close>
theorem ICE_JSON_roundtrip:
  assumes "uint_laws U"
  shows "\<exists>s j. flake_ICE U i = Ret (Inr s) \<and> ICE_MarshalJSON s = Ret j \<and>
    (\<forall>old. ICE_UnmarshalJSON U old j = (None, s))"
proof -
  obtain a b where ab: "ice_text (flake_val U i) = a @ CHR ''.'' # b" "a \<noteq> []"
      "\<forall>c \<in> set a. is_digit c" "\<forall>c \<in> set b. is_digit c" "length b \<le> 9"
    by (rule ice_text_shape)
  note na = digits_no_special [OF ab(3)] and nb = digits_no_special [OF ab(4)]
  let ?s = "a @ CHR ''.'' # b"
  define j where "j = CHR 0x22 # (rev (comma3 (rev a)) @ CHR ''.'' # b) @ [CHR 0x22]"
  have j: "ICE_MarshalJSON ?s = Ret j"
    using ICE_Format_groups [OF ab(2,3,4)] na(3) nb(3)
    by (simp add: ICE_MarshalJSON_def contains_single j_def)
  have fa: "filter (\<lambda>c. c \<noteq> CHR '','') a = a" "filter (\<lambda>c. c \<noteq> CHR '','') b = b"
    "filter (\<lambda>c. c \<noteq> CHR 0x22) a = a" "filter (\<lambda>c. c \<noteq> CHR 0x22) b = b"
    using na nb by (auto intro!: filter_True)
  have "filter (\<lambda>c. c \<noteq> CHR 0x22) (filter (\<lambda>c. c \<noteq> CHR '','') j) = ?s"
    by (simp add: j_def fa filter_comma3 flip: rev_filter)
  then have "ICE_UnmarshalJSON U old j = (None, ?s)" for old
    using ICE_UnmarshalJSON_decimal [OF assms _ ab(2) na(1,2) ab(4,5)] by blast
  then show ?thesis
    using flake_ICE_text [OF assms, of i] ab(1) j by auto
qed

theorem ICE_JSON_roundtrip_witness:
  "\<exists>s j. flake_ICE word_uint (Flake 1234500000) = Ret (Inr s) \<and> ICE_MarshalJSON s = Ret j \<and>
    ICE_UnmarshalJSON word_uint [] j = (None, s)"
  using ICE_JSON_roundtrip [OF word_uint_laws, of "Flake 1234500000"] by blast

text \<open>
  \<open>UnmarshalJSON\<close> validates the decimals only: whatever stands before the point (here: any text
  without point, comma, quote and space) is accepted and stored.
\<close>
theorem UnmarshalJSON_ignores_whole_part:
  assumes "uint_laws U" and "a \<noteq> []"
    and "\<forall>c \<in> set a. c \<noteq> CHR ''.'' \<and> c \<noteq> CHR '','' \<and> c \<noteq> CHR 0x22 \<and> c \<noteq> CHR '' ''"
    and "\<forall>c \<in> set b. is_digit c" and "length b \<le> 9"
  shows "ICE_UnmarshalJSON U old (CHR 0x22 # a @ CHR ''.'' # b @ [CHR 0x22]) = (None, a @ CHR ''.'' # b)"
proof -
  note nb = digits_no_special [OF assms(4)]
  have "filter (\<lambda>c. c \<noteq> CHR '','') a = a" "filter (\<lambda>c. c \<noteq> CHR '','') b = b"
    "filter (\<lambda>c. c \<noteq> CHR 0x22) a = a" "filter (\<lambda>c. c \<noteq> CHR 0x22) b = b"
    using nb assms(3) by (auto intro!: filter_True)
  then show ?thesis
    using assms by (intro ICE_UnmarshalJSON_decimal) auto
qed

theorem UnmarshalJSON_ignores_whole_part_witness:
  "ICE_UnmarshalJSON word_uint [] (CHR 0x22 # ''abc'' @ ''.'' @ ''5'' @ [CHR 0x22]) = (None, ''abc.5'')"
  using UnmarshalJSON_ignores_whole_part [OF word_uint_laws, of "''abc''" "''5''" "[]"]
  by (simp add: is_digit_def)

end
