(* ===== verification/Storage_Errors.thy ===== *)
theory Storage_Errors
  imports Go_Errors
begin

text \<open>
  Error classification of \<open>connectors/storage/v2\<close> (\<open>api.go\<close>, \<open>contract.go\<close>, \<open>storage.go\<close>,
  \<open>lock.go\<close>): PostgreSQL errors become the package's sentinels, with the violated column as data;
  everything that is still a driver or network error is "unexpected" and may be retried.
\<close>

section \<open>Sentinels\<close>

definition ErrNotFound :: goerr where "ErrNotFound = Sentinel ''not found''"
definition ErrRelationNotFound :: goerr where "ErrRelationNotFound = Sentinel ''relation not found''"
definition ErrRelationInUse :: goerr where "ErrRelationInUse = Sentinel ''relation in use''"
definition ErrDuplicate :: goerr where "ErrDuplicate = Sentinel ''duplicate''"
definition ErrCheckFailed :: goerr where "ErrCheckFailed = Sentinel ''check failed''"
definition ErrSerializationFailure :: goerr where
  "ErrSerializationFailure = Sentinel ''serialization failure''"
definition ErrTxAborted :: goerr where "ErrTxAborted = Sentinel ''transaction aborted''"
definition ErrExclusionViolation :: goerr where
  "ErrExclusionViolation = Sentinel ''exclusion violation''"
definition ErrMutexNotLocked :: goerr where "ErrMutexNotLocked = Sentinel ''not locked''"
definition ErrReadOnly :: goerr where "ErrReadOnly = Sentinel ''read only''"

text \<open>\<open>pgx.ErrNoRows\<close>, the driver's own sentinel.\<close>

definition pgx_ErrNoRows :: goerr where "pgx_ErrNoRows = Sentinel ''no rows in result set''"

lemmas storage_sentinels =
  ErrNotFound_def ErrRelationNotFound_def ErrRelationInUse_def ErrDuplicate_def ErrCheckFailed_def
  ErrSerializationFailure_def ErrTxAborted_def ErrExclusionViolation_def ErrMutexNotLocked_def
  ErrReadOnly_def pgx_ErrNoRows_def

section \<open>Operations\<close>

definition IsUnexpected :: "err \<Rightarrow> bool" where
  "IsUnexpected e \<longleftrightarrow> as_err is_pg e \<noteq> None \<or> as_err is_netop e \<noteq> None"

definition needRetryOnFallbackMaster :: "err \<Rightarrow> bool" where
  "needRetryOnFallbackMaster e \<longleftrightarrow> e \<noteq> None \<and> is_err e (Some ErrReadOnly)"

definition IsErr :: "err \<Rightarrow> goerr \<Rightarrow> string list \<Rightarrow> bool" where
  "IsErr e target column =
     (if \<not> is_err e (Some target) then False
      else case terror_As e of
        None \<Rightarrow> True
      | Some tErr \<Rightarrow>
          (case column of
             [c] \<Rightarrow> if c \<noteq> []
                    then (case map_of (terror_Data tErr) ''column'' of Some val \<Rightarrow> val = c | None \<Rightarrow> True)
                    else True
           | _ \<Rightarrow> True))"

text \<open>The column of a violated constraint: the table name, the constraint's suffix and then every
  underscore are cut out of the constraint's name.\<close>

definition constraint_column :: "string \<Rightarrow> pg_error \<Rightarrow> string" where
  "constraint_column suffix p =
     replace_all (replace_all (replace_all (constraint_name p) (table_name p) []) suffix []) ''_'' []"

definition parseDBError :: "err \<Rightarrow> err" where
  "parseDBError e =
     (case as_err is_pg e of
        Some (Pg p) \<Rightarrow>
          (if sqlstate p = ''23505'' then
             (if has_suffix (constraint_name p) ''_pkey''
              then Some (terror_New ErrDuplicate [(''column'', ''pk'')])
              else Some (terror_New ErrDuplicate [(''column'', constraint_column ''_key'' p)]))
           else if sqlstate p = ''23503'' then
             (if contains (detail p) ''is still referenced from table''
              then Some (terror_New ErrRelationInUse [(''column'', constraint_column ''_fkey'' p)])
              else Some (terror_New ErrRelationNotFound [(''column'', constraint_column ''_fkey'' p)]))
           else if sqlstate p = ''23514'' then
             Some (terror_New ErrCheckFailed [(''column'', constraint_column ''_check'' p)])
           else if sqlstate p = ''40001'' then Some ErrSerializationFailure
           else if sqlstate p = ''25P02'' then Some ErrTxAborted
           else if sqlstate p = ''23P01'' then Some ErrExclusionViolation
           else if sqlstate p = ''25006'' then Some ErrReadOnly
           else e)
      | _ \<Rightarrow> if is_err e (Some pgx_ErrNoRows) then Some ErrNotFound else e)"

definition ignorableDDLError :: "err \<Rightarrow> bool" where
  "ignorableDDLError e =
     (if e = None then True
      else case as_err is_pg e of
        Some (Pg p) \<Rightarrow> (if sqlstate p = ''25006'' then True else False)
      | _ \<Rightarrow> False)"

section \<open>What the driver returns\<close>

text \<open>The package's sentinels are its own: no error of the driver contains one of them, or a
  \<open>terror.Err\<close>.\<close>

definition driver_err :: "err \<Rightarrow> bool" where
  "driver_err e = (\<forall>t \<in> set [ErrNotFound, ErrRelationNotFound, ErrRelationInUse, ErrDuplicate,
      ErrCheckFailed, ErrSerializationFailure, ErrTxAborted, ErrExclusionViolation,
      ErrMutexNotLocked, ErrReadOnly]. \<not> is_err e (Some t))"

section \<open>Lemmas\<close>

lemma as_err_pg_cases:
  obtains "as_err is_pg e = None" | p where "as_err is_pg e = Some (Pg p)"
proof (cases "as_err is_pg e")
  case (Some x)
  then have "is_pg x" by (cases e) (auto dest: errors_as_Some)
  then obtain p where "x = Pg p" by (cases x) (auto simp: is_pg_def)
  with Some that show thesis by blast
qed (use that in blast)

lemma terror_is [simp]: "errors_is (Terror e d) e"
  by (simp add: errors_is_Terror)

lemma IsUnexpected_None [simp]: "\<not> IsUnexpected None"
  by (simp add: IsUnexpected_def)

lemma IsUnexpected_Sentinel [simp]: "\<not> IsUnexpected (Some (Sentinel s))"
  by (simp add: IsUnexpected_def errors_as_def is_pg_def is_netop_def)

lemma IsUnexpected_Terror_Sentinel [simp]: "\<not> IsUnexpected (Some (Terror (Sentinel s) d))"
  by (simp add: IsUnexpected_def errors_as_def is_pg_def is_netop_def)

lemma parseDBError_None [simp]: "parseDBError None = None"
  by (simp add: parseDBError_def)

lemma parseDBError_eq_None [simp]: "parseDBError e = None \<longleftrightarrow> e = None"
proof (cases e rule: as_err_pg_cases)
  case 1
  then show ?thesis by (cases e) (auto simp: parseDBError_def)
next
  case (2 p)
  then have "e \<noteq> None" by (cases e) simp_all
  with 2 show ?thesis by (auto simp: parseDBError_def)
qed

text \<open>The states the package has a sentinel for.\<close>

definition classified :: "string list" where
  "classified = [''23505'', ''23503'', ''23514'', ''40001'', ''25P02'', ''23P01'', ''25006'']"

text \<open>The sentinel that stands for a driver error, and the column reported with it.\<close>

definition sentinel_of :: "pg_error \<Rightarrow> goerr \<times> string option" where
  "sentinel_of p =
     (if sqlstate p = ''23505'' then
        (ErrDuplicate, Some (if has_suffix (constraint_name p) ''_pkey'' then ''pk'' else constraint_column ''_key'' p))
      else if sqlstate p = ''23503'' then
        (if contains (detail p) ''is still referenced from table'' then ErrRelationInUse else ErrRelationNotFound,
         Some (constraint_column ''_fkey'' p))
      else if sqlstate p = ''23514'' then (ErrCheckFailed, Some (constraint_column ''_check'' p))
      else if sqlstate p = ''40001'' then (ErrSerializationFailure, None)
      else if sqlstate p = ''25P02'' then (ErrTxAborted, None)
      else if sqlstate p = ''23P01'' then (ErrExclusionViolation, None)
      else (ErrReadOnly, None))"

lemma sentinel_of_Sentinel: "\<exists>s. fst (sentinel_of p) = Sentinel s"
  by (auto simp: sentinel_of_def storage_sentinels)

lemma parseDBError_classified:
  assumes "as_err is_pg e = Some (Pg p)" and "sqlstate p \<in> set classified"
  shows "parseDBError e = (case sentinel_of p of
      (t, Some c) \<Rightarrow> Some (Terror t [(''column'', c)]) | (t, None) \<Rightarrow> Some t)"
  using assms by (auto simp: parseDBError_def sentinel_of_def terror_New_def classified_def)

lemma parseDBError_unclassified:
  assumes "as_err is_pg e = Some (Pg p)" and "sqlstate p \<notin> set classified"
  shows "parseDBError e = e"
  using assms by (simp add: parseDBError_def classified_def)

lemma parseDBError_other:
  assumes "as_err is_pg e = None"
  shows "parseDBError e = (if is_err e (Some pgx_ErrNoRows) then Some ErrNotFound else e)"
  using assms by (simp add: parseDBError_def)

lemma terror_As_Terror [simp]: "terror_As (Some (Terror e d)) = Some (Terror e d)"
  by (simp add: terror_As_def errors_as_def is_terror_def)

lemma terror_As_Sentinel [simp]: "terror_As (Some (Sentinel s)) = None"
  by (simp add: terror_As_def errors_as_def is_terror_def)

text \<open>
  C25. Classification is total and final for the SQL states the package knows: such an error, however
  it is wrapped, becomes an error that is its sentinel (\<open>IsErr\<close>) and no other sentinel's SQL state
  hides it; it is never "unexpected", so no operation retries it; and the reported column, when there
  is one, is the only column \<open>IsErr\<close> accepts.
\<close>
theorem parseDBError_classifies:
  assumes "as_err is_pg e = Some (Pg p)" and "sqlstate p \<in> set classified"
  shows "IsErr (parseDBError e) (fst (sentinel_of p)) [] \<and> \<not> IsUnexpected (parseDBError e) \<and>
    (\<forall>c. snd (sentinel_of p) = Some c \<longrightarrow>
      (\<forall>c'. c' \<noteq> [] \<longrightarrow> IsErr (parseDBError e) (fst (sentinel_of p)) [c'] = (c' = c))) \<and>
    parseDBError (parseDBError e) = parseDBError e"
proof -
  obtain t c where tc: "sentinel_of p = (t, c)" by (cases "sentinel_of p")
  then obtain s where t: "t = Sentinel s" using sentinel_of_Sentinel [of p] by auto
  note res = parseDBError_classified [OF assms]
  have norows: "t \<noteq> pgx_ErrNoRows"
    using tc by (auto simp: sentinel_of_def storage_sentinels split: if_splits)
  show ?thesis
  proof (cases c)
    case None
    then have r: "parseDBError e = Some (Sentinel s)" using res tc t by simp
    then have "parseDBError (Some (Sentinel s)) = Some (Sentinel s)"
      using norows t by (subst parseDBError_other) (auto simp: errors_as_def is_pg_def)
    then show ?thesis using None r tc t by (simp add: IsErr_def)
  next
    case (Some col)
    then have r: "parseDBError e = Some (Terror (Sentinel s) [(''column'', col)])" using res tc t by simp
    then have "parseDBError (parseDBError e) = parseDBError e"
      using norows t
      by (subst parseDBError_other) (auto simp: errors_as_def is_pg_def errors_is_Terror pgx_ErrNoRows_def)
    then show ?thesis using Some r tc t by (auto simp: IsErr_def)
  qed
qed

definition duplicate_example :: pg_error where
  "duplicate_example = \<lparr>sqlstate = ''23505'', constraint_name = ''users_email_key'',
     table_name = ''users'', detail = [], pg_text = ''dup''\<rparr>"

theorem parseDBError_classifies_witness:
  "\<not> IsUnexpected (parseDBError (Some (Wrapped ''insert'' (Pg duplicate_example))))"
  using parseDBError_classifies [of "Some (Wrapped ''insert'' (Pg duplicate_example))" duplicate_example]
  by (simp add: errors_as_def is_pg_def classified_def duplicate_example_def)

section \<open>The reported column\<close>

lemma replace_all_absent: "p \<noteq> [] \<Longrightarrow> \<not> contains s p \<Longrightarrow> replace_all s p new = s"
proof (induction s)
  case Nil
  then show ?case by simp
next
  case (Cons c s)
  then show ?case by (subst replace_all.simps) simp
qed

lemma replace_all_prefix: "p \<noteq> [] \<Longrightarrow> replace_all (p @ s) p new = new @ replace_all s p new"
  by (cases p) (subst replace_all.simps, simp)+

text \<open>Cutting a suffix whose only underscore is its first character.\<close>

lemma cut_suffix:
  assumes "p = CHR ''_'' # p'" and "CHR ''_'' \<notin> set p'" and "\<not> contains c p"
  shows "replace_all (c @ p) p [] = c"
  using assms(3)
proof (induction c)
  case Nil
  show ?case using replace_all_prefix [of p "[]" "[]"] assms(1) by simp
next
  case (Cons x c)
  have "\<not> has_prefix ((x # c) @ p) p"
  proof
    assume "has_prefix ((x # c) @ p) p"
    then obtain t where t: "(x # c) @ p = p @ t" by (auto simp: has_prefix_iff)
    then obtain u where "x # c = p @ u \<or> (x # c) @ u = p \<and> p = u @ t"
      unfolding append_eq_append_conv2 by blast
    then show False
    proof
      assume "x # c = p @ u"
      then show False using Cons.prems by (metis contains.simps(2) has_prefix_append)
    next
      assume u: "(x # c) @ u = p \<and> p = u @ t"
      then have "u = [] \<or> CHR ''_'' \<in> set u"
        using assms(1) by (cases u) auto
      moreover have "set u \<subseteq> set p'" using u assms(1) by auto
      ultimately have "u = []" using assms(2) by auto
      then have "p = x # c" using u by simp
      then show False using Cons.prems by (metis contains.simps(2) has_prefix_self)
    qed
  qed
  then have "replace_all ((x # c) @ p) p [] = x # replace_all (c @ p) p []"
    using assms(1) by (subst replace_all.simps) auto
  then show ?case using Cons by simp
qed

lemma constraint_column_cut:
  assumes "constraint_name p = table_name p @ CHR ''_'' # col @ suffix" and "table_name p \<noteq> []"
    and "\<not> contains (CHR ''_'' # col @ suffix) (table_name p)"
    and "suffix = CHR ''_'' # s'" and "CHR ''_'' \<notin> set s'" and "\<not> contains (CHR ''_'' # col) suffix"
  shows "constraint_column suffix p = filter (\<lambda>c. c \<noteq> CHR ''_'') col"
proof -
  have "replace_all (constraint_name p) (table_name p) [] = (CHR ''_'' # col) @ suffix"
    using replace_all_prefix [OF assms(2)] replace_all_absent [OF assms(2,3)] by (simp add: assms(1))
  moreover have "replace_all ((CHR ''_'' # col) @ suffix) suffix [] = CHR ''_'' # col"
    by (rule cut_suffix [OF assms(4,5,6)])
  ultimately show ?thesis by (simp add: constraint_column_def replace_all_single_filter)
qed

text \<open>
  For a unique, foreign-key or check constraint with PostgreSQL's default name
  (\<open>table_column_key\<close>, \<open>table_column_fkey\<close>, \<open>table_column_check\<close>), the column that is reported is the
  constraint's column without its underscores, provided the table's name does not occur again in the
  rest of the name, nor the suffix in the column's name.
\<close>
theorem parseDBError_column:
  assumes "as_err is_pg e = Some (Pg p)"
    and "(sqlstate p, suffix) \<in> {(''23505'', ''_key''), (''23503'', ''_fkey''), (''23514'', ''_check'')}"
    and "constraint_name p = table_name p @ CHR ''_'' # col @ suffix" and "table_name p \<noteq> []"
    and "\<not> contains (CHR ''_'' # col @ suffix) (table_name p)"
    and "\<not> contains (CHR ''_'' # col) suffix"
    and "\<not> has_suffix (constraint_name p) ''_pkey''"
  shows "\<exists>t. parseDBError e = Some (Terror t [(''column'', filter (\<lambda>c. c \<noteq> CHR ''_'') col)])"
proof -
  obtain s' where s': "suffix = CHR ''_'' # s'" "CHR ''_'' \<notin> set s'"
    using assms(2) by auto
  have col: "constraint_column suffix p = filter (\<lambda>c. c \<noteq> CHR ''_'') col"
    by (rule constraint_column_cut [OF assms(3,4,5) s' assms(6)])
  have "sqlstate p \<in> set classified" using assms(2) by (auto simp: classified_def)
  then show ?thesis
    using parseDBError_classified [OF assms(1)] assms(2,7) col by (auto simp: sentinel_of_def)
qed

theorem parseDBError_column_witness:
  "\<exists>t. parseDBError (Some (Pg duplicate_example)) = Some (Terror t [(''column'', ''email'')])"
  using parseDBError_column [of "Some (Pg duplicate_example)" duplicate_example "''_key''" "''email''"]
  by (simp add: errors_as_def is_pg_def duplicate_example_def has_suffix_def)

end
