(* ===== verification/Backoff.thy ===== *)
theory Backoff
  imports Go_Errors
begin

text \<open>
  The retry library (\<open>github.com/cenkalti/backoff/v4\<close>) that storage/v2, push, in-app, e-mail and SMS
  call. Its code is not in the repository, so \<open>backoff.RetryNotify\<close> is a parameter of the model,
  a function that runs an operation over a state; what the callers rely on is its documented
  behaviour, stated as the relation \<open>retry_run\<close> and the contract \<open>retry_contract\<close>.
\<close>

section \<open>The interface\<close>

text \<open>
  What one call of the operation returns: \<open>nil\<close>, an error wrapped by \<open>backoff.Permanent\<close>, or any
  other error, which asks for another attempt; or it panics, and the panic passes through.
  \<open>backoff.Permanent(nil)\<close> is \<open>nil\<close>.
\<close>

datatype op_result = OpDone | OpPermanent goerr | OpTransient goerr | OpPanic

fun permanent :: "err \<Rightarrow> op_result" where
  "permanent None = OpDone"
| "permanent (Some e) = OpPermanent e"

fun plain :: "err \<Rightarrow> op_result" where
  "plain None = OpDone"
| "plain (Some e) = OpTransient e"

type_synonym 's retried = "'s \<Rightarrow> op_result \<times> 's"
type_synonym 's retrier = "'s retried \<Rightarrow> 's \<Rightarrow> err outcome \<times> 's"

text \<open>
  The runs the documentation allows: the operation is called until it returns \<open>nil\<close> (result
  \<open>nil\<close>) or a permanent error (result: that error); after any other error the policy either tries
  again, or stops with this error or with the error of the cancelled context.
\<close>

inductive retry_run :: "'s retried \<Rightarrow> 's \<Rightarrow> err outcome \<Rightarrow> 's \<Rightarrow> bool" for oper where
  run_done: "oper s = (OpDone, s') \<Longrightarrow> retry_run oper s (Ret None) s'"
| run_permanent: "oper s = (OpPermanent e, s') \<Longrightarrow> retry_run oper s (Ret (Some e)) s'"
| run_panic: "oper s = (OpPanic, s') \<Longrightarrow> retry_run oper s Panic s'"
| run_stop: "oper s = (OpTransient e, s') \<Longrightarrow> r = e \<or> r = Canceled \<or> r = DeadlineExceeded \<Longrightarrow>
     retry_run oper s (Ret (Some r)) s'"
| run_again: "oper s = (OpTransient e, s') \<Longrightarrow> retry_run oper s' r s'' \<Longrightarrow> retry_run oper s r s''"

inductive_cases retry_runE: "retry_run oper s r s'"

definition retry_contract :: "'s retrier \<Rightarrow> bool" where
  "retry_contract R \<longleftrightarrow> (\<forall>oper s. retry_run oper s (fst (R oper s)) (snd (R oper s)))"

text \<open>One policy that meets the contract: at most \<open>Suc n\<close> attempts.\<close>

fun retry_upto :: "nat \<Rightarrow> 's retrier" where
  "retry_upto n oper s = (case oper s of
     (OpDone, s') \<Rightarrow> (Ret None, s')
   | (OpPermanent e, s') \<Rightarrow> (Ret (Some e), s')
   | (OpPanic, s') \<Rightarrow> (Panic, s')
   | (OpTransient e, s') \<Rightarrow>
       (case n of 0 \<Rightarrow> (Ret (Some e), s') | Suc m \<Rightarrow> retry_upto m oper s'))"

declare retry_upto.simps [simp del]

text \<open>Another that meets it: one attempt only.\<close>

definition retry_once :: "'s retrier" where
  "retry_once = retry_upto 0"

section \<open>Lemmas\<close>

lemma permanent_cases [simp]:
  "permanent e = OpDone \<longleftrightarrow> e = None"
  "permanent e = OpPermanent x \<longleftrightarrow> e = Some x"
  "permanent e \<noteq> OpTransient x" "permanent e \<noteq> OpPanic"
  by (cases e; auto)+

lemma plain_cases [simp]:
  "plain e = OpDone \<longleftrightarrow> e = None"
  "plain e = OpTransient x \<longleftrightarrow> e = Some x"
  "plain e \<noteq> OpPermanent x" "plain e \<noteq> OpPanic"
  by (cases e; auto)+

lemma retry_upto_run: "retry_run oper s (fst (retry_upto n oper s)) (snd (retry_upto n oper s))"
proof (induction n arbitrary: s)
  case 0
  obtain r s' where o: "oper s = (r, s')" by (cases "oper s")
  then show ?case
    by (cases r) (auto simp: retry_upto.simps [of 0] intro: run_done run_permanent run_panic run_stop)
next
  case (Suc n)
  obtain r s' where o: "oper s = (r, s')" by (cases "oper s")
  then show ?case
    by (cases r) (auto simp: retry_upto.simps [of "Suc n"]
      intro: run_done run_permanent run_panic run_again Suc.IH)
qed

lemma retry_upto_contract: "retry_contract (retry_upto n)"
  by (simp add: retry_contract_def retry_upto_run)

lemma retry_contractD:
  "retry_contract R \<Longrightarrow> R oper s = (r, s') \<Longrightarrow> retry_run oper s r s'"
  unfolding retry_contract_def by (metis fst_conv snd_conv)

text \<open>An invariant of the operation is an invariant of the retries.\<close>

lemma retry_run_invariant:
  assumes "retry_run oper s r s'" and "I s" and "\<And>s. I s \<Longrightarrow> I (snd (oper s))"
  shows "I s'"
  using assms(1,2)
proof (induction rule: retry_run.induct)
  case (run_again s e s' r s'')
  have "I s'" using assms(3) [OF run_again.prems] run_again.hyps(1) by simp
  then show ?case by (rule run_again.IH)
qed (use assms(3) in \<open>metis snd_conv\<close>)+

text \<open>The last attempt decides: \<open>P\<close> holds of the states an attempt starts from, and the result is
  explained by one such attempt.\<close>

lemma retry_run_last:
  assumes "retry_run oper s r s'" and "I s" and "\<And>s e s'. I s \<Longrightarrow> oper s = (OpTransient e, s') \<Longrightarrow> I s'"
  shows "\<exists>s0. I s0 \<and> snd (oper s0) = s' \<and>
    (case r of
       Panic \<Rightarrow> fst (oper s0) = OpPanic
     | Ret None \<Rightarrow> fst (oper s0) = OpDone
     | Ret (Some e) \<Rightarrow> fst (oper s0) = OpPermanent e \<or>
         (\<exists>e'. fst (oper s0) = OpTransient e' \<and> (e = e' \<or> e = Canceled \<or> e = DeadlineExceeded)))"
  using assms(1,2)
proof (induction rule: retry_run.induct)
  case (run_done s s')
  then show ?case by (intro exI[of _ s]) simp
next
  case (run_permanent s e s')
  then show ?case by (intro exI[of _ s]) simp
next
  case (run_panic s s')
  then show ?case by (intro exI[of _ s]) simp
next
  case (run_stop s e s' r)
  then show ?case by (intro exI[of _ s]) auto
next
  case (run_again s e s' r s'')
  have "I s'" using assms(3) [OF run_again.prems run_again.hyps(1)] .
  then show ?case by (rule run_again.IH)
qed

text \<open>An operation that never asks for another attempt is called once.\<close>

lemma retry_run_once:
  assumes "retry_run oper s r s'" and "\<And>e. fst (oper s) \<noteq> OpTransient e"
  shows "s' = snd (oper s) \<and> (r = Ret None \<longleftrightarrow> fst (oper s) = OpDone) \<and>
    (r = Panic \<longleftrightarrow> fst (oper s) = OpPanic) \<and>
    (\<forall>e. r = Ret (Some e) \<longleftrightarrow> fst (oper s) = OpPermanent e)"
  using assms by (cases rule: retry_run.cases) auto

section \<open>Clients of a service\<close>

text \<open>What a client promises of one attempt: when it is done, the service has accepted. Then success of the retries means that the
  service has accepted, whatever the policy.\<close>

locale retried_client =
  fixes attempt :: "'s retried" and accepted :: "'s \<Rightarrow> 's \<Rightarrow> bool"
  assumes done_accepted: "attempt s = (OpDone, s') \<Longrightarrow> accepted s s'"
begin

lemma success_accepted:
  assumes "retry_contract R" and "apfst (omap (wrap_err m)) (R attempt s) = (Ret None, s')"
  shows "\<exists>s0. accepted s0 s'"
proof -
  have "R attempt s = (Ret None, s')"
    using assms(2) by (cases "R attempt s"; cases "fst (R attempt s)") (auto simp: wrap_err_def)
  from retry_run_last [OF retry_contractD [OF assms(1) this], of "\<lambda>_. True"]
  obtain s0 where "snd (attempt s0) = s'" "fst (attempt s0) = OpDone" by auto
  then show ?thesis using done_accepted [of s0 s'] by (cases "attempt s0") auto
qed

end

end
