(* ===== verification/Round_Robin.thy ===== *)
theory Round_Robin
  imports Prelude "HOL-Library.Multiset"
begin

text \<open>
  The interface of a round-robin load balancer: three places of the repository pick the next
  instance with \<open>atomic.AddUint64(&currentIndex, 1) % uint64(len(instances))\<close>
  (\<open>connectors/storage/v2/storage.go\<close>: \<open>replica\<close>, \<open>fallbackPrimary\<close>;
  \<open>connectors/storage/v3/proxy.go\<close>: \<open>instance\<close>). The locale states what the callers rely on; the
  storage theories interpret it on their own records.
\<close>

text \<open>A number of picks in a row.\<close>

fun picks :: "('st \<Rightarrow> (nat \<times> 'st) outcome) \<Rightarrow> nat \<Rightarrow> 'st \<Rightarrow> (nat list \<times> 'st) outcome" where
  "picks pick 0 s = Ret ([], s)"
| "picks pick (Suc k) s =
     obind (pick s) (\<lambda>(i, s'). omap (\<lambda>(is, s''). (i # is, s'')) (picks pick k s'))"

section \<open>Arithmetic of the cursor\<close>

lemma mset_mod_window:
  fixes n :: nat
  assumes "0 < n"
  shows "mset (map (\<lambda>i. (c + i) mod n) [0..<n]) = mset [0..<n]"
proof (induction c)
  case 0
  have "map (\<lambda>i. (0 + i) mod n) [0..<n] = [0..<n]"
    by (rule nth_equalityI) auto
  then show ?case by (simp only:)
next
  case (Suc c)
  have "map (\<lambda>i. (Suc c + i) mod n) [0..<n]
      = map (\<lambda>i. (c + i) mod n) [1..<Suc n]"
    by (simp add: map_Suc_upt [symmetric] del: upt_Suc)
  also have "mset \<dots> = mset (map (\<lambda>i. (c + i) mod n) [0..<n])"
  proof -
    have ends: "[1..<Suc n] = [1..<n] @ [n]" "[0..<n] = 0 # [1..<n]"
      using upt_Suc_append [of 1 n] upt_conv_Cons [OF assms] assms by simp_all
    have "map (\<lambda>i. (c + i) mod n) [1..<Suc n]
        = map (\<lambda>i. (c + i) mod n) [1..<n] @ [(c + n) mod n]"
      "map (\<lambda>i. (c + i) mod n) [0..<n] = ((c + 0) mod n) # map (\<lambda>i. (c + i) mod n) [1..<n]"
      by (simp_all only: ends list.map map_append)
    then show ?thesis by (simp only: mset.simps mset_append) simp
  qed
  finally show ?case using Suc.IH by simp
qed

lemma mset_mod_windows:
  fixes n :: nat
  assumes "0 < n"
  shows "mset (map (\<lambda>i. (c + i) mod n) [0..<k * n]) = repeat_mset k (mset [0..<n])"
proof (induction k)
  case 0
  then show ?case by simp
next
  case (Suc k)
  have split: "[0..<Suc k * n] = [0..<k * n] @ map (\<lambda>i. k * n + i) [0..<n]"
  proof -
    have "[0..<k * n + n] = [0..<k * n] @ [k * n..<k * n + n]"
      by (rule upt_add_eq_append) simp
    moreover have "[k * n..<k * n + n] = map (\<lambda>i. k * n + i) [0..<n]"
      by (rule nth_equalityI) auto
    ultimately show ?thesis by (simp add: add.commute)
  qed
  have "map ((\<lambda>i. (c + i) mod n) \<circ> (\<lambda>i. k * n + i)) [0..<n]
      = map (\<lambda>i. ((c + k * n) + i) mod n) [0..<n]"
    by (simp add: add.assoc)
  then have "mset (map ((\<lambda>i. (c + i) mod n) \<circ> (\<lambda>i. k * n + i)) [0..<n]) = mset [0..<n]"
    by (simp only: mset_mod_window [OF assms])
  then show ?case
    unfolding split map_append mset_append map_map Suc.IH
    by (simp only: repeat_mset_Suc union_commute)
qed

section \<open>The locale\<close>

locale round_robin =
  fixes pick :: "'st \<Rightarrow> (nat \<times> 'st) outcome"
    and size_of :: "'st \<Rightarrow> nat"
    and cursor :: "'st \<Rightarrow> 64 word"
  assumes pick_empty: "size_of s = 0 \<Longrightarrow> pick s = Panic"
    and pick_some: "0 < size_of s \<Longrightarrow>
      \<exists>s'. pick s = Ret (unat (cursor s + 1) mod size_of s, s') \<and>
        cursor s' = cursor s + 1 \<and> size_of s' = size_of s"
begin

lemma pick_in_range: "pick s = Ret (i, s') \<Longrightarrow> i < size_of s"
  using pick_empty [of s] pick_some [of s] by (cases "size_of s = 0") auto

lemma picks_upt:
  assumes "0 < size_of s" and "unat (cursor s) + k < 2 ^ 64"
  shows "\<exists>s'. picks pick k s =
    Ret (map (\<lambda>i. (unat (cursor s) + 1 + i) mod size_of s) [0..<k], s')"
  using assms
proof (induction k arbitrary: s)
  case 0
  then show ?case by simp
next
  case (Suc k)
  obtain s' where p: "pick s = Ret (unat (cursor s + 1) mod size_of s, s')"
    and c: "cursor s' = cursor s + 1" and z: "size_of s' = size_of s"
    using pick_some [OF Suc.prems(1)] by blast
  have u: "unat (cursor s + 1) = unat (cursor s) + 1"
    using Suc.prems(2) by (simp add: unat_word_ariths)
  have "unat (cursor s') + k < 2 ^ 64"
    using Suc.prems(2) by (simp add: c u)
  then obtain s'' where q: "picks pick k s' =
      Ret (map (\<lambda>i. (unat (cursor s') + 1 + i) mod size_of s') [0..<k], s'')"
    using Suc.IH [of s'] Suc.prems(1) z by auto
  have "map (\<lambda>i. (unat (cursor s) + 1 + i) mod size_of s) [0..<Suc k]
      = (unat (cursor s) + 1) mod size_of s #
        map (\<lambda>i. (unat (cursor s) + 2 + i) mod size_of s) [0..<k]"
    by (simp add: upt_conv_Cons map_Suc_upt [symmetric] del: upt_Suc)
  then show ?case
    by (auto simp: p q c u z)
qed

lemma picks_balanced:
  assumes "0 < size_of s" and "unat (cursor s) + k * size_of s < 2 ^ 64"
    and "picks pick (k * size_of s) s = Ret (is, s')"
  shows "mset is = repeat_mset k (mset [0..<size_of s])"
proof -
  have "is = map (\<lambda>i. (unat (cursor s) + 1 + i) mod size_of s) [0..<k * size_of s]"
    using picks_upt [OF assms(1,2)] assms(3) by auto
  then show ?thesis by (simp only: mset_mod_windows [OF assms(1)])
qed

lemma picks_total:
  assumes "0 < size_of s" and "unat (cursor s) + k * size_of s < 2 ^ 64"
  shows "\<exists>is s'. picks pick (k * size_of s) s = Ret (is, s') \<and>
    mset is = repeat_mset k (mset [0..<size_of s])"
  using picks_upt [OF assms] picks_balanced [OF assms] by blast

end

end
