(* ===== verification/Storage_V2.thy ===== *)
theory Storage_V2
  imports Storage_Errors Backoff Round_Robin
begin

text \<open>
  \<open>connectors/storage/v2\<close> (\<open>api.go\<close>, \<open>storage.go\<close>, \<open>contract.go\<close>): queries go to a replica chosen round
  robin, writes and transactions to the primary, with retries and fallback primaries.

  A connection pool is named by a number; a nil \<open>*pgxpool.Pool\<close> is \<^term>\<open>None\<close>. The driver (\<open>pgx\<close>,
  \<open>pgxscan\<close>) is a record of functions over the state \<open>'w\<close> of the world, a parameter of the model. Contexts
  only matter through what the driver and the retry library return.
\<close>

section \<open>State\<close>

record lb =
  replicas :: "nat list"
  currentIndex :: "64 word"

record db =
  master :: "nat option"
  fallbackMasters :: "lb option"
  db_lb :: lb
  acquiredLocks :: "(64 word \<times> nat) list"
  closed :: bool

text \<open>What a query runs on: the \<open>*DB\<close> itself, or a pool, connection or transaction of the driver.\<close>

datatype qconn = PoolQ "nat option" | ConnQ nat | TxQ nat

datatype querier = DBQ | Conn qconn

record ('v, 'r, 'w) pgx =
  pgx_Get :: "qconn \<Rightarrow> string \<Rightarrow> 'v list \<Rightarrow> 'w \<Rightarrow> (goerr + 'r) \<times> 'w"
  pgx_Select :: "qconn \<Rightarrow> string \<Rightarrow> 'v list \<Rightarrow> 'w \<Rightarrow> (goerr + 'r list) \<times> 'w"
  pgx_Exec :: "qconn \<Rightarrow> string \<Rightarrow> 'v list \<Rightarrow> 'w \<Rightarrow> (goerr + 64 word) \<times> 'w"
  pgx_BeginTxFunc :: "nat option \<Rightarrow> (qconn \<Rightarrow> 'w \<Rightarrow> err \<times> 'w) \<Rightarrow> 'w \<Rightarrow> err \<times> 'w"
  pgx_Ping :: "nat option \<Rightarrow> 'w \<Rightarrow> err \<times> 'w"

type_synonym 'w st = "db \<times> 'w"

section \<open>Choosing a pool\<close>

text \<open>\<open>atomic.AddUint64(&currentIndex, 1) % uint64(len(replicas))\<close>; the length of a slice is below
  \<open>2 ^ 63\<close>, so the remainder is the remainder of the numbers. Without replicas the division panics.\<close>

definition lb_next :: "lb \<Rightarrow> (nat \<times> lb) outcome" where
  "lb_next b =
     (if replicas b = [] then Panic
      else Ret (unat (currentIndex b + 1) mod length (replicas b), b\<lparr>currentIndex := currentIndex b + 1\<rparr>))"

definition replica :: "db \<Rightarrow> (nat \<times> db) outcome" where
  "replica d = omap (\<lambda>(i, b). (i, d\<lparr>db_lb := b\<rparr>)) (lb_next (db_lb d))"

definition fallbackPrimary :: "db \<Rightarrow> (nat \<times> db) outcome" where
  "fallbackPrimary d = (case fallbackMasters d of
     None \<Rightarrow> Panic
   | Some f \<Rightarrow> omap (\<lambda>(i, b). (i, d\<lparr>fallbackMasters := Some b\<rparr>)) (lb_next f))"

definition fallbacks :: "db \<Rightarrow> nat list" where
  "fallbacks d = (case fallbackMasters d of None \<Rightarrow> [] | Some f \<Rightarrow> replicas f)"

definition has_fallbacks :: "db \<Rightarrow> bool" where
  "has_fallbacks d \<longleftrightarrow> (case fallbackMasters d of None \<Rightarrow> False | Some f \<Rightarrow> replicas f \<noteq> [])"

text \<open>Both balancers are instances of the round-robin interface.\<close>

interpretation replica_rr: round_robin replica "\<lambda>d. length (replicas (db_lb d))" "\<lambda>d. currentIndex (db_lb d)"
  by unfold_locales (auto simp: replica_def lb_next_def)

interpretation fallback_rr: round_robin fallbackPrimary "\<lambda>d. length (fallbacks d)"
    "\<lambda>d. case fallbackMasters d of None \<Rightarrow> 0 | Some f \<Rightarrow> currentIndex f"
  by unfold_locales (auto simp: fallbackPrimary_def lb_next_def fallbacks_def split: option.splits)

section \<open>Retries\<close>

text \<open>\<open>retry\<close>: the operation gets the error of the attempt before (\<open>err\<close> is captured), and its value is
  kept in \<open>tt\<close>. \<open>zero\<close> is Go's zero value of the result type.\<close>

fun op_error :: "op_result \<Rightarrow> err" where
  "op_error OpDone = None"
| "op_error (OpPermanent e) = Some e"
| "op_error (OpTransient e) = Some e"
| "op_error OpPanic = None"

definition retry_body ::
    "(err \<Rightarrow> 's \<Rightarrow> ('t \<times> op_result) \<times> 's) \<Rightarrow> ('t \<times> err \<times> 's) retried" where
  "retry_body oper = (\<lambda>(tt, prev, s). case oper prev s of ((tt', r), s') \<Rightarrow> (r, (tt', op_error r, s')))"

definition retry ::
    "('t \<times> err \<times> 's) retrier \<Rightarrow> 't \<Rightarrow> (err \<Rightarrow> 's \<Rightarrow> ('t \<times> op_result) \<times> 's) \<Rightarrow> 's \<Rightarrow>
     ('t \<times> err) outcome \<times> 's" where
  "retry R zero oper s = (case R (retry_body oper) (zero, None, s) of
     (res, (tt, e', s')) \<Rightarrow> (omap (\<lambda>e. (tt, e)) res, s'))"

text \<open>The end of every retried operation: an unexpected error is returned as it is, with the zero
  value, anything else is permanent.\<close>

definition attempt_result :: "'t \<Rightarrow> 't \<times> err \<Rightarrow> 't \<times> op_result" where
  "attempt_result zero = (\<lambda>(resp, e).
     if e \<noteq> None \<and> IsUnexpected e then (zero, plain e) else (resp, permanent e))"

section \<open>Queries\<close>

text \<open>\<open>if pool, ok := db.(*DB); ok { db = pool.replica() }\<close>\<close>

definition read_target :: "querier \<Rightarrow> db \<Rightarrow> (qconn \<times> db) outcome" where
  "read_target q d = (case q of
     Conn c \<Rightarrow> Ret (c, d)
   | DBQ \<Rightarrow> omap (\<lambda>(i, d'). (PoolQ (Some (replicas (db_lb d) ! i)), d')) (replica d))"

definition get_v2 :: "('v, 'r, 'w) pgx \<Rightarrow> querier \<Rightarrow> string \<Rightarrow> 'v list \<Rightarrow> 'w st \<Rightarrow> ('r option \<times> err) outcome \<times> 'w st" where
  "get_v2 X db sql args = (\<lambda>(d, w). case read_target db d of
     Panic \<Rightarrow> (Panic, (d, w))
   | Ret (c, d') \<Rightarrow> (case pgx_Get X c sql args w of
       (Inl e, w') \<Rightarrow> (Ret (None, parseDBError (Some e)), (d', w'))
     | (Inr resp, w') \<Rightarrow> (Ret (Some resp, None), (d', w'))))"

definition selectInternal ::
    "('v, 'r, 'w) pgx \<Rightarrow> querier \<Rightarrow> string \<Rightarrow> 'v list \<Rightarrow> 'w st \<Rightarrow> ('r list \<times> err) outcome \<times> 'w st" where
  "selectInternal X db sql args = (\<lambda>(d, w). case read_target db d of
     Panic \<Rightarrow> (Panic, (d, w))
   | Ret (c, d') \<Rightarrow> (case pgx_Select X c sql args w of
       (Inl e, w') \<Rightarrow> (Ret ([], parseDBError (Some e)), (d', w'))
     | (Inr resp, w') \<Rightarrow> (Ret (resp, None), (d', w'))))"

definition attempt :: "'t \<Rightarrow> ('t \<times> err) outcome \<times> 's \<Rightarrow> ('t \<times> op_result) \<times> 's" where
  "attempt zero r = (case r of
     (Panic, s) \<Rightarrow> ((zero, OpPanic), s)
   | (Ret x, s) \<Rightarrow> (attempt_result zero x, s))"

definition Get ::
    "('r option \<times> err \<times> 'w st) retrier \<Rightarrow> ('v, 'r, 'w) pgx \<Rightarrow> querier \<Rightarrow> string \<Rightarrow> 'v list \<Rightarrow> 'w st \<Rightarrow>
     ('r option \<times> err) outcome \<times> 'w st" where
  "Get R X db sql args = retry R None (\<lambda>prev s. attempt None (get_v2 X db sql args s))"

definition Select_v2 ::
    "('r list \<times> err \<times> 'w st) retrier \<Rightarrow> ('v, 'r, 'w) pgx \<Rightarrow> querier \<Rightarrow> string \<Rightarrow> 'v list \<Rightarrow> 'w st \<Rightarrow>
     ('r list \<times> err) outcome \<times> 'w st" where
  "Select_v2 R X db sql args = retry R [] (\<lambda>prev s. attempt [] (selectInternal X db sql args s))"

section \<open>Writes\<close>

text \<open>The choice that \<open>Exec\<close>, \<open>ExecOne\<close> and \<open>ExecMany\<close> make at the start of an attempt.\<close>

definition write_target :: "err \<Rightarrow> querier \<Rightarrow> db \<Rightarrow> (qconn \<times> db) outcome" where
  "write_target prev q d = (case q of
     Conn c \<Rightarrow> Ret (c, d)
   | DBQ \<Rightarrow>
       (if has_fallbacks d \<and> needRetryOnFallbackMaster prev
        then omap (\<lambda>(i, d'). (PoolQ (Some (fallbacks d ! i)), d')) (fallbackPrimary d)
        else Ret (PoolQ (master d), d)))"

definition exec_v2 :: "('v, 'r, 'w) pgx \<Rightarrow> qconn \<Rightarrow> string \<Rightarrow> 'v list \<Rightarrow> 'w \<Rightarrow> (64 word \<times> err) \<times> 'w" where
  "exec_v2 X c sql args w = (case pgx_Exec X c sql args w of
     (Inl e, w') \<Rightarrow> ((0, parseDBError (Some e)), w')
   | (Inr n, w') \<Rightarrow> ((n, None), w'))"

definition execOne :: "('v, 'r, 'w) pgx \<Rightarrow> qconn \<Rightarrow> string \<Rightarrow> 'v list \<Rightarrow> 'w \<Rightarrow> ('r option \<times> err) \<times> 'w" where
  "execOne X c sql args w = (case pgx_Get X c sql args w of
     (Inl e, w') \<Rightarrow> ((None, parseDBError (Some e)), w')
   | (Inr r, w') \<Rightarrow> ((Some r, None), w'))"

definition execMany :: "('v, 'r, 'w) pgx \<Rightarrow> qconn \<Rightarrow> string \<Rightarrow> 'v list \<Rightarrow> 'w \<Rightarrow> ('r list \<times> err) \<times> 'w" where
  "execMany X c sql args w = (case pgx_Select X c sql args w of
     (Inl e, w') \<Rightarrow> (([], parseDBError (Some e)), w')
   | (Inr rs, w') \<Rightarrow> ((rs, None), w'))"

definition write_attempt ::
    "'t \<Rightarrow> (qconn \<Rightarrow> 'w \<Rightarrow> ('t \<times> err) \<times> 'w) \<Rightarrow> querier \<Rightarrow> err \<Rightarrow> 'w st \<Rightarrow> ('t \<times> op_result) \<times> 'w st" where
  "write_attempt zero run q prev = (\<lambda>(d, w). case write_target prev q d of
     Panic \<Rightarrow> ((zero, OpPanic), (d, w))
   | Ret (c, d') \<Rightarrow> (case run c w of (x, w') \<Rightarrow> (attempt_result zero x, (d', w'))))"

definition Exec ::
    "(64 word \<times> err \<times> 'w st) retrier \<Rightarrow> ('v, 'r, 'w) pgx \<Rightarrow> querier \<Rightarrow> string \<Rightarrow> 'v list \<Rightarrow> 'w st \<Rightarrow>
     (64 word \<times> err) outcome \<times> 'w st" where
  "Exec R X db sql args = retry R 0 (write_attempt 0 (\<lambda>c. exec_v2 X c sql args) db)"

definition ExecOne ::
    "('r option \<times> err \<times> 'w st) retrier \<Rightarrow> ('v, 'r, 'w) pgx \<Rightarrow> querier \<Rightarrow> string \<Rightarrow> 'v list \<Rightarrow> 'w st \<Rightarrow>
     ('r option \<times> err) outcome \<times> 'w st" where
  "ExecOne R X db sql args = retry R None (write_attempt None (\<lambda>c. execOne X c sql args) db)"

definition ExecMany ::
    "('r list \<times> err \<times> 'w st) retrier \<Rightarrow> ('v, 'r, 'w) pgx \<Rightarrow> querier \<Rightarrow> string \<Rightarrow> 'v list \<Rightarrow> 'w st \<Rightarrow>
     ('r list \<times> err) outcome \<times> 'w st" where
  "ExecMany R X db sql args = retry R [] (write_attempt [] (\<lambda>c. execMany X c sql args) db)"

section \<open>Transactions\<close>

text \<open>One round: the transaction on the primary, retried while the error is unexpected.\<close>

definition tx_round ::
    "(unit \<times> err \<times> 'w st) retrier \<Rightarrow> ('v, 'r, 'w) pgx \<Rightarrow> (qconn \<Rightarrow> 'w \<Rightarrow> err \<times> 'w) \<Rightarrow> 'w st \<Rightarrow>
     (unit \<times> err) outcome \<times> 'w st" where
  "tx_round R X fn = retry R () (\<lambda>prev (d, w).
     case pgx_BeginTxFunc X (master d) fn w of
       (e, w') \<Rightarrow> (attempt_result () ((), parseDBError e), (d, w')))"

text \<open>The loop over the fallback primaries: \<open>n\<close> is how many are still to be tried, \<open>txErr\<close> what
  \<open>multierror.Append\<close> has collected (it drops \<open>nil\<close>).\<close>

fun tx_fallbacks ::
    "('v, 'r, 'w) pgx \<Rightarrow> (qconn \<Rightarrow> 'w \<Rightarrow> err \<times> 'w) \<Rightarrow> nat \<Rightarrow> err \<Rightarrow> err list \<Rightarrow> 'w st \<Rightarrow>
     err list outcome \<times> 'w st" where
  "tx_fallbacks X fn 0 e txErr s = (Ret txErr, s)"
| "tx_fallbacks X fn (Suc n) e txErr (d, w) =
     (if needRetryOnFallbackMaster e \<or> IsUnexpected e then
        (case fallbackPrimary d of
           Panic \<Rightarrow> (Panic, (d, w))
         | Ret (i, d') \<Rightarrow>
             (case pgx_BeginTxFunc X (Some (fallbacks d ! i)) fn w of
                (e', w') \<Rightarrow> tx_fallbacks X fn n (parseDBError e') (txErr @ [parseDBError e']) (d', w')))
      else (Ret txErr, (d, w)))"

definition tx_aborted :: "err \<Rightarrow> bool" where
  "tx_aborted e \<longleftrightarrow> e \<noteq> None \<and> (is_err e (Some ErrSerializationFailure) \<or> is_err e (Some ErrTxAborted))"

definition tx_finish ::
    "('v, 'r, 'w) pgx \<Rightarrow> (qconn \<Rightarrow> 'w \<Rightarrow> err \<times> 'w) \<Rightarrow> err \<Rightarrow> 'w st \<Rightarrow> err outcome \<times> 'w st" where
  "tx_finish X fn e = (\<lambda>(d, w).
     if has_fallbacks d \<and> needRetryOnFallbackMaster e then
       (case tx_fallbacks X fn (length (fallbacks d)) e [] (d, w) of
          (Panic, s') \<Rightarrow> (Panic, s')
        | (Ret txErr, s') \<Rightarrow> (Ret (wrap_err ''failed to execute tx on fallbacks'' (join_errs txErr)), s'))
     else (Ret e, (d, w)))"

text \<open>The tail recursion on an aborted transaction may go on forever: then there is no result.\<close>

partial_function (option) DoInTransaction ::
    "(unit \<times> err \<times> 'w st) retrier \<Rightarrow> ('v, 'r, 'w) pgx \<Rightarrow> (qconn \<Rightarrow> 'w \<Rightarrow> err \<times> 'w) \<Rightarrow> 'w st \<Rightarrow>
     (err outcome \<times> 'w st) option" where
  "DoInTransaction R X fn s = (case tx_round R X fn s of
     (Panic, s') \<Rightarrow> Some (Panic, s')
   | (Ret (u, e), s') \<Rightarrow>
       if tx_aborted e then DoInTransaction R X fn s'
       else Some (tx_finish X fn e s'))"

section \<open>Health\<close>

text \<open>\<open>CheckWrite\<close>; \<open>read_only\<close> reads the column \<open>transaction_read_only\<close> of the row.\<close>

definition CheckWrite ::
    "('r option \<times> err \<times> 'w st) retrier \<Rightarrow> ('v, 'r, 'w) pgx \<Rightarrow> ('r \<Rightarrow> string) \<Rightarrow> querier \<Rightarrow> 'w st \<Rightarrow>
     err outcome \<times> 'w st" where
  "CheckWrite R X read_only db s = (case ExecOne R X db ''show transaction_read_only;'' [] s of
     (Panic, s') \<Rightarrow> (Panic, s')
   | (Ret (res, Some e), s') \<Rightarrow> (Ret (Some (Wrapped ''failed to check write access'' e)), s')
   | (Ret (None, None), s') \<Rightarrow> (Panic, s')
   | (Ret (Some r, None), s') \<Rightarrow> (Ret (if read_only r = ''on'' then Some ErrReadOnly else None), s'))"

text \<open>The checks that \<open>Ping\<close> starts, each as one step. They run concurrently: \<open>sched\<close> is the order in
  which they happen to run.\<close>

definition ping_checks ::
    "('r option \<times> err \<times> 'w st) retrier \<Rightarrow> ('v, 'r, 'w) pgx \<Rightarrow> ('r \<Rightarrow> string) \<Rightarrow> bool \<Rightarrow> db \<Rightarrow>
     ('w st \<Rightarrow> err outcome \<times> 'w st) list" where
  "ping_checks R X read_only NoWriteCheck d =
     (if master d \<noteq> None then
        [\<lambda>(d', w). case pgx_Ping X (master d) w of
           (e, w') \<Rightarrow> (Ret (wrap_err ''ping failed for master'' e), (d', w')),
         \<lambda>s. if NoWriteCheck then (Ret None, s)
             else (case CheckWrite R X read_only (Conn (PoolQ (master d))) s of
                (r, s') \<Rightarrow> (omap (wrap_err ''write check failed for master'') r, s'))]
      else []) @
     map (\<lambda>p (d', w). case pgx_Ping X (Some p) w of
        (e, w') \<Rightarrow> (Ret (wrap_err ''ping failed for replica'' e), (d', w'))) (replicas (db_lb d))"

fun run_checks :: "('s \<Rightarrow> err outcome \<times> 's) list \<Rightarrow> 's \<Rightarrow> err list outcome \<times> 's" where
  "run_checks [] s = (Ret [], s)"
| "run_checks (f # fs) s = (case f s of
     (Panic, s') \<Rightarrow> (Panic, s')
   | (Ret e, s') \<Rightarrow> (case run_checks fs s' of (r, s'') \<Rightarrow> (omap (\<lambda>es. e # es) r, s'')))"

definition Ping ::
    "(('w st \<Rightarrow> err outcome \<times> 'w st) list \<Rightarrow> ('w st \<Rightarrow> err outcome \<times> 'w st) list) \<Rightarrow>
     ('r option \<times> err \<times> 'w st) retrier \<Rightarrow> ('v, 'r, 'w) pgx \<Rightarrow> ('r \<Rightarrow> string) \<Rightarrow> bool \<Rightarrow> 'w st \<Rightarrow>
     err outcome \<times> 'w st" where
  "Ping sched R X read_only NoWriteCheck s =
     (case run_checks (sched (ping_checks R X read_only NoWriteCheck (fst s))) s of
        (r, s') \<Rightarrow> (omap join_errs r, s'))"

text \<open>\<open>(*DB).Exec\<close> and \<open>(*DB).Query\<close> exist for their types only.\<close>

definition DB_Exec :: "'a \<Rightarrow> 'b outcome" where "DB_Exec args = Panic"

definition DB_Query :: "'a \<Rightarrow> 'b outcome" where "DB_Query args = Panic"

section \<open>What a retried call returns\<close>

lemma retry_last:
  assumes R: "retry_contract R" and run: "retry R zero oper s = (out, s')"
    and init: "I None s"
    and step: "\<And>prev s t e s'. I prev s \<Longrightarrow> oper prev s = ((t, OpTransient e), s') \<Longrightarrow> I (Some e) s'"
  shows "\<exists>prev s0 t r. I prev s0 \<and> oper prev s0 = ((t, r), s') \<and>
    (case out of
       Panic \<Rightarrow> r = OpPanic
     | Ret (tt, None) \<Rightarrow> tt = t \<and> r = OpDone
     | Ret (tt, Some e) \<Rightarrow> tt = t \<and> (r = OpPermanent e \<or>
         (\<exists>e'. r = OpTransient e' \<and> (e = e' \<or> e = Canceled \<or> e = DeadlineExceeded))))"
proof -
  obtain res tt e1 where Rres: "R (retry_body oper) (zero, None, s) = (res, (tt, e1, s'))"
      and out: "out = omap (\<lambda>e. (tt, e)) res"
    using run by (auto simp: retry_def split: prod.splits)
  let ?J = "\<lambda>(tt, prev, s). I prev s"
  have "retry_run (retry_body oper) (zero, None, s) res (tt, e1, s')"
    by (rule retry_contractD [OF R Rres])
  moreover have "?J (zero, None, s)" using init by simp
  moreover have "?J x'" if "?J x" "retry_body oper x = (OpTransient e, x')" for x e x'
    using that step by (cases x) (auto simp: retry_body_def split: prod.splits)
  ultimately have "\<exists>x. ?J x \<and> snd (retry_body oper x) = (tt, e1, s') \<and>
    (case res of Panic \<Rightarrow> fst (retry_body oper x) = OpPanic
     | Ret None \<Rightarrow> fst (retry_body oper x) = OpDone
     | Ret (Some e) \<Rightarrow> fst (retry_body oper x) = OpPermanent e \<or>
         (\<exists>e'. fst (retry_body oper x) = OpTransient e' \<and> (e = e' \<or> e = Canceled \<or> e = DeadlineExceeded)))"
    by (rule retry_run_last)
  then obtain x where x: "?J x" "snd (retry_body oper x) = (tt, e1, s')" and
    c: "case res of Panic \<Rightarrow> fst (retry_body oper x) = OpPanic
     | Ret None \<Rightarrow> fst (retry_body oper x) = OpDone
     | Ret (Some e) \<Rightarrow> fst (retry_body oper x) = OpPermanent e \<or>
         (\<exists>e'. fst (retry_body oper x) = OpTransient e' \<and> (e = e' \<or> e = Canceled \<or> e = DeadlineExceeded))"
    by (elim exE conjE)
  obtain tt0 prev s0 where x0: "x = (tt0, prev, s0)" by (cases x)
  obtain t r s1 where o: "oper prev s0 = ((t, r), s1)" by (metis prod.exhaust)
  have "s1 = s'" "t = tt" "fst (retry_body oper x) = r"
    using x(2) x0 o by (simp_all add: retry_body_def)
  then show ?thesis
    using x(1) x0 o c out
    by (intro exI [of _ prev] exI [of _ s0] exI [of _ t] exI [of _ r])
      (auto split: outcome.splits option.splits)
qed

lemma attempt_result_cases:
  "attempt_result zero (resp, e) =
    (case e of None \<Rightarrow> (resp, OpDone)
     | Some x \<Rightarrow> if IsUnexpected e then (zero, OpTransient x) else (resp, OpPermanent x))"
  by (cases e) (simp_all add: attempt_result_def)

lemma replica_pool:
  "replica d = Ret (i, d') \<Longrightarrow> i < length (replicas (db_lb d)) \<and> replicas (db_lb d') = replicas (db_lb d) \<and>
    (\<exists>b. d' = d\<lparr>db_lb := b\<rparr>)"
  using replica_rr.pick_in_range [of d i d'] by (auto simp: replica_def lb_next_def split: if_splits)

text \<open>Where a read may go: a replica for \<open>*DB\<close>, the given connection otherwise.\<close>

definition read_sources :: "querier \<Rightarrow> db \<Rightarrow> qconn set" where
  "read_sources q d = (case q of Conn c \<Rightarrow> {c} | DBQ \<Rightarrow> (\<lambda>p. PoolQ (Some p)) ` set (replicas (db_lb d)))"

lemma read_target_reads:
  assumes "read_target q d = Ret (c, d')"
  shows "c \<in> read_sources q d \<and> replicas (db_lb d') = replicas (db_lb d) \<and> (\<exists>b. d' = d\<lparr>db_lb := b\<rparr>)"
proof (cases q)
  case DBQ
  then show ?thesis
    using assms replica_pool [of d] by (fastforce simp: read_target_def read_sources_def)
next
  case (Conn c0)
  then show ?thesis using assms by (auto simp: read_target_def read_sources_def intro: exI [of _ "db_lb d"])
qed

text \<open>An error that retrying gave up on: the last one, or the end of the context.\<close>

definition stop_err :: "err \<Rightarrow> err \<Rightarrow> bool" where
  "stop_err e e' \<longleftrightarrow> e = e' \<or> IsUnexpected e' \<and> (e = Some Canceled \<or> e = Some DeadlineExceeded)"

definition last_attempt :: "'t \<Rightarrow> 't \<times> err \<Rightarrow> 't \<times> err \<Rightarrow> bool" where
  "last_attempt zero = (\<lambda>(t0, e0) (t, e). stop_err e e0 \<and> t = (if IsUnexpected e0 then zero else t0))"

lemma last_attemptI:
  assumes "attempt_result zero (t0, e0) = (t, r)"
    and "case e of None \<Rightarrow> r = OpDone
      | Some x \<Rightarrow> r = OpPermanent x \<or> (\<exists>x'. r = OpTransient x' \<and> (x = x' \<or> x = Canceled \<or> x = DeadlineExceeded))"
  shows "last_attempt zero (t0, e0) (t, e)"
  using assms
  by (auto simp: last_attempt_def stop_err_def attempt_result_cases split: option.splits if_splits)

lemma retry_attempt_last:
  assumes R: "retry_contract R" and run: "retry R zero (\<lambda>prev s. attempt zero (f s)) s = (Ret (t, e), s')"
    and "I s" and step: "\<And>s x s'. I s \<Longrightarrow> f s = (Ret x, s') \<Longrightarrow> I s'"
  shows "\<exists>s0 x. I s0 \<and> f s0 = (Ret x, s') \<and> last_attempt zero x (t, e)"
proof -
  have st: "I s'" if "I s" "attempt zero (f s) = ((t, OpTransient e), s')" for s t e s'
    using that step by (auto simp: attempt_def split: prod.splits outcome.splits)
  have "\<exists>(prev::err) s0 t0 r. I s0 \<and> attempt zero (f s0) = ((t0, r), s') \<and>
    (case Ret (t, e) of
       Panic \<Rightarrow> r = OpPanic
     | Ret (tt, None) \<Rightarrow> tt = t0 \<and> r = OpDone
     | Ret (tt, Some e) \<Rightarrow> tt = t0 \<and> (r = OpPermanent e \<or>
         (\<exists>e'. r = OpTransient e' \<and> (e = e' \<or> e = Canceled \<or> e = DeadlineExceeded))))"
    by (rule retry_last [where I = "\<lambda>prev s. I s" and oper = "\<lambda>prev s. attempt zero (f s)", OF R run assms(3)])
      (rule st)
  then obtain s0 t0 r where s0: "I s0" "attempt zero (f s0) = ((t0, r), s')" and
    c: "t = t0" "case e of None \<Rightarrow> r = OpDone
      | Some x \<Rightarrow> r = OpPermanent x \<or> (\<exists>x'. r = OpTransient x' \<and> (x = x' \<or> x = Canceled \<or> x = DeadlineExceeded))"
    by (auto split: option.splits)
  then obtain x where x: "f s0 = (Ret x, s')"
    by (cases "f s0"; cases "fst (f s0)"; cases e) (auto simp: attempt_def)
  then have "last_attempt zero x (t, e)"
    using s0 c by (cases x) (auto simp: attempt_def intro: last_attemptI)
  with s0 x show ?thesis by blast
qed

lemma Get_last:
  fixes X :: "('v, 'r, 'w) pgx"
  assumes "retry_contract R" and "Get R X q sql args (d, w) = (Ret (t, e), (d', w'))"
  shows "\<exists>c \<in> read_sources q d. \<exists>w0 x. pgx_Get X c sql args w0 = (x, w') \<and>
    last_attempt None (case x of Inr r \<Rightarrow> (Some r, None) | Inl er \<Rightarrow> (None, parseDBError (Some er))) (t, e)"
proof -
  let ?I = "\<lambda>s::'w st. replicas (db_lb (fst s)) = replicas (db_lb d)"
  have step: "?I s'" if "?I s" "get_v2 X q sql args s = (Ret x, s')" for s x s'
    using that by (auto simp: get_v2_def dest!: read_target_reads split: prod.splits outcome.splits sum.splits)
  obtain s0 x where s0: "?I s0" "get_v2 X q sql args s0 = (Ret x, (d', w'))" "last_attempt None x (t, e)"
    by (rule exE [OF retry_attempt_last [where I = ?I, OF assms(1) assms(2)[unfolded Get_def] _ step]]) auto
  obtain d0 w0 where d0: "s0 = (d0, w0)" by (cases s0)
  obtain c d1 where c: "read_target q d0 = Ret (c, d1)"
    using s0(2) by (auto simp: get_v2_def d0 split: outcome.splits)
  have "c \<in> read_sources q d"
    using read_target_reads [OF c] s0(1) by (auto simp: read_sources_def d0 split: querier.splits)
  moreover obtain y where "pgx_Get X c sql args w0 = (y, w')"
    using s0(2) by (auto simp: get_v2_def d0 c split: prod.splits sum.splits)
  ultimately show ?thesis
    using s0(2,3) by (auto simp: get_v2_def d0 c split: sum.splits intro!: bexI [of _ c] exI [of _ w0] exI [of _ y])
qed

text \<open>
  \<open>Get\<close> on a \<open>*DB\<close> reads from a replica, never from the primary, and returns what the last
  attempt returned: a row without error, or no row and that attempt's classified error. Only an
  unexpected error can end as the context's error instead.
\<close>
theorem Get_returns_last_attempt:
  assumes "retry_contract R" and "Get R X q sql args (d, w) = (Ret (t, e), (d', w'))"
  shows "\<exists>c \<in> read_sources q d. \<exists>w0 x. pgx_Get X c sql args w0 = (x, w') \<and>
    (case x of Inr r \<Rightarrow> t = Some r \<and> e = None
     | Inl er \<Rightarrow> t = None \<and> e \<noteq> None \<and> stop_err e (parseDBError (Some er)))"
proof -
  obtain c w0 x where c: "c \<in> read_sources q d" "pgx_Get X c sql args w0 = (x, w')"
    "last_attempt None (case x of Inr r \<Rightarrow> (Some r, None) | Inl er \<Rightarrow> (None, parseDBError (Some er))) (t, e)"
    using Get_last [OF assms] by blast
  have "case x of Inr r \<Rightarrow> t = Some r \<and> e = None
     | Inl er \<Rightarrow> t = None \<and> e \<noteq> None \<and> stop_err e (parseDBError (Some er))"
    using c(3) parseDBError_eq_None by (auto simp: last_attempt_def stop_err_def split: sum.splits simp del: parseDBError_eq_None)
  with c(1,2) show ?thesis by blast
qed

text \<open>A small driver: the world is the number of calls so far; every call fails but the ones listed.\<close>

definition toy_pgx :: "(nat \<Rightarrow> qconn \<Rightarrow> goerr option) \<Rightarrow> (string, string, nat) pgx" where
  "toy_pgx f = \<lparr>
     pgx_Get = (\<lambda>c sql args w. (case f w c of None \<Rightarrow> Inr ''row'' | Some e \<Rightarrow> Inl e, Suc w)),
     pgx_Select = (\<lambda>c sql args w. (case f w c of None \<Rightarrow> Inr [''row''] | Some e \<Rightarrow> Inl e, Suc w)),
     pgx_Exec = (\<lambda>c sql args w. (case f w c of None \<Rightarrow> Inr 1 | Some e \<Rightarrow> Inl e, Suc w)),
     pgx_BeginTxFunc = (\<lambda>p fn w. (f w (PoolQ p), Suc w)),
     pgx_Ping = (\<lambda>p w. (f w (PoolQ p), Suc w))\<rparr>"

definition toy_db :: db where
  "toy_db = \<lparr>master = Some 1, fallbackMasters = Some \<lparr>replicas = [2, 3], currentIndex = 1\<rparr>,
     db_lb = \<lparr>replicas = [4, 5], currentIndex = 0\<rparr>, acquiredLocks = [], closed = False\<rparr>"

definition read_only_error :: goerr where
  "read_only_error = Pg \<lparr>sqlstate = ''25006'', constraint_name = [], table_name = [], detail = [],
     pg_text = ''cannot execute INSERT in a read-only transaction''\<rparr>"

lemma read_only_error_parsed [simp]: "parseDBError (Some read_only_error) = Some ErrReadOnly"
  by (simp add: parseDBError_def read_only_error_def errors_as_def is_pg_def)

theorem Get_returns_last_attempt_witness:
  "\<exists>c \<in> read_sources DBQ toy_db. \<exists>w0 x. pgx_Get (toy_pgx (\<lambda>w c. None)) c [] [] w0 = (x, Suc 0) \<and>
    (case x of Inr r \<Rightarrow> Some ''row'' = Some r \<and> (None :: err) = None
     | Inl er \<Rightarrow> Some ''row'' = (None :: string option) \<and> None \<noteq> (None :: err) \<and> stop_err None (parseDBError (Some er)))"
proof -
  have "Get (retry_upto 0) (toy_pgx (\<lambda>w c. None)) DBQ [] [] (toy_db, 0) =
      (Ret (Some ''row'', None), (toy_db\<lparr>db_lb := \<lparr>replicas = [4, 5], currentIndex = 1\<rparr>\<rparr>, Suc 0))"
    by (simp add: Get_def retry_def retry_upto.simps retry_body_def attempt_def get_v2_def read_target_def
        replica_def lb_next_def toy_pgx_def attempt_result_def toy_db_def)
  from Get_returns_last_attempt [OF retry_upto_contract this] show ?thesis .
qed

text \<open>
  C32. Load balancing: \<open>k * n\<close> reads in a row on \<open>n\<close> replicas use every replica exactly \<open>k\<close> times (as long
  as the 64-bit counter does not wrap); and any single pick is one of the replicas.
\<close>
theorem replica_balanced:
  assumes "0 < length (replicas (db_lb d))"
    and "unat (currentIndex (db_lb d)) + k * length (replicas (db_lb d)) < 2 ^ 64"
  shows "\<exists>is d'. picks replica (k * length (replicas (db_lb d))) d = Ret (is, d') \<and>
    mset is = repeat_mset k (mset [0..<length (replicas (db_lb d))])"
  using replica_rr.picks_total [of d k] assms by blast

theorem replica_balanced_witness:
  "\<exists>is d'. picks replica (3 * length (replicas (db_lb toy_db))) toy_db = Ret (is, d') \<and>
    mset is = repeat_mset 3 (mset [0..<length (replicas (db_lb toy_db))])"
  by (rule replica_balanced) (simp_all add: toy_db_def)

section \<open>Writes stay on the primary\<close>

definition driver_ok :: "('v, 'r, 'w) pgx \<Rightarrow> bool" where
  "driver_ok X \<longleftrightarrow> (\<forall>c sql args w e.
     (fst (pgx_Exec X c sql args w) = Inl e \<longrightarrow> driver_err (Some e)) \<and>
     (fst (pgx_Get X c sql args w) = Inl e \<longrightarrow> driver_err (Some e)) \<and>
     (fst (pgx_Select X c sql args w) = Inl e \<longrightarrow> driver_err (Some e)))"

lemma parse_not_read_only:
  assumes "driver_err (Some e)" and "IsUnexpected (parseDBError (Some e))"
  shows "\<not> needRetryOnFallbackMaster (parseDBError (Some e))"
proof -
  have "parseDBError (Some e) = Some e"
  proof (cases "Some e :: err" rule: as_err_pg_cases)
    case 1
    then show ?thesis using parseDBError_other [OF 1] assms(2)
      by (auto simp: ErrNotFound_def split: if_splits)
  next
    case (2 p)
    show ?thesis
    proof (cases "sqlstate p \<in> set classified")
      case True
      obtain t c s where tc: "sentinel_of p = (t, c)" "t = Sentinel s"
        using sentinel_of_Sentinel [of p] by (cases "sentinel_of p") auto
      then have "\<not> IsUnexpected (parseDBError (Some e))"
        using parseDBError_classified [OF 2 True] by (auto split: option.splits)
      with assms(2) show ?thesis by simp
    qed (rule parseDBError_unclassified [OF 2])
  qed
  then show ?thesis using assms(1) by (simp add: needRetryOnFallbackMaster_def driver_err_def)
qed

lemma write_last:
  fixes run :: "qconn \<Rightarrow> 'w \<Rightarrow> ('t \<times> err) \<times> 'w"
  assumes R: "retry_contract R" and r: "retry R zero (write_attempt zero run DBQ) (d, w) = (Ret (t, e), (d', w'))"
    and drv: "\<And>c w. IsUnexpected (snd (fst (run c w))) \<Longrightarrow> \<not> needRetryOnFallbackMaster (snd (fst (run c w)))"
  shows "d' = d \<and> (\<exists>w0 x. run (PoolQ (master d)) w0 = (x, w') \<and> last_attempt zero x (t, e))"
proof -
  let ?I = "\<lambda>prev (s :: 'w st). fst s = d \<and> \<not> needRetryOnFallbackMaster prev"
  have tgt: "write_target prev DBQ d = Ret (PoolQ (master d), d)" if "\<not> needRetryOnFallbackMaster prev" for prev
    using that by (simp add: write_target_def)
  have step: "?I (Some e) s'" if "?I prev s" "write_attempt zero run DBQ prev s = ((t, OpTransient e), s')"
    for prev s t e s'
    using that drv [of "PoolQ (master d)" "snd s"] tgt [of prev]
    by (cases s) (auto simp: write_attempt_def attempt_result_cases split: prod.splits option.splits if_splits)
  have "?I None (d, w)" by (simp add: needRetryOnFallbackMaster_def)
  then have "\<exists>prev s0 t0 r. ?I prev s0 \<and> write_attempt zero run DBQ prev s0 = ((t0, r), (d', w')) \<and>
    (case Ret (t, e) of
       Panic \<Rightarrow> r = OpPanic
     | Ret (tt, None) \<Rightarrow> tt = t0 \<and> r = OpDone
     | Ret (tt, Some e) \<Rightarrow> tt = t0 \<and> (r = OpPermanent e \<or>
         (\<exists>e'. r = OpTransient e' \<and> (e = e' \<or> e = Canceled \<or> e = DeadlineExceeded))))"
    by (rule retry_last [where I = ?I, OF R r]) (rule step)
  then obtain prev s0 t0 rr where s0: "?I prev s0" "write_attempt zero run DBQ prev s0 = ((t0, rr), (d', w'))"
    and c: "t = t0" "case e of None \<Rightarrow> rr = OpDone
      | Some x \<Rightarrow> rr = OpPermanent x \<or> (\<exists>x'. rr = OpTransient x' \<and> (x = x' \<or> x = Canceled \<or> x = DeadlineExceeded))"
    by (auto split: option.splits)
  obtain w0 where w0: "s0 = (d, w0)" using s0(1) by (cases s0) auto
  obtain x w1 where x: "run (PoolQ (master d)) w0 = (x, w1)" by (metis prod.exhaust)
  have "d' = d" "w1 = w'" "attempt_result zero x = (t0, rr)"
    using s0 w0 x tgt [of prev] by (simp_all add: write_attempt_def)
  moreover have "last_attempt zero x (t0, e)"
    using calculation(3) c(2) by (cases x) (simp add: last_attemptI)
  ultimately show ?thesis using x c(1) by blast
qed

lemma driver_okD:
  assumes "driver_ok X"
  shows "pgx_Exec X c sql args w = (Inl e, w') \<Longrightarrow> driver_err (Some e)"
    and "pgx_Get X c sql args w = (Inl e, w') \<Longrightarrow> driver_err (Some e)"
    and "pgx_Select X c sql args w = (Inl e, w') \<Longrightarrow> driver_err (Some e)"
  using assms unfolding driver_ok_def by (metis fst_conv)+

lemma runs_driver_ok:
  assumes "driver_ok X"
  shows "IsUnexpected (snd (fst (exec_v2 X c sql args w))) \<Longrightarrow>
      \<not> needRetryOnFallbackMaster (snd (fst (exec_v2 X c sql args w)))"
    and "IsUnexpected (snd (fst (execOne X c sql args w))) \<Longrightarrow>
      \<not> needRetryOnFallbackMaster (snd (fst (execOne X c sql args w)))"
    and "IsUnexpected (snd (fst (execMany X c sql args w))) \<Longrightarrow>
      \<not> needRetryOnFallbackMaster (snd (fst (execMany X c sql args w)))"
  using driver_okD [OF assms] parse_not_read_only
  by (auto simp: exec_v2_def execOne_def execMany_def split: prod.splits sum.splits)

text \<open>
  C6. \<open>Exec\<close>, \<open>ExecOne\<close> and \<open>ExecMany\<close> on a \<open>*DB\<close> return what an attempt on the primary returned; the
  fallback primaries are never used and their counter never moves, although the code has a branch
  for them: it needs a retried error that is \<open>ErrReadOnly\<close>, and that error is never retried.
\<close>
theorem writes_only_on_primary:
  assumes "driver_ok X" and "retry_contract RE" and "retry_contract RO" and "retry_contract RM"
  shows "(Exec RE X DBQ sql args (d, w) = (Ret (n, e), (d', w')) \<longrightarrow>
      d' = d \<and> (\<exists>w0 x. exec_v2 X (PoolQ (master d)) sql args w0 = (x, w') \<and> last_attempt 0 x (n, e))) \<and>
    (ExecOne RO X DBQ sql args (d, w) = (Ret (r, e), (d', w')) \<longrightarrow>
      d' = d \<and> (\<exists>w0 x. execOne X (PoolQ (master d)) sql args w0 = (x, w') \<and> last_attempt None x (r, e))) \<and>
    (ExecMany RM X DBQ sql args (d, w) = (Ret (rs, e), (d', w')) \<longrightarrow>
      d' = d \<and> (\<exists>w0 x. execMany X (PoolQ (master d)) sql args w0 = (x, w') \<and> last_attempt [] x (rs, e)))"
proof (intro conjI impI)
  assume "Exec RE X DBQ sql args (d, w) = (Ret (n, e), (d', w'))"
  from write_last [OF assms(2) this[unfolded Exec_def]] runs_driver_ok(1) [OF assms(1)]
  show "d' = d" "\<exists>w0 x. exec_v2 X (PoolQ (master d)) sql args w0 = (x, w') \<and> last_attempt 0 x (n, e)"
    by blast+
next
  assume "ExecOne RO X DBQ sql args (d, w) = (Ret (r, e), (d', w'))"
  from write_last [OF assms(3) this[unfolded ExecOne_def]] runs_driver_ok(2) [OF assms(1)]
  show "d' = d" "\<exists>w0 x. execOne X (PoolQ (master d)) sql args w0 = (x, w') \<and> last_attempt None x (r, e)"
    by blast+
next
  assume "ExecMany RM X DBQ sql args (d, w) = (Ret (rs, e), (d', w'))"
  from write_last [OF assms(4) this[unfolded ExecMany_def]] runs_driver_ok(3) [OF assms(1)]
  show "d' = d" "\<exists>w0 x. execMany X (PoolQ (master d)) sql args w0 = (x, w') \<and> last_attempt [] x (rs, e)"
    by blast+
qed

lemma toy_driver_ok:
  assumes "\<And>w c e. f w c = Some e \<Longrightarrow> driver_err (Some e)"
  shows "driver_ok (toy_pgx f)"
  using assms by (auto simp: driver_ok_def toy_pgx_def split: option.splits)

lemma read_only_error_driver [simp]: "driver_err (Some read_only_error)"
  by (simp add: driver_err_def read_only_error_def storage_sentinels)

theorem writes_only_on_primary_witness:
  "\<exists>w0 x. exec_v2 (toy_pgx (\<lambda>w c. Some read_only_error)) (PoolQ (master toy_db)) [] [] w0 = (x, Suc 0) \<and>
    last_attempt 0 x (0, Some ErrReadOnly)"
proof -
  let ?X = "toy_pgx (\<lambda>w c. Some read_only_error)"
  have "Exec (retry_upto 3) ?X DBQ [] [] (toy_db, 0) = (Ret (0, Some ErrReadOnly), (toy_db, Suc 0))"
    by (simp add: Exec_def retry_def retry_upto.simps retry_body_def write_attempt_def write_target_def
        exec_v2_def toy_pgx_def attempt_result_def ErrReadOnly_def needRetryOnFallbackMaster_def)
  moreover have "driver_ok ?X" by (rule toy_driver_ok) auto
  ultimately show ?thesis
    using writes_only_on_primary [OF _ retry_upto_contract retry_upto_contract retry_upto_contract,
        THEN conjunct1, THEN mp, THEN conjunct2] by fast
qed

section \<open>Transactions\<close>

lemma tx_round_result:
  assumes "retry_contract R" and "tx_round R X fn (d, w) = (Ret (u, e), (d', w'))"
  shows "d' = d \<and> (\<exists>w0 e0. pgx_BeginTxFunc X (master d) fn w0 = (e0, w') \<and> stop_err e (parseDBError e0))"
proof -
  let ?f = "\<lambda>(d, w). case pgx_BeginTxFunc X (master d) fn w of (e, w') \<Rightarrow> (Ret ((), parseDBError e), (d, w'))"
  have eq: "(\<lambda>prev (d, w). case pgx_BeginTxFunc X (master d) fn w of
       (e, w') \<Rightarrow> (attempt_result () ((), parseDBError e), (d, w'))) = (\<lambda>prev s. attempt () (?f s))"
    by (auto simp: attempt_def fun_eq_iff split: prod.splits)
  have step: "fst s' = d" if "fst s = d" "?f s = (Ret x, s')" for s x s'
    using that by (auto split: prod.splits)
  have run: "retry R () (\<lambda>prev s. attempt () (?f s)) (d, w) = (Ret (u, e), (d', w'))"
    using assms(2) by (simp only: tx_round_def eq)
  have "\<exists>s0 x. fst s0 = d \<and> ?f s0 = (Ret x, (d', w')) \<and> last_attempt () x (u, e)"
    by (rule retry_attempt_last [where I = "\<lambda>s. fst s = d", OF assms(1) run _ step]) simp_all
  then obtain w0 x where w0: "(case pgx_BeginTxFunc X (master d) fn w0 of
      (e0, w1) \<Rightarrow> (Ret ((), parseDBError e0), (d, w1))) = (Ret x, (d', w'))" "last_attempt () x (u, e)"
    by auto
  obtain e0 w1 where "pgx_BeginTxFunc X (master d) fn w0 = (e0, w1)" by (metis prod.exhaust)
  with w0 show ?thesis by (auto simp: last_attempt_def)
qed

text \<open>The first \<open>n\<close> rounds aborted, one after the other.\<close>

fun aborted_rounds ::
    "(unit \<times> err \<times> 'w st) retrier \<Rightarrow> ('v, 'r, 'w) pgx \<Rightarrow> (qconn \<Rightarrow> 'w \<Rightarrow> err \<times> 'w) \<Rightarrow> nat \<Rightarrow> 'w st \<Rightarrow> 'w st \<Rightarrow> bool" where
  "aborted_rounds R X fn 0 s s' \<longleftrightarrow> s = s'"
| "aborted_rounds R X fn (Suc n) s s' \<longleftrightarrow> (case tx_round R X fn s of
     (Ret (u, e), s1) \<Rightarrow> tx_aborted e \<and> aborted_rounds R X fn n s1 s'
   | _ \<Rightarrow> False)"

lemma DoInTransaction_rounds:
  "aborted_rounds R X fn n s s' \<Longrightarrow> DoInTransaction R X fn s = DoInTransaction R X fn s'"
proof (induction n arbitrary: s)
  case 0
  then show ?case by simp
next
  case (Suc n)
  then show ?case
    by (subst DoInTransaction.simps) (auto split: prod.splits outcome.splits)
qed

definition tx_result ::
    "(unit \<times> err \<times> 'w st) retrier \<Rightarrow> ('v, 'r, 'w) pgx \<Rightarrow> (qconn \<Rightarrow> 'w \<Rightarrow> err \<times> 'w) \<Rightarrow> 'w st \<Rightarrow>
     err outcome \<times> 'w st \<Rightarrow> bool" where
  "tx_result R X fn s res \<longleftrightarrow> (\<exists>n s1 s2 o1. aborted_rounds R X fn n s s1 \<and> tx_round R X fn s1 = (o1, s2) \<and>
    (case o1 of Panic \<Rightarrow> res = (Panic, s2)
     | Ret (u, e) \<Rightarrow> \<not> tx_aborted e \<and> res = tx_finish X fn e s2))"

lemma tx_result_now:
  "tx_round R X fn s = (Panic, s2) \<Longrightarrow> tx_result R X fn s (Panic, s2)"
  "tx_round R X fn s = (Ret (u, e), s2) \<Longrightarrow> \<not> tx_aborted e \<Longrightarrow> tx_result R X fn s (tx_finish X fn e s2)"
  unfolding tx_result_def
  by (rule exI [of _ 0], rule exI [of _ s], rule exI [of _ s2], simp)+

lemma tx_result_later:
  assumes "tx_round R X fn s = (Ret (u, e), s')" and "tx_aborted e" and "tx_result R X fn s' res"
  shows "tx_result R X fn s res"
proof -
  obtain n s1 s2 o1 where "aborted_rounds R X fn n s' s1" "tx_round R X fn s1 = (o1, s2)"
    "case o1 of Panic \<Rightarrow> res = (Panic, s2) | Ret (u, e) \<Rightarrow> \<not> tx_aborted e \<and> res = tx_finish X fn e s2"
    using assms(3) unfolding tx_result_def by blast
  with assms(1,2) show ?thesis
    unfolding tx_result_def by (intro exI [of _ "Suc n"] exI [of _ s1] exI [of _ s2] exI [of _ o1]) simp
qed

lemma DoInTransaction_result:
  assumes "DoInTransaction R X fn s = Some res"
  shows "tx_result R X fn s res"
proof (rule DoInTransaction.raw_induct [where P = tx_result, OF _ assms])
  fix rec R X fn s res
  assume IH: "\<And>R X fn s res. rec R X fn s = Some res \<Longrightarrow> tx_result R X fn s res"
    and step: "(case tx_round R X fn s of
       (Ret (u, e), s') \<Rightarrow> if tx_aborted e then rec R X fn s' else Some (tx_finish X fn e s')
     | (Panic, s') \<Rightarrow> Some (Panic, s')) = Some res"
  obtain o1 s2 where r: "tx_round R X fn s = (o1, s2)" by (cases "tx_round R X fn s")
  show "tx_result R X fn s res"
  proof (cases o1)
    case Panic
    then show ?thesis using r step by (auto intro: tx_result_now(1))
  next
    case (Ret x)
    obtain u e where x: "x = (u, e)" by (cases x)
    show ?thesis
    proof (cases "tx_aborted e")
      case True
      then have "rec R X fn s2 = Some res" using r step Ret x by simp
      then show ?thesis using tx_result_later [OF _ True] r Ret x IH by blast
    next
      case False
      then have "res = tx_finish X fn e s2" using r step Ret x by simp
      then show ?thesis using tx_result_now(2) [OF _ False] r Ret x by blast
    qed
  qed
qed

lemma DoInTransaction_if_result:
  assumes "tx_result R X fn s res"
  shows "DoInTransaction R X fn s = Some res"
proof -
  obtain n s1 s2 o1 where n: "aborted_rounds R X fn n s s1" "tx_round R X fn s1 = (o1, s2)"
    "case o1 of Panic \<Rightarrow> res = (Panic, s2) | Ret (u, e) \<Rightarrow> \<not> tx_aborted e \<and> res = tx_finish X fn e s2"
    using assms unfolding tx_result_def by blast
  have "DoInTransaction R X fn s1 = Some res"
    using n(2,3) by (subst DoInTransaction.simps) (auto split: outcome.splits)
  then show ?thesis using DoInTransaction_rounds [OF n(1)] by simp
qed


definition serialization_error :: goerr where
  "serialization_error = Pg \<lparr>sqlstate = ''40001'', constraint_name = [], table_name = [], detail = [],
     pg_text = ''could not serialize access''\<rparr>"

lemma serialization_error_parsed [simp]: "parseDBError (Some serialization_error) = Some ErrSerializationFailure"
  by (simp add: parseDBError_def serialization_error_def errors_as_def is_pg_def)

text \<open>An attempt that is not unexpected ends the retries.\<close>

lemma tx_round_once:
  assumes R: "retry_contract R" and b: "pgx_BeginTxFunc X (master d) fn w = (e0, w1)"
    and p: "\<not> IsUnexpected (parseDBError e0)"
  shows "tx_round R X fn (d, w) = (Ret ((), parseDBError e0), (d, w1))"
proof -
  let ?op = "\<lambda>prev (d, w). case pgx_BeginTxFunc X (master d) fn w of
       (e, w') \<Rightarrow> (attempt_result () ((), parseDBError e), (d, w'))"
  have o: "retry_body ?op ((), None, (d, w)) = (permanent (parseDBError e0), ((), parseDBError e0, (d, w1)))"
    using b p by (cases "parseDBError e0") (simp_all add: retry_body_def attempt_result_cases)
  obtain res st where run: "R (retry_body ?op) ((), None, (d, w)) = (res, st)"
    by (cases "R (retry_body ?op) ((), None, (d, w))")
  have "st = ((), parseDBError e0, (d, w1)) \<and> res = Ret (parseDBError e0)"
    using retry_run_once [OF retry_contractD [OF R run]]
    by (cases "parseDBError e0"; cases res) (auto simp: o)
  then show ?thesis by (simp add: tx_round_def retry_def run)
qed

definition no_fallback_db :: db where
  "no_fallback_db = \<lparr>master = Some 1, fallbackMasters = None, db_lb = \<lparr>replicas = [], currentIndex = 0\<rparr>,
     acquiredLocks = [], closed = False\<rparr>"


text \<open>
  A transaction that fails over twice: when the primary and the first fallback primary refuse it
  as read-only and the second one commits it, \<open>DoInTransaction\<close> still returns an error (the collected
  one of the first fallback), although the transaction is committed.
\<close>
theorem fallback_commit_reported_as_error:
  assumes "retry_contract R"
    and "pgx_BeginTxFunc X (master d) fn w = (Some e0, w1)" and "parseDBError (Some e0) = Some ErrReadOnly"
    and "fallbackPrimary d = Ret (i, d1)"
    and "pgx_BeginTxFunc X (Some (fallbacks d ! i)) fn w1 = (Some e1, w2)"
    and "parseDBError (Some e1) = Some ErrReadOnly"
    and "fallbackPrimary d1 = Ret (j, d2)" and "2 \<le> length (fallbacks d)"
    and "pgx_BeginTxFunc X (Some (fallbacks d1 ! j)) fn w2 = (None, w3)"
  shows "\<exists>e. DoInTransaction R X fn (d, w) = Some (Ret (Some e), (d2, w3))"
proof -
  have ro: "\<not> IsUnexpected (Some ErrReadOnly)" "needRetryOnFallbackMaster (Some ErrReadOnly)"
    "\<not> tx_aborted (Some ErrReadOnly)"
    by (simp_all add: ErrReadOnly_def needRetryOnFallbackMaster_def tx_aborted_def storage_sentinels)
  have r: "tx_round R X fn (d, w) = (Ret ((), Some ErrReadOnly), (d, w1))"
    using tx_round_once [OF assms(1,2)] assms(3) ro by simp
  have fb: "has_fallbacks d"
    using assms(8) by (auto simp: has_fallbacks_def fallbacks_def split: option.splits)
  obtain m where m: "length (fallbacks d) = Suc (Suc m)"
    using assms(8) by (cases "length (fallbacks d)"; cases "length (fallbacks d) - 1") auto
  have stop: "tx_fallbacks X fn k None es s = (Ret es, s)" for k es s
    by (cases k; cases s) (simp_all add: needRetryOnFallbackMaster_def)
  have "tx_fallbacks X fn (Suc (Suc m)) (Some ErrReadOnly) [] (d, w1) =
      (Ret [Some ErrReadOnly, None], (d2, w3))"
    using ro assms(4-9) stop by simp
  then have "tx_finish X fn (Some ErrReadOnly) (d, w1) =
      (Ret (wrap_err ''failed to execute tx on fallbacks'' (join_errs [Some ErrReadOnly, None])), (d2, w3))"
    using fb ro m by (simp add: tx_finish_def)
  then show ?thesis
    using r ro by (subst DoInTransaction.simps) (simp add: join_errs_def List.map_filter_def)
qed

lemma two_mod: "2 mod Suc (Suc 0) = 0" "3 mod Suc (Suc 0) = Suc 0"
  by presburger+

theorem fallback_commit_reported_as_error_witness:
  "\<exists>e. DoInTransaction (retry_upto 0) (toy_pgx (\<lambda>w c. if w < 2 then Some read_only_error else None))
      (\<lambda>c w. (None, w)) (toy_db, 0) =
    Some (Ret (Some e), (toy_db\<lparr>fallbackMasters := Some \<lparr>replicas = [2, 3], currentIndex = 3\<rparr>\<rparr>, 3))"
  by (rule fallback_commit_reported_as_error [OF retry_upto_contract, where
        ?e0.0 = read_only_error and ?e1.0 = read_only_error and ?w1.0 = 1 and ?w2.0 = 2 and i = 0 and j = 1 and
        ?d1.0 = "toy_db\<lparr>fallbackMasters := Some \<lparr>replicas = [2, 3], currentIndex = 2\<rparr>\<rparr>"])
    (simp_all add: toy_pgx_def fallbackPrimary_def lb_next_def toy_db_def fallbacks_def two_mod)

section \<open>Ping\<close>

lemma run_checks_None:
  "run_checks fs s = (Ret es, s') \<Longrightarrow> length es = length fs"
  by (induction fs arbitrary: s es) (auto split: prod.splits outcome.splits)

end
