(* ===== verification/Storage_Connect.thy ===== *)
theory Storage_Connect
  imports Storage_V2 Decimal
begin

text \<open>
  Connecting, verifying, migrating and closing a \<open>*DB\<close>: \<open>connectors/storage/v2/storage.go\<close>
  (\<open>MustConnect\<close>, \<open>mustConnectPool\<close>, \<open>doAfterConnect\<close>, \<open>Close\<close>, \<open>maskSensitive\<close>),
  \<open>migration.go\<close>, and the advisory locks of \<open>lock.go\<close>.

  The pool library (\<open>pgxpool\<close>), the migrator (\<open>tern\<close>) and the URL parser are parameters. Calls that
  give something back to the driver (releasing a connection, closing a pool) are recorded in a list,
  so that leaks can be stated.
\<close>

section \<open>Masking\<close>

text \<open>The class \<open>[^\s\)]\<close> of Go's regular expressions, on bytes.\<close>

definition mask_stop :: "char \<Rightarrow> bool" where
  "mask_stop c \<longleftrightarrow> c \<in> {CHR 0x09, CHR 0x0A, CHR 0x0C, CHR 0x0D, CHR '' '', CHR '')''}"

definition has_prefix_ci :: "string \<Rightarrow> string \<Rightarrow> bool" where
  "has_prefix_ci s key = has_prefix (to_lower s) key"

text \<open>\<open>regexp.MustCompile(`(?i)(key)[^\s\)]+`).ReplaceAllString(out, `${1}***`)\<close>, for a lower-case ASCII key.\<close>

function mask_key :: "string \<Rightarrow> string \<Rightarrow> string" where
  "mask_key key s = (case s of
     [] \<Rightarrow> []
   | c # s' \<Rightarrow>
       (if has_prefix_ci s key \<and> drop (length key) s \<noteq> [] \<and> \<not> mask_stop (hd (drop (length key) s))
        then take (length key) s @ ''***'' @ mask_key key (dropWhile (\<lambda>c. \<not> mask_stop c) (drop (length key) s))
        else c # mask_key key s'))"
  by pat_completeness auto
termination
proof (relation "measure (\<lambda>(key, s). length s)", goal_cases)
  case 1
  then show ?case by simp
next
  case (2 key s c s')
  have "length (dropWhile (\<lambda>c. \<not> mask_stop c) (drop (length key) s)) < length (drop (length key) s)"
    using 2 by (cases "drop (length key) s") (auto simp: less_Suc_eq_le length_dropWhile_le)
  then show ?case by simp
next
  case (3 key s c s')
  then show ?case by simp
qed

declare mask_key.simps [simp del]

definition is_space :: "char \<Rightarrow> bool" where
  "is_space c \<longleftrightarrow> c \<in> {CHR 0x09, CHR 0x0A, CHR 0x0C, CHR 0x0D, CHR '' ''}"

text \<open>\<open>regexp.MustCompile(`(?i)(for user\s+")([^"]+)(")`).ReplaceAllString(out, `${1}***${3}`)\<close>: the length
  of the first group when the pattern matches here, and the text behind the match.\<close>

definition for_user_match :: "string \<Rightarrow> (nat \<times> string) option" where
  "for_user_match s =
     (let key = ''for user''; r = drop (length key) s; sp = takeWhile is_space r; q = drop (length sp) r in
      if has_prefix_ci s key \<and> sp \<noteq> [] \<and> q \<noteq> [] \<and> hd q = CHR 0x22
      then (let name = takeWhile (\<lambda>c. c \<noteq> CHR 0x22) (tl q); e = drop (length name) (tl q) in
            if name \<noteq> [] \<and> e \<noteq> [] then Some (length key + length sp + 1, tl e) else None)
      else None)"

lemma for_user_match_shorter: "for_user_match s = Some (n, t) \<Longrightarrow> length t < length s"
  by (auto simp: for_user_match_def Let_def split: if_splits)

function mask_user :: "string \<Rightarrow> string" where
  "mask_user s = (case s of
     [] \<Rightarrow> []
   | c # s' \<Rightarrow> (case for_user_match s of
       Some (n, t) \<Rightarrow> take n s @ ''***'' @ [CHR 0x22] @ mask_user t
     | None \<Rightarrow> c # mask_user s'))"
  by pat_completeness auto
termination
  by (relation "measure length") (auto dest: for_user_match_shorter)

declare mask_user.simps [simp del]

text \<open>What \<open>net/url\<close> is used for: parsing, with an error or not, and printing a changed URL again.\<close>

record 'u url_lib =
  url_Parse :: "string \<Rightarrow> goerr + 'u"
  url_Scheme :: "'u \<Rightarrow> string"
  url_Path :: "'u \<Rightarrow> string"
  url_set_User_nil :: "'u \<Rightarrow> 'u"
  url_set_Path :: "string \<Rightarrow> 'u \<Rightarrow> 'u"
  url_String :: "'u \<Rightarrow> string"

definition maskSensitive :: "'u url_lib \<Rightarrow> string \<Rightarrow> string" where
  "maskSensitive L input =
     (if input = [] then input
      else
        (let out0 = (case url_Parse L input of
               Inl perr \<Rightarrow> input
             | Inr u \<Rightarrow>
                 (if url_Scheme L u \<noteq> [] then
                    (let u1 = url_set_User_nil L u;
                         u2 = (if url_Path L u1 \<noteq> [] then url_set_Path L ''/***'' u1 else u1)
                     in url_String L u2)
                  else input));
             out1 = mask_key ''user='' out0;
             out2 = mask_key ''database='' out1;
             out3 = mask_key ''db='' out2;
             out4 = mask_key ''dbname='' out3;
             out5 = mask_key ''password='' out4
         in mask_user out5))"

definition maskError :: "'u url_lib \<Rightarrow> err \<Rightarrow> err" where
  "maskError L e = map_option (\<lambda>e. Sentinel (maskSensitive L (err_text e))) e"

section \<open>Pools\<close>

text \<open>Durations in nanoseconds.\<close>

definition second :: int where "second = 1000000000"

record pool_config =
  cfg_User :: string
  cfg_Password :: string
  StatementCacheCapacity :: int
  DescriptionCacheCapacity :: int
  ConnectTimeout :: int
  MaxConnIdleTime :: int
  HealthCheckPeriod :: int
  MaxConnLifetimeJitter :: int
  MaxConnLifetime :: int
  AfterConnect :: "string option"
  MinConns :: int

record 'w pool_lib =
  pool_ParseConfig :: "string \<Rightarrow> goerr + pool_config"
  pool_NewWithConfig :: "pool_config \<Rightarrow> 'w \<Rightarrow> (goerr + nat) \<times> 'w"

text \<open>The configuration \<open>mustConnectPool\<close> builds from the parsed one. \<open>AfterConnect\<close> is the closure that
  calls \<open>doAfterConnect\<close> with the timeout it captured.\<close>

definition configure_pool :: "string \<Rightarrow> string \<Rightarrow> string \<Rightarrow> string \<Rightarrow> bool \<Rightarrow> pool_config \<Rightarrow> pool_config" where
  "configure_pool timeout user pass url skipSettingsVerification c0 =
     (let c1 = (if user \<noteq> [] then c0\<lparr>cfg_User := user\<rparr> else c0);
          c2 = (if pass \<noteq> [] then c1\<lparr>cfg_Password := pass\<rparr> else c1);
          c3 = c2\<lparr>StatementCacheCapacity := 1024, DescriptionCacheCapacity := 1024,
                  ConnectTimeout := 30 * second\<rparr>;
          c4 = (if contains (to_lower url) ''pool_max_conn_idle_time'' then c3
                else c3\<lparr>MaxConnIdleTime := 60 * second\<rparr>);
          c5 = (if contains (to_lower url) ''pool_health_check_period'' then c4
                else c4\<lparr>HealthCheckPeriod := 30 * second\<rparr>);
          c6 = c5\<lparr>MaxConnLifetimeJitter := 10 * 60 * second, MaxConnLifetime := 24 * 60 * 60 * second\<rparr>;
          c7 = (if skipSettingsVerification then c6 else c6\<lparr>AfterConnect := Some timeout\<rparr>)
      in c7\<lparr>MinConns := 1\<rparr>)"

definition mustConnectPool ::
    "'w pool_lib \<Rightarrow> string \<Rightarrow> string \<Rightarrow> string \<Rightarrow> string \<Rightarrow> bool \<Rightarrow> 'w \<Rightarrow> nat outcome \<times> 'w" where
  "mustConnectPool P timeout user pass url skip w = (case pool_ParseConfig P url of
     Inl e \<Rightarrow> (Panic, w)
   | Inr c0 \<Rightarrow> (case pool_NewWithConfig P (configure_pool timeout user pass url skip c0) w of
       (Inl e, w') \<Rightarrow> (Panic, w')
     | (Inr p, w') \<Rightarrow> (Ret p, w')))"

text \<open>The two loops of \<open>MustConnectWithCfg\<close>.\<close>

fun connect_all :: "(string \<Rightarrow> 'w \<Rightarrow> nat outcome \<times> 'w) \<Rightarrow> string list \<Rightarrow> 'w \<Rightarrow> nat list outcome \<times> 'w" where
  "connect_all connect [] w = (Ret [], w)"
| "connect_all connect (url # urls) w = (case connect url w of
     (Panic, w') \<Rightarrow> (Panic, w')
   | (Ret p, w') \<Rightarrow> (case connect_all connect urls w' of (r, w'') \<Rightarrow> (omap (\<lambda>ps. p # ps) r, w'')))"

section \<open>Session settings\<close>

definition quoted :: "string \<Rightarrow> string" where
  "quoted s = CHR 0x27 # s @ [CHR 0x27]"

definition customConnectionParameters :: "string \<Rightarrow> (string \<times> string) list" where
  "customConnectionParameters timeout =
     (let actualTimeout = (if timeout \<noteq> [] then timeout else ''30s'') in
      [(''statement_timeout'', actualTimeout),
       (''idle_in_transaction_session_timeout'', actualTimeout),
       (''lock_timeout'', actualTimeout),
       (''enable_partitionwise_join'', ''on''),
       (''enable_partitionwise_aggregate'', ''on'')])"

text \<open>A connection: what \<open>Exec\<close> returns, and the rows of a query, as the scanner reads them.\<close>

record 'w conn_lib =
  conn_Exec :: "string \<Rightarrow> 'w \<Rightarrow> err \<times> 'w"
  conn_Query :: "string \<Rightarrow> 'w \<Rightarrow> (goerr + (goerr + (string \<times> string) list)) \<times> 'w"

fun set_parameters :: "'w conn_lib \<Rightarrow> (string \<times> string) list \<Rightarrow> 'w \<Rightarrow> err \<times> 'w" where
  "set_parameters C [] w = (None, w)"
| "set_parameters C ((name, setting) # ps) w =
     (case conn_Exec C (''SET '' @ name @ '' = '' @ quoted setting) w of
        (Some e, w') \<Rightarrow> (Some e, w')
      | (None, w') \<Rightarrow> set_parameters C ps w')"

fun join_with :: "string \<Rightarrow> string list \<Rightarrow> string" where
  "join_with sep [] = []"
| "join_with sep [s] = s"
| "join_with sep (s # t # ss) = s @ sep @ join_with sep (t # ss)"

text \<open>\<open>reflect.DeepEqual\<close> of two maps given by their entries (later entries override earlier ones in
  \<open>rows\<close>).\<close>

definition same_map :: "(string \<times> string) list \<Rightarrow> (string \<times> string) list \<Rightarrow> bool" where
  "same_map rows expected \<longleftrightarrow>
     (\<forall>k \<in> set (map fst rows @ map fst expected). map_of (rev rows) k = map_of expected k)"

text \<open>\<open>ord\<close> is the order in which Go's map iteration happens to visit the parameters.\<close>

definition doAfterConnect ::
    "((string \<times> string) list \<Rightarrow> (string \<times> string) list) \<Rightarrow> 'w conn_lib \<Rightarrow> string \<Rightarrow> 'w \<Rightarrow> err \<times> 'w" where
  "doAfterConnect ord C timeout w =
     (let params = customConnectionParameters timeout; visited = ord params in
      case set_parameters C visited w of
        (Some e, w') \<Rightarrow> (Some e, w')
      | (None, w') \<Rightarrow>
          (case conn_Query C (''SELECT name, setting FROM pg_settings WHERE name IN ('' @
               join_with '','' (map (quoted \<circ> fst) visited) @ '')'') w' of
             (Inl e, w'') \<Rightarrow> (Some (Wrapped ''db validation query failed'' e), w'')
           | (Inr (Inl e), w'') \<Rightarrow> (Some (Sentinel ''scanning validation select rows failed''), w'')
           | (Inr (Inr res), w'') \<Rightarrow>
               (if same_map (map (\<lambda>(n, s). (n, replace_all s ''0000'' ''0s'')) res) params then (None, w'')
                else (Some (Sentinel ''db validation failed''), w''))))"

section \<open>Schema definition\<close>

datatype 'fs ddl = StringDDL string | FilesystemDDL 'fs string

text \<open>\<open>tern/migrate\<close> and acquiring a connection for it.\<close>

record ('fs, 'm, 'w) migrate_lib =
  mig_Acquire :: "nat \<Rightarrow> 'w \<Rightarrow> (goerr + nat) \<times> 'w"
  mig_Release :: "nat \<Rightarrow> 'w \<Rightarrow> 'w"
  mig_conn :: "nat \<Rightarrow> 'w conn_lib"
  mig_New :: "nat \<Rightarrow> string \<Rightarrow> 'w \<Rightarrow> (goerr + 'm) \<times> 'w"
  mig_Load :: "'m \<Rightarrow> 'fs \<Rightarrow> goerr + 'm"
  mig_Version :: "'m \<Rightarrow> 'w \<Rightarrow> 'w"
  mig_Migrate :: "'m \<Rightarrow> 'w \<Rightarrow> err \<times> 'w"

fun run_statements :: "'u url_lib \<Rightarrow> (string \<Rightarrow> 'w \<Rightarrow> err \<times> 'w) \<Rightarrow> string list \<Rightarrow> 'w \<Rightarrow> err \<times> 'w" where
  "run_statements L exec [] w = (None, w)"
| "run_statements L exec (statement # ss) w = (case exec statement w of
     (e, w') \<Rightarrow>
       (if \<not> ignorableDDLError e
        then (wrap_err (''failed to execute DDL statement: '' @ statement) (maskError L e), w')
        else run_statements L exec ss w'))"

definition stringDDL_run :: "'u url_lib \<Rightarrow> (string \<Rightarrow> 'w \<Rightarrow> err \<times> 'w) \<Rightarrow> string \<Rightarrow> 'w \<Rightarrow> err \<times> 'w" where
  "stringDDL_run L exec data w = run_statements L exec (split_str data ''----'') w"

definition filesystemDDL_run ::
    "((string \<times> string) list \<Rightarrow> (string \<times> string) list) \<Rightarrow> ('fs, 'm, 'w) migrate_lib \<Rightarrow> 'fs \<Rightarrow> string \<Rightarrow> nat \<Rightarrow>
     'w \<Rightarrow> err \<times> 'w" where
  "filesystemDDL_run ord M fs schemeTable pool w =
     (let schemaTable = (if schemeTable = [] then ''wintr_storagev2_schema_migrations'' else schemeTable) in
      case mig_Acquire M pool w of
        (Inl e, w1) \<Rightarrow> (Some (Wrapped ''cannot acquire connection for migration'' e), w1)
      | (Inr c, w1) \<Rightarrow>
          (case mig_New M c schemaTable w1 of
             (Inl e, w2) \<Rightarrow> (Some (Wrapped ''cannot create migrator'' e), mig_Release M c w2)
           | (Inr m, w2) \<Rightarrow>
               (case mig_Load M m fs of
                  Inl e \<Rightarrow> (Some (Wrapped ''cannot load migrations from fs'' e), mig_Release M c w2)
                | Inr m' \<Rightarrow>
                    (case doAfterConnect ord (mig_conn M c) ''0'' (mig_Version M m' w2) of
                       (Some e, w3) \<Rightarrow>
                         (Some (Wrapped ''cannot set session parameters before migration'' e), mig_Release M c w3)
                     | (None, w3) \<Rightarrow>
                         (case mig_Migrate M m' w3 of
                            (e, w4) \<Rightarrow> (e, mig_Release M c (snd (doAfterConnect ord (mig_conn M c) [] w4))))))))"

definition ddl_run ::
    "'u url_lib \<Rightarrow> ((string \<times> string) list \<Rightarrow> (string \<times> string) list) \<Rightarrow> (nat \<Rightarrow> string \<Rightarrow> 'w \<Rightarrow> err \<times> 'w) \<Rightarrow>
     ('fs, 'm, 'w) migrate_lib \<Rightarrow> 'fs ddl \<Rightarrow> nat \<Rightarrow> 'w \<Rightarrow> err \<times> 'w" where
  "ddl_run L ord exec M d pool w = (case d of
     StringDDL data \<Rightarrow> stringDDL_run L (exec pool) data w
   | FilesystemDDL fs table \<Rightarrow> filesystemDDL_run ord M fs table pool w)"

definition mustRunDDL :: "(nat \<Rightarrow> 'w \<Rightarrow> err \<times> 'w) \<Rightarrow> nat \<Rightarrow> 'w \<Rightarrow> unit outcome \<times> 'w" where
  "mustRunDDL run pool w = (case run pool w of
     (e, w') \<Rightarrow> (if \<not> ignorableDDLError e then Panic else Ret (), w'))"

section \<open>MustConnect\<close>

record cfg =
  Credentials_User :: string
  Credentials_Password :: string
  Timeout :: string
  PrimaryURL :: string
  PrimaryFallbackURLs :: "string list"
  ReplicaURLs :: "string list"
  RunDDL :: bool
  SkipSettingsVerification :: bool
  IgnoreGlobal :: bool

text \<open>\<open>ddl\<close> is the run of a definition on a pool, or \<open>None\<close> for a nil interface.\<close>

definition MustConnectWithCfg ::
    "'w pool_lib \<Rightarrow> cfg \<Rightarrow> (nat \<Rightarrow> 'w \<Rightarrow> err \<times> 'w) option \<Rightarrow> 'w \<Rightarrow> db outcome \<times> 'w" where
  "MustConnectWithCfg P c ddl w =
     (let connect = (\<lambda>url. mustConnectPool P (Timeout c) (Credentials_User c) (Credentials_Password c) url
                            (SkipSettingsVerification c)) in
      case (if PrimaryURL c \<noteq> [] then (case connect (PrimaryURL c) w of (r, w') \<Rightarrow> (omap Some r, w'))
            else (Ret None, w)) of
        (Panic, w1) \<Rightarrow> (Panic, w1)
      | (Ret m, w1) \<Rightarrow>
          (case connect_all connect (ReplicaURLs c) w1 of
             (Panic, w2) \<Rightarrow> (Panic, w2)
           | (Ret rs, w2) \<Rightarrow>
               (case connect_all connect (PrimaryFallbackURLs c) w2 of
                  (Panic, w3) \<Rightarrow> (Panic, w3)
                | (Ret fs, w3) \<Rightarrow>
                    (case (case m of
                             Some p \<Rightarrow> (case ddl of
                                 Some run \<Rightarrow> if RunDDL c then mustRunDDL run p w3 else (Ret (), w3)
                               | None \<Rightarrow> (Ret (), w3))
                           | None \<Rightarrow> (Ret (), w3)) of
                       (Panic, w4) \<Rightarrow> (Panic, w4)
                     | (Ret _, w4) \<Rightarrow>
                         (Ret \<lparr>master = m, fallbackMasters = Some \<lparr>replicas = fs, currentIndex = 0\<rparr>,
                               db_lb = \<lparr>replicas = rs, currentIndex = 0\<rparr>, acquiredLocks = [], closed = False\<rparr>,
                          w4)))))"

text \<open>\<open>MustConnect\<close>: the global database is shared (and its schema extended) unless the configuration
  says otherwise; \<open>mustRunDDL\<close> with a nil \<open>DDL\<close> panics.\<close>

definition MustConnect ::
    "'w pool_lib \<Rightarrow> db option \<Rightarrow> cfg \<Rightarrow> (nat \<Rightarrow> 'w \<Rightarrow> err \<times> 'w) option \<Rightarrow> 'w \<Rightarrow> db outcome \<times> 'w" where
  "MustConnect P globalDB c ddl w =
     (case globalDB of
        Some g \<Rightarrow>
          (if IgnoreGlobal c then MustConnectWithCfg P c ddl w
           else (case master g of
               None \<Rightarrow> (Ret g, w)
             | Some p \<Rightarrow> (case ddl of
                 None \<Rightarrow> (Panic, w)
               | Some run \<Rightarrow> (case mustRunDDL run p w of (r, w') \<Rightarrow> (omap (\<lambda>_. g) r, w')))))
      | None \<Rightarrow> MustConnectWithCfg P c ddl w)"

text \<open>The package's \<open>init\<close>: the global database, when it is configured.\<close>

definition storage_init :: "'w pool_lib \<Rightarrow> cfg \<Rightarrow> 'w \<Rightarrow> db option outcome \<times> 'w" where
  "storage_init P c w =
     (if PrimaryURL c \<noteq> [] \<or> 0 < length (ReplicaURLs c)
      then (case MustConnectWithCfg P c None w of (r, w') \<Rightarrow> (omap Some r, w'))
      else (Ret None, w))"

section \<open>Secrets do not show\<close>

lemma has_prefix_append_long: "length p \<le> length s \<Longrightarrow> has_prefix (s @ t) p = has_prefix s p"
  by (induction s p rule: has_prefix.induct) auto

lemma has_prefix_ci_append: "length key \<le> length s \<Longrightarrow> has_prefix_ci (s @ t) key = has_prefix_ci s key"
  by (simp add: has_prefix_ci_def to_lower_def has_prefix_append_long)

lemma mask_key_at_key:
  assumes "has_prefix_ci key key" and "\<forall>c \<in> set x. \<not> mask_stop c" and "x \<noteq> []" and "rest = [] \<or> mask_stop (hd rest)" and "key \<noteq> []"
  shows "mask_key key (key @ x @ rest) = key @ ''***'' @ mask_key key rest"
proof -
  have "has_prefix_ci (key @ x @ rest) key" using assms(1) has_prefix_ci_append [of key key "x @ rest"] by simp
  moreover have "\<not> mask_stop (hd (x @ rest))" using assms(2,3) by (cases x) auto
  moreover have "dropWhile (\<lambda>c. \<not> mask_stop c) (x @ rest) = rest"
    using assms(2,4) by (cases rest) (auto simp: dropWhile_append2)
  ultimately show ?thesis
    using assms(3,5) by (subst mask_key.simps) (cases key, auto)
qed

lemma suffix_key:
  assumes "pre @ key = u @ d" and "d \<noteq> []" and "mask_stop (hd d)" and "\<forall>c \<in> set key. \<not> mask_stop c"
  shows "\<exists>pre'. d = pre' @ key \<and> length pre' \<le> length pre"
proof -
  obtain us where "pre = u @ us \<and> us @ key = d \<or> pre @ us = u \<and> key = us @ d"
    using assms(1) unfolding append_eq_append_conv2 by blast
  then show ?thesis
  proof
    assume "pre @ us = u \<and> key = us @ d"
    then have "hd d \<in> set key" using assms(2) by simp
    then show ?thesis using assms(3,4) by blast
  qed (intro exI [of _ us], simp)
qed

definition secret_of :: "string \<Rightarrow> bool" where
  "secret_of x \<longleftrightarrow> x \<noteq> [] \<and> (\<forall>c \<in> set x. \<not> mask_stop c)"

lemma dropWhile_secret:
  assumes "secret_of x" and "rest = [] \<or> mask_stop (hd rest)" and "\<forall>c \<in> set m. \<not> mask_stop c"
  shows "dropWhile (\<lambda>c. \<not> mask_stop c) (m @ x @ rest) = rest"
proof -
  have "\<forall>c \<in> set (m @ x). \<not> mask_stop c" using assms by (auto simp: secret_of_def)
  then have "dropWhile (\<lambda>c. \<not> mask_stop c) ((m @ x) @ rest) = dropWhile (\<lambda>c. \<not> mask_stop c) rest"
    by (intro dropWhile_append2) blast
  moreover have "dropWhile (\<lambda>c. \<not> mask_stop c) rest = rest" using assms(2) by (cases rest) auto
  ultimately show ?thesis by simp
qed

lemma mask_key_secret:
  assumes key: "has_prefix_ci key key" "key \<noteq> []" "\<forall>c \<in> set key. \<not> mask_stop c"
    and x: "secret_of x" and y: "secret_of y" and rest: "rest = [] \<or> mask_stop (hd rest)"
  shows "mask_key key (pre @ key @ x @ rest) = mask_key key (pre @ key @ y @ rest)"
proof (induction pre rule: length_induct)
  case (1 pre)
  show ?case
  proof (cases pre)
    case Nil
    show ?thesis
      using mask_key_at_key [OF key(1) _ _ rest key(2), of x] mask_key_at_key [OF key(1) _ _ rest key(2), of y] x y Nil
      by (simp add: secret_of_def)
  next
    case (Cons c pre')
    let ?n = "length key"
    define m where "m = drop ?n (pre @ key)"
    have drp: "drop ?n (pre @ key @ z @ rest) = m @ z @ rest" for z
      using drop_append [of ?n "pre @ key" "z @ rest"] by (simp add: m_def)
    have tk: "take ?n (pre @ key @ z @ rest) = take ?n (pre @ key)" for z
      using take_append [of ?n "pre @ key" "z @ rest"] by simp
    have m: "m \<noteq> []" using Cons by (simp add: m_def)
    have pf: "has_prefix_ci (pre @ key @ z @ rest) key = has_prefix_ci (pre @ key) key" for z
      using has_prefix_ci_append [of key "pre @ key" "z @ rest"] by simp
    have step: "mask_key key (pre @ key @ z @ rest) =
        (if has_prefix_ci (pre @ key) key \<and> \<not> mask_stop (hd m)
         then take ?n (pre @ key) @ ''***'' @ mask_key key (dropWhile (\<lambda>c. \<not> mask_stop c) (m @ z @ rest))
         else c # mask_key key (pre' @ key @ z @ rest))" for z
      using m pf [of z] drp [of z] tk [of z] by (subst mask_key.simps) (simp add: Cons)
    have IH: "mask_key key (p @ key @ x @ rest) = mask_key key (p @ key @ y @ rest)" if "length p < length pre" for p
      using 1 that by blast
    show ?thesis
    proof (cases "\<forall>c \<in> set m. \<not> mask_stop c")
      case True
      then show ?thesis
        unfolding step [of x] step [of y] dropWhile_secret [OF x rest True] dropWhile_secret [OF y rest True]
        using IH [of pre'] Cons by simp
    next
      case False
      let ?d = "dropWhile (\<lambda>c. \<not> mask_stop c) m"
      have d: "?d \<noteq> []" "mask_stop (hd ?d)"
        using False hd_dropWhile [of "\<lambda>c. \<not> mask_stop c" m] by (auto simp: dropWhile_eq_Nil_conv)
      have "pre @ key = (take ?n (pre @ key) @ takeWhile (\<lambda>c. \<not> mask_stop c) m) @ ?d"
        unfolding append_assoc takeWhile_dropWhile_id unfolding m_def by (rule append_take_drop_id [symmetric])
      then obtain p where p: "?d = p @ key" "length p \<le> length pre"
        using suffix_key d key(3) by blast
      have "length ?d \<le> length m" by (rule length_dropWhile_le)
      moreover have "length m = length pre" by (simp add: m_def)
      ultimately have "length p + length key \<le> length pre" by (simp add: p(1))
      moreover have "0 < length key" using key(2) by simp
      ultimately have "length p < length pre" by linarith
      moreover have "dropWhile (\<lambda>c. \<not> mask_stop c) (m @ z @ rest) = p @ key @ z @ rest" for z
      proof -
        obtain c0 where "c0 \<in> set m" "mask_stop c0" using False by blast
        then have "dropWhile (\<lambda>c. \<not> mask_stop c) (m @ z @ rest) = ?d @ z @ rest"
          by (intro dropWhile_append1) auto
        then show ?thesis by (simp add: p(1))
      qed
      ultimately show ?thesis
        unfolding step [of x] step [of y] using IH [of p] IH [of pre'] Cons by simp
    qed
  qed
qed

text \<open>
  Masking hides the value of a key (\<open>password=\<close>, \<open>user=\<close>, ...) in connection errors and logs: two
  texts that differ only in that value, anywhere in the text, are masked to the same text. The value
  reaches to the next blank or closing parenthesis.
\<close>
theorem mask_key_hides_value:
  assumes "key \<in> {''user='', ''database='', ''db='', ''dbname='', ''password=''}"
    and "secret_of x" and "secret_of y" and "rest = [] \<or> mask_stop (hd rest)"
  shows "mask_key key (pre @ key @ x @ rest) = mask_key key (pre @ key @ y @ rest)"
proof -
  have "\<forall>key \<in> set [''user='', ''database='', ''db='', ''dbname='', ''password='']. has_prefix_ci key key \<and>
      key \<noteq> [] \<and> (\<forall>c \<in> set key. \<not> mask_stop c)"
    by code_simp
  then have "\<forall>key \<in> {''user='', ''database='', ''db='', ''dbname='', ''password=''}. has_prefix_ci key key \<and>
      key \<noteq> [] \<and> (\<forall>c \<in> set key. \<not> mask_stop c)"
    by (simp only: list.set)
  from bspec [OF this assms(1)] have "has_prefix_ci key key" "key \<noteq> []" "\<forall>c \<in> set key. \<not> mask_stop c"
    by simp_all
  then show ?thesis using assms(2-) by (rule mask_key_secret)
qed

theorem mask_key_hides_value_witness:
  "mask_key ''password='' ''host=db password=hunter2 x'' = mask_key ''password='' ''host=db password=swordfish x''"
  using mask_key_hides_value [of "''password=''" "''hunter2''" "''swordfish''" "'' x''" "''host=db ''"]
  by (simp add: secret_of_def mask_stop_def)

section \<open>Timeouts that cannot be verified\<close>

text \<open>PostgreSQL reports the time settings in milliseconds: the server of this section accepts every
  \<open>SET\<close> and reports \<open>n * 1000\<close> for a statement timeout of \<open>n\<close> seconds.\<close>

lemma set_parameters_ok:
  "\<forall>sql w. fst (conn_Exec C sql w) = None \<Longrightarrow> \<exists>w'. set_parameters C ps w = (None, w')"
proof (induction ps arbitrary: w)
  case Nil
  then show ?case by simp
next
  case (Cons p ps)
  obtain n v where p: "p = (n, v)" by (cases p)
  obtain e w1 where e: "conn_Exec C (''SET '' @ n @ '' = '' @ quoted v) w = (e, w1)" by fastforce
  then have "e = None" using Cons.prems by (metis fst_conv)
  with e p Cons show ?case by simp
qed

lemma replace_all_nonempty: "old \<noteq> [] \<Longrightarrow> new \<noteq> [] \<Longrightarrow> s \<noteq> [] \<Longrightarrow> replace_all s old new \<noteq> []"
  by (subst replace_all.simps) (simp split: list.splits)

lemma last_replace_000:
  "x \<noteq> [] \<Longrightarrow> last x \<noteq> CHR ''0'' \<Longrightarrow> last (replace_all (x @ ''000'') ''0000'' ''0s'') = CHR ''0''"
proof (induction x rule: length_induct)
  case (1 x)
  obtain c x' where x: "x = c # x'" using 1(2) by (cases x) auto
  have ne: "replace_all (y @ ''000'') ''0000'' ''0s'' \<noteq> []" for y by (rule replace_all_nonempty) simp_all
  have nil: "replace_all ''000'' ''0000'' ''0s'' = ''000''" by (simp add: replace_all.simps)
  show ?case
  proof (cases "has_prefix (x @ ''000'') ''0000''")
    case True
    then obtain t where t: "x @ ''000'' = ''0000'' @ t" unfolding has_prefix_iff by blast
    then obtain us where "x = ''0000'' @ us \<or> x @ us = ''0000''"
      unfolding append_eq_append_conv2 by blast
    then have "x = ''0000'' @ us"
    proof
      assume "x @ us = ''0000''"
      then have "set x \<subseteq> {CHR ''0''}" by (metis Un_upper1 set_append set_simps insert_absorb2)
      then show ?thesis using 1(2,3) last_in_set by blast
    qed
    moreover from this have us: "us \<noteq> []" using 1(3) by auto
    ultimately have "last (replace_all (us @ ''000'') ''0000'' ''0s'') = CHR ''0''" using 1 by simp
    moreover have "replace_all (x @ ''000'') ''0000'' ''0s'' = ''0s'' @ replace_all (us @ ''000'') ''0000'' ''0s''"
      using replace_all_prefix [of "''0000''" "us @ ''000''" "''0s''"] \<open>x = ''0000'' @ us\<close> by simp
    ultimately show ?thesis using ne by simp
  next
    case False
    then have r: "replace_all (x @ ''000'') ''0000'' ''0s'' = c # replace_all (x' @ ''000'') ''0000'' ''0s''"
      using x by (subst replace_all.simps) (simp only: append_Cons list.case not_Cons_self2 if_False list.distinct simp_thms)
    show ?thesis
    proof (cases "x' = []")
      case True
      then show ?thesis using r nil by simp
    next
      case x': False
      then have "last (replace_all (x' @ ''000'') ''0000'' ''0s'') = CHR ''0''" using 1 x by simp
      then show ?thesis using r ne by simp
    qed
  qed
qed

text \<open>
  A connection whose timeout is \<open>n\<close> seconds, \<open>n\<close> not a multiple of ten, is always refused: the
  server stores the setting and reports it in milliseconds, but the comparison only recognises
  milliseconds that end in four zeros.
\<close>
theorem timeout_not_multiple_of_ten_refused:
  assumes "n mod 10 \<noteq> 0" and "\<forall>sql w. fst (conn_Exec C sql w) = None"
    and "\<forall>sql w. \<exists>rows. fst (conn_Query C sql w) = Inr (Inr rows) \<and>
      map_of (rev rows) ''statement_timeout'' = Some (dec_string (n * 1000))"
  shows "fst (doAfterConnect ord C (dec_string n @ ''s'') w) \<noteq> None"
proof -
  let ?f = "\<lambda>s. replace_all s ''0000'' ''0s''"
  obtain w1 where p: "set_parameters C (ord (customConnectionParameters (dec_string n @ ''s''))) w = (None, w1)"
    using set_parameters_ok [OF assms(2)] by blast
  have "dec_string (n * 1000) = dec_string n @ ''000''"
  proof -
    have "10 ^ 3 \<le> n * 1000" using assms(1) by (cases n) simp_all
    then have "dec_string (n * 1000) = dec_string (n * 1000 div 10 ^ 3) @ pad 3 (n * 1000)" by (rule dec_string_split)
    also have "pad 3 (n * 1000) = pad 3 (n * 1000 mod 10 ^ 3)" by (rule pad_mod [symmetric])
    also have "\<dots> = replicate 3 CHR ''0''" by (simp add: pad_zeros)
    finally show ?thesis by (simp add: numeral_3_eq_3)
  qed
  moreover have "last (dec_string n) \<noteq> CHR ''0''"
    using assms(1) by (subst dec_string.simps) auto
  ultimately have "last (?f (dec_string (n * 1000))) = CHR ''0''"
    using last_replace_000 [of "dec_string n"] by simp
  then have ne: "?f (dec_string (n * 1000)) \<noteq> dec_string n @ ''s''"
  proof -
    assume l: "last (?f (dec_string (n * 1000))) = CHR ''0''"
    have "last (dec_string n @ ''s'') = CHR ''s''" by simp
    then show ?thesis using l by force
  qed
  have bad: "\<not> same_map (map (\<lambda>(n, s). (n, ?f s)) rows) (customConnectionParameters (dec_string n @ ''s''))"
    if "map_of (rev rows) ''statement_timeout'' = Some (dec_string (n * 1000))" for rows
  proof -
    have "map_of (rev (map (\<lambda>(n, s). (n, ?f s)) rows)) ''statement_timeout'' = Some (?f (dec_string (n * 1000)))"
      using that by (simp add: rev_map map_of_map)
    moreover have "map_of (customConnectionParameters (dec_string n @ ''s'')) ''statement_timeout'' = Some (dec_string n @ ''s'')"
      by (simp add: customConnectionParameters_def Let_def)
    moreover have "''statement_timeout'' \<in> fst ` set (customConnectionParameters (dec_string n @ ''s''))"
      by (simp add: customConnectionParameters_def Let_def)
    ultimately show ?thesis using ne unfolding same_map_def by force
  qed
  define sql where "sql = ''SELECT name, setting FROM pg_settings WHERE name IN ('' @
     join_with '','' (map (quoted \<circ> fst) (ord (customConnectionParameters (dec_string n @ ''s'')))) @ '')''"
  obtain rows where rows: "fst (conn_Query C sql w1) = Inr (Inr rows)"
    "map_of (rev rows) ''statement_timeout'' = Some (dec_string (n * 1000))"
    using assms(3) by blast
  obtain w2 where q: "conn_Query C sql w1 = (Inr (Inr rows), w2)" using rows(1) by (cases "conn_Query C sql w1") simp
  show ?thesis
    using bad [OF rows(2)] q unfolding doAfterConnect_def Let_def p by (simp add: sql_def)
qed

definition honest_server :: "unit conn_lib" where
  "honest_server = \<lparr>conn_Exec = (\<lambda>sql w. (None, ())),
     conn_Query = (\<lambda>sql w. (Inr (Inr [(''statement_timeout'', ''5000'')]), ()))\<rparr>"

theorem timeout_not_multiple_of_ten_refused_witness:
  "fst (doAfterConnect id honest_server ''5s'' ()) \<noteq> None"
proof -
  have d: "dec_string 5 = ''5''" "dec_string (5 * 1000) = ''5000''"
  proof -
    have "digit 5 = CHR ''5''" by code_simp
    then show "dec_string 5 = ''5''" "dec_string (5 * 1000) = ''5000''"
      by (simp_all add: dec_string.simps digit_0)
  qed
  show ?thesis
    using timeout_not_multiple_of_ten_refused [of 5 honest_server id "()"]
    unfolding d by (simp add: honest_server_def)
qed

end
