(* ===== verification/Storage_Lock.thy ===== *)
theory Storage_Lock
  imports Storage_Connect
begin

text \<open>
  Advisory locks (\<open>connectors/storage/v2/lock.go\<close>) and closing a database (\<open>Close\<close>, \<open>registerLock\<close> in
  \<open>storage.go\<close>).

  The state of the process is the database, the world of the driver, the connections that are checked
  out of the pools (\<open>held\<close>: acquired and not yet released) and the pools that are open. The last two are what
  \<open>pgxpool\<close> keeps; they let leaks be stated.
\<close>

section \<open>State\<close>

record 'w sys =
  s_db :: db
  s_world :: 'w
  s_held :: "nat list"
  s_open :: "nat list"

record advisory_lock =
  lock_conn :: "nat option"
  lock_id :: "64 word"

text \<open>The driver calls of this file. \<open>lib_QueryRow\<close> is \<open>QueryRow(...).Scan(&isLockAquired)\<close>.\<close>

record 'w lock_lib =
  lib_Acquire :: "nat option \<Rightarrow> 'w \<Rightarrow> (goerr + nat) \<times> 'w"
  lib_QueryRow :: "nat \<Rightarrow> string \<Rightarrow> 64 word \<Rightarrow> 'w \<Rightarrow> (goerr + bool) \<times> 'w"
  lib_Exec :: "nat \<Rightarrow> string \<Rightarrow> 64 word \<Rightarrow> 'w \<Rightarrow> err \<times> 'w"
  lib_IsClosed :: "nat \<Rightarrow> 'w \<Rightarrow> bool"
  lib_Ping :: "nat \<Rightarrow> 'w \<Rightarrow> err \<times> 'w"
  lib_lock_holder :: "nat option \<Rightarrow> string \<Rightarrow> 32 word \<Rightarrow> 'w \<Rightarrow> err \<times> 'w"

section \<open>Operations\<close>

definition acquire :: "'w lock_lib \<Rightarrow> 'w sys \<Rightarrow> (goerr + nat) \<times> 'w sys" where
  "acquire L s = (case lib_Acquire L (master (s_db s)) (s_world s) of
     (Inl e, w) \<Rightarrow> (Inl e, s\<lparr>s_world := w\<rparr>)
   | (Inr c, w) \<Rightarrow> (Inr c, s\<lparr>s_world := w, s_held := c # s_held s\<rparr>))"

text \<open>\<open>(*pgxpool.Conn).Release\<close>: releasing twice does nothing.\<close>

definition release :: "nat \<Rightarrow> 'w sys \<Rightarrow> 'w sys" where
  "release c s = s\<lparr>s_held := remove1 c (s_held s)\<rparr>"

definition registerLock :: "nat \<Rightarrow> advisory_lock \<Rightarrow> 'w sys \<Rightarrow> 'w sys" where
  "registerLock c l s =
     s\<lparr>s_db := (s_db s)\<lparr>acquiredLocks :=
        (lock_id l, c) # filter (\<lambda>x. fst x \<noteq> lock_id l) (acquiredLocks (s_db s))\<rparr>\<rparr>"

text \<open>\<open>xxh3.HashString\<close> is the parameter \<open>hash\<close>.\<close>

definition NewMutex :: "(string \<Rightarrow> 64 word) \<Rightarrow> string \<Rightarrow> advisory_lock" where
  "NewMutex hash lockID = \<lparr>lock_conn = None, lock_id = hash lockID\<rparr>"

definition Lock :: "'w lock_lib \<Rightarrow> advisory_lock \<times> 'w sys \<Rightarrow> err \<times> advisory_lock \<times> 'w sys" where
  "Lock L = (\<lambda>(l, s). case acquire L s of
     (Inl e, s1) \<Rightarrow> (Some (Wrapped ''failed to acquire connection to DB'' e), (l, s1))
   | (Inr c, s1) \<Rightarrow>
       (let l1 = l\<lparr>lock_conn := Some c\<rparr> in
        case lib_QueryRow L c ''SELECT pg_try_advisory_lock($1);'' (lock_id l) (s_world s1) of
          (Inl e, w) \<Rightarrow>
            (Some (Wrapped ''failed to pg_try_advisory_lock for advisoryLockMutex'' e), (l1, s1\<lparr>s_world := w\<rparr>))
        | (Inr isLockAquired, w) \<Rightarrow>
            (if \<not> isLockAquired
             then (Some ErrMutexNotLocked, (l1\<lparr>lock_conn := None\<rparr>, s1\<lparr>s_world := w\<rparr>))
             else (None, (l1, registerLock c l1 (s1\<lparr>s_world := w\<rparr>))))))"

definition Unlock :: "'w lock_lib \<Rightarrow> advisory_lock \<times> 'w sys \<Rightarrow> err outcome \<times> advisory_lock \<times> 'w sys" where
  "Unlock L = (\<lambda>(l, s). case lock_conn l of
     None \<Rightarrow> (Panic, (l, s))
   | Some c \<Rightarrow>
       (case lib_Exec L c ''SELECT pg_advisory_unlock($1);'' (lock_id l) (s_world s) of
          (Some e, w) \<Rightarrow>
            (Ret (Some (Wrapped ''failed to pg_advisory_unlock for advisoryLockMutex'' e)), (l, s\<lparr>s_world := w\<rparr>))
        | (None, w) \<Rightarrow> (Ret None, (l, release c (s\<lparr>s_world := w\<rparr>)))))"

text \<open>\<open>execOne\<close> on \<open>pg_locks\<close>, whose \<open>objid\<close> has 32 bits.\<close>

definition checkIfAnotherRuntimeHandlesLock :: "'w lock_lib \<Rightarrow> advisory_lock \<Rightarrow> 'w sys \<Rightarrow> err \<times> 'w sys" where
  "checkIfAnotherRuntimeHandlesLock L l s =
     (case lib_lock_holder L (master (s_db s))
        ''SELECT pid FROM pg_locks WHERE objid = $1 and granted = true'' (ucast (lock_id l)) (s_world s) of
        (e, w) \<Rightarrow> (parseDBError e, s\<lparr>s_world := w\<rparr>))"

definition EnsureLocked :: "'w lock_lib \<Rightarrow> advisory_lock \<times> 'w sys \<Rightarrow> err \<times> advisory_lock \<times> 'w sys" where
  "EnsureLocked L = (\<lambda>(l, s). case lock_conn l of
     None \<Rightarrow>
       (case checkIfAnotherRuntimeHandlesLock L l s of (existsErr, s1) \<Rightarrow>
          (if existsErr \<noteq> None \<and> is_err existsErr (Some ErrNotFound) then Lock L (l, s1)
           else (Some ErrMutexNotLocked, (l, s1))))
   | Some c \<Rightarrow>
       (if closed (s_db s) then (Some ErrTxAborted, (l, s))
        else if lib_IsClosed L c (s_world s) then Lock L (l, s)
        else (case lib_Ping L c (s_world s) of
          (Some e, w) \<Rightarrow> Lock L (l, release c (s\<lparr>s_world := w\<rparr>))
        | (None, w) \<Rightarrow> (None, (l, s\<lparr>s_world := w\<rparr>)))))"

text \<open>\<open>Close\<close>: \<open>ord\<close> is the order of the map iteration over the registered locks.\<close>

definition close_pool :: "nat \<Rightarrow> 'w sys \<Rightarrow> 'w sys" where
  "close_pool p s = s\<lparr>s_open := filter (\<lambda>q. q \<noteq> p) (s_open s)\<rparr>"

definition release_lock :: "64 word \<times> nat \<Rightarrow> 'w sys \<Rightarrow> 'w sys" where
  "release_lock = (\<lambda>(lockID, conn) s'.
     (release conn s')\<lparr>s_db := (s_db s')\<lparr>acquiredLocks := filter (\<lambda>x. fst x \<noteq> lockID) (acquiredLocks (s_db s'))\<rparr>\<rparr>)"

definition Close :: "((64 word \<times> nat) list \<Rightarrow> (64 word \<times> nat) list) \<Rightarrow> 'w sys \<Rightarrow> err \<times> 'w sys" where
  "Close ord s =
     (let s1 = fold release_lock (ord (acquiredLocks (s_db s))) s;
          s2 = (case master (s_db s1) of None \<Rightarrow> s1 | Some p \<Rightarrow> close_pool p s1);
          s3 = (if length (replicas (db_lb (s_db s2))) \<noteq> 0
                then fold close_pool (replicas (db_lb (s_db s2))) s2 else s2)
      in (None, s3\<lparr>s_db := (s_db s3)\<lparr>closed := True\<rparr>\<rparr>))"

section \<open>Lemmas\<close>

lemma acquire_cases:
  obtains e w where "acquire L s = (Inl e, s\<lparr>s_world := w\<rparr>)"
  | c w where "acquire L s = (Inr c, s\<lparr>s_world := w, s_held := c # s_held s\<rparr>)"
  by (cases "lib_Acquire L (master (s_db s)) (s_world s)"; cases "fst (lib_Acquire L (master (s_db s)) (s_world s))")
    (auto simp: acquire_def)

text \<open>What \<open>Lock\<close> does to the connections that are checked out.\<close>

lemma Lock_held:
  assumes "Lock L (l, s) = (e, (l', s'))"
  shows "(s_held s' = s_held s \<and> lock_conn l' = lock_conn l \<and> e \<noteq> None) \<or>
    (\<exists>c. s_held s' = c # s_held s \<and> (e = None \<longrightarrow> lock_conn l' = Some c \<and> (lock_id l, c) \<in> set (acquiredLocks (s_db s'))) \<and>
      (e \<noteq> None \<longrightarrow> acquiredLocks (s_db s') = acquiredLocks (s_db s)) \<and>
      (e = Some ErrMutexNotLocked \<longrightarrow> lock_conn l' = None))"
proof (cases rule: acquire_cases [of L s])
  case (1 e w)
  then show ?thesis using assms by (auto simp: Lock_def)
next
  case (2 c w)
  obtain r w' where q: "lib_QueryRow L c ''SELECT pg_try_advisory_lock($1);'' (lock_id l) w = (r, w')" by fastforce
  show ?thesis
    using assms 2 q
    by (auto simp: Lock_def Let_def registerLock_def ErrMutexNotLocked_def split: sum.splits if_splits)
qed

text \<open>
  C39. A successful \<open>Lock\<close> holds exactly one more connection, which is registered with the database, and
  a successful \<open>Unlock\<close> on it gives it back. But a \<open>Lock\<close> that finds the lock taken
  (\<open>ErrMutexNotLocked\<close>) also keeps the connection it acquired: it is not registered, the mutex forgets
  it, and so nothing releases it any more.
\<close>
theorem Lock_connections:
  assumes "Lock L (l, s) = (e, (l', s'))"
  shows "(e = None \<longrightarrow>
      (\<exists>c. s_held s' = c # s_held s \<and> lock_conn l' = Some c \<and> (lock_id l, c) \<in> set (acquiredLocks (s_db s')) \<and>
        (\<forall>l'' s''. Unlock L (l', s') = (Ret None, (l'', s'')) \<longrightarrow> s_held s'' = s_held s))) \<and>
    (e = Some ErrMutexNotLocked \<longrightarrow>
      (\<exists>c. s_held s' = c # s_held s \<and> lock_conn l' = None \<and> acquiredLocks (s_db s') = acquiredLocks (s_db s)))"
proof (intro conjI impI)
  assume e: "e = None"
  then obtain c where c: "s_held s' = c # s_held s" "lock_conn l' = Some c"
    "(lock_id l, c) \<in> set (acquiredLocks (s_db s'))"
    using Lock_held [OF assms] by blast
  have "s_held s'' = s_held s" if "Unlock L (l', s') = (Ret None, (l'', s''))" for l'' s''
    using that c by (auto simp: Unlock_def release_def split: prod.splits option.splits)
  with c show "\<exists>c. s_held s' = c # s_held s \<and> lock_conn l' = Some c \<and> (lock_id l, c) \<in> set (acquiredLocks (s_db s')) \<and>
        (\<forall>l'' s''. Unlock L (l', s') = (Ret None, (l'', s'')) \<longrightarrow> s_held s'' = s_held s)"
    by blast
next
  assume e: "e = Some ErrMutexNotLocked"
  show "\<exists>c. s_held s' = c # s_held s \<and> lock_conn l' = None \<and> acquiredLocks (s_db s') = acquiredLocks (s_db s)"
  proof (cases rule: acquire_cases [of L s])
    case (1 e' w)
    then show ?thesis using assms e by (auto simp: Lock_def ErrMutexNotLocked_def)
  next
    case (2 c w)
    then show ?thesis using Lock_held [OF assms] e assms
      by (auto simp: Lock_def ErrMutexNotLocked_def Let_def split: prod.splits sum.splits if_splits)
  qed
qed

text \<open>A server on which another session holds every lock.\<close>

definition busy_lib :: "nat lock_lib" where
  "busy_lib = \<lparr>lib_Acquire = (\<lambda>p w. (Inr w, Suc w)), lib_QueryRow = (\<lambda>c sql i w. (Inr False, w)),
     lib_Exec = (\<lambda>c sql i w. (None, w)), lib_IsClosed = (\<lambda>c w. False), lib_Ping = (\<lambda>c w. (None, w)),
     lib_lock_holder = (\<lambda>p sql i w. (Some pgx_ErrNoRows, w))\<rparr>"

definition start_sys :: "nat sys" where
  "start_sys = \<lparr>s_db = toy_db, s_world = 7, s_held = [], s_open = [1, 2, 3, 4, 5]\<rparr>"

theorem Lock_connections_witness:
  "\<exists>c. s_held (snd (snd (Lock busy_lib (\<lparr>lock_conn = None, lock_id = 5\<rparr>, start_sys)))) = [c] \<and>
    lock_conn (fst (snd (Lock busy_lib (\<lparr>lock_conn = None, lock_id = 5\<rparr>, start_sys)))) = None"
proof -
  obtain e l' s' where r: "Lock busy_lib (\<lparr>lock_conn = None, lock_id = 5\<rparr>, start_sys) = (e, (l', s'))"
    using prod_cases3 by blast
  then have "e = Some ErrMutexNotLocked"
    by (simp add: Lock_def acquire_def busy_lib_def Let_def)
  moreover have "s_held start_sys = []" by (simp add: start_sys_def)
  ultimately show ?thesis using Lock_connections [OF r] r by auto
qed

section \<open>Closing\<close>

lemma close_pools_open: "s_open (fold close_pool ps s) = filter (\<lambda>q. q \<notin> set ps) (s_open s)"
  by (induction ps arbitrary: s) (auto simp: close_pool_def intro: filter_cong)

lemma close_pools_rest: "s_db (fold close_pool ps s) = s_db s \<and> s_held (fold close_pool ps s) = s_held s"
  by (induction ps arbitrary: s) (auto simp: close_pool_def)

lemma release_locks:
  "s_open (fold release_lock ls s) = s_open s \<and>
   s_db (fold release_lock ls s) = (s_db s)\<lparr>acquiredLocks := filter (\<lambda>x. fst x \<notin> fst ` set ls) (acquiredLocks (s_db s))\<rparr> \<and>
   s_held (fold release_lock ls s) = fold (\<lambda>l. remove1 (snd l)) ls (s_held s)"
proof (induction ls arbitrary: s)
  case Nil
  then show ?case by simp
next
  case (Cons l ls)
  show ?case
    using Cons.IH [of "release_lock l s"]
    by (cases l) (auto simp: release_lock_def release_def conj_commute)
qed

lemma fold_remove1_mset: "mset (fold (\<lambda>l. remove1 (f l)) ls xs) = mset xs - mset (map f ls)"
  by (induction ls arbitrary: xs) (simp_all add: diff_union_swap)

text \<open>
  \<open>Close\<close>: it never fails; the database is marked closed and holds no lock; exactly the connections
  of the registered locks are given back; the primary's pool and the replicas' pools are closed. The
  pools of the fallback primaries stay open.
\<close>
theorem Close_releases:
  assumes "\<And>xs. mset (ord xs) = mset xs" and "Close ord s = (e, s')"
  shows "e = None \<and> closed (s_db s') \<and> acquiredLocks (s_db s') = [] \<and>
    mset (s_held s') = mset (s_held s) - mset (map snd (acquiredLocks (s_db s))) \<and>
    (\<forall>p. p \<in> set (s_open s') \<longleftrightarrow> p \<in> set (s_open s) \<and> master (s_db s) \<noteq> Some p \<and>
       p \<notin> set (replicas (db_lb (s_db s))))"
proof -
  let ?ls = "ord (acquiredLocks (s_db s))"
  define s1 where "s1 = fold release_lock ?ls s"
  define s2 where "s2 = (case master (s_db s1) of None \<Rightarrow> s1 | Some p \<Rightarrow> close_pool p s1)"
  have set_ls: "set ?ls = set (acquiredLocks (s_db s))" using assms(1) by (metis set_mset_mset)
  have s': "e = None" "s' = (fold close_pool (replicas (db_lb (s_db s2))) s2)
      \<lparr>s_db := (s_db (fold close_pool (replicas (db_lb (s_db s2))) s2))\<lparr>closed := True\<rparr>\<rparr>"
    using assms(2) unfolding Close_def Let_def s1_def [symmetric] s2_def [symmetric]
    by (auto split: if_splits)
  note r = release_locks [of ?ls s, folded s1_def]
  have db1: "s_db s1 = (s_db s)\<lparr>acquiredLocks := []\<rparr>"
  proof -
    have "filter (\<lambda>x. fst x \<notin> fst ` set ?ls) (acquiredLocks (s_db s)) = []"
      by (simp add: set_ls filter_empty_conv)
    then show ?thesis using r by simp
  qed
  have db2: "s_db s2 = s_db s1" "s_held s2 = s_held s1"
    "s_open s2 = filter (\<lambda>q. master (s_db s) \<noteq> Some q) (s_open s)"
    using r db1 by (auto simp: s2_def close_pool_def split: option.splits intro: filter_cong)
  have "mset (s_held s1) = mset (s_held s) - mset (map snd ?ls)"
    using r fold_remove1_mset [of snd ?ls "s_held s"] by simp
  moreover have "mset (map snd ?ls) = mset (map snd (acquiredLocks (s_db s)))"
    using assms(1) by (metis mset_map)
  ultimately show ?thesis
    using s' db1 db2 close_pools_rest [of "replicas (db_lb (s_db s2))" s2]
      close_pools_open [of "replicas (db_lb (s_db s2))" s2] by auto
qed

theorem Close_releases_witness:
  "set (s_open (snd (Close id start_sys))) = {2, 3}"
proof -
  obtain e s' where c: "Close id start_sys = (e, s')" by (cases "Close id start_sys")
  have "\<forall>p. p \<in> set (s_open s') \<longleftrightarrow> p \<in> set (s_open start_sys) \<and> master (s_db start_sys) \<noteq> Some p \<and>
       p \<notin> set (replicas (db_lb (s_db start_sys)))"
    by (rule Close_releases [THEN conjunct2, THEN conjunct2, THEN conjunct2, THEN conjunct2, OF _ c]) simp
  then have "(p \<in> set (s_open s')) = (p = 2 \<or> p = 3)" for p
    unfolding start_sys_def toy_db_def by simp presburger
  then show ?thesis unfolding c snd_conv by blast
qed

end
