(* ===== verification/Storage_V3_Proxy.thy ===== *)
theory Storage_V3_Proxy
  imports Prelude
begin

text \<open>
  The forwarding methods of \<open>connectors/storage/v3/proxy.go\<close>. The load balancer \<open>lb\<close> implements the Redis client's
  interface: nearly every method is \<open>return l.instance().Name(arguments)\<close>. They are listed here as data, one
  entry per method: its name, its parameters, the method called on the instance and the arguments passed, in
  the order of the source. A parameter written with \<open>...\<close> takes any number of values, which are passed on as one slice.
  \<open>Storage_V3\<close> says what a call of such a method does.
\<close>

datatype proxy_method =
  Forward (pm_name: string) (pm_params: "string list") (pm_calls: string) (pm_args: "string list")

text \<open>A method that passes its own parameters, in order, to the method of the same name.\<close>

definition forwards_itself :: "proxy_method \<Rightarrow> bool" where
  "forwards_itself m \<longleftrightarrow> pm_calls m = pm_name m \<and> pm_args m = pm_params m \<and> distinct (pm_params m)"

lemma forwards_itself_simp:
  "forwards_itself (Forward n ps c as) \<longleftrightarrow> c = n \<and> as = ps \<and> distinct ps"
  by (simp add: forwards_itself_def)

definition forward_Pipeline :: "proxy_method list" where
  "forward_Pipeline = [
    Forward ''Pipeline'' [] ''Pipeline'' [],
    Forward ''Pipelined'' [''ctx'', ''fn''] ''Pipelined'' [''ctx'', ''fn''],
    Forward ''TxPipelined'' [''ctx'', ''fn''] ''TxPipelined'' [''ctx'', ''fn''],
    Forward ''TxPipeline'' [] ''TxPipeline'' [],
    Forward ''Command'' [''ctx''] ''Command'' [''ctx''],
    Forward ''CommandList'' [''ctx'', ''filter''] ''CommandList'' [''ctx'', ''filter''],
    Forward ''CommandGetKeys'' [''ctx'', ''commands...''] ''CommandGetKeys'' [''ctx'', ''commands...''],
    Forward ''CommandGetKeysAndFlags'' [''ctx'', ''commands...''] ''CommandGetKeysAndFlags'' [''ctx'', ''commands...''],
    Forward ''ClientGetName'' [''ctx''] ''ClientGetName'' [''ctx''],
    Forward ''Echo'' [''ctx'', ''message''] ''Echo'' [''ctx'', ''message'']]"

definition forward_Del :: "proxy_method list" where
  "forward_Del = [
    Forward ''Del'' [''ctx'', ''keys...''] ''Del'' [''ctx'', ''keys...''],
    Forward ''DelExArgs'' [''ctx'', ''key'', ''a''] ''DelExArgs'' [''ctx'', ''key'', ''a''],
    Forward ''Unlink'' [''ctx'', ''keys...''] ''Unlink'' [''ctx'', ''keys...''],
    Forward ''Dump'' [''ctx'', ''key''] ''Dump'' [''ctx'', ''key''],
    Forward ''Digest'' [''ctx'', ''key''] ''Digest'' [''ctx'', ''key''],
    Forward ''Exists'' [''ctx'', ''keys...''] ''Exists'' [''ctx'', ''keys...''],
    Forward ''Expire'' [''ctx'', ''key'', ''expiration''] ''Expire'' [''ctx'', ''key'', ''expiration''],
    Forward ''ExpireAt'' [''ctx'', ''key'', ''tm''] ''ExpireAt'' [''ctx'', ''key'', ''tm''],
    Forward ''ExpireTime'' [''ctx'', ''key''] ''ExpireTime'' [''ctx'', ''key''],
    Forward ''ExpireNX'' [''ctx'', ''key'', ''expiration''] ''ExpireNX'' [''ctx'', ''key'', ''expiration''],
    Forward ''ExpireXX'' [''ctx'', ''key'', ''expiration''] ''ExpireXX'' [''ctx'', ''key'', ''expiration''],
    Forward ''ExpireGT'' [''ctx'', ''key'', ''expiration''] ''ExpireGT'' [''ctx'', ''key'', ''expiration''],
    Forward ''ExpireLT'' [''ctx'', ''key'', ''expiration''] ''ExpireLT'' [''ctx'', ''key'', ''expiration''],
    Forward ''Keys'' [''ctx'', ''pattern''] ''Keys'' [''ctx'', ''pattern''],
    Forward ''Migrate'' [''ctx'', ''host'', ''port'', ''key'', ''db'', ''timeout''] ''Migrate'' [''ctx'', ''host'', ''port'', ''key'', ''db'', ''timeout''],
    Forward ''Move'' [''ctx'', ''key'', ''db''] ''Move'' [''ctx'', ''key'', ''db''],
    Forward ''ObjectRefCount'' [''ctx'', ''key''] ''ObjectRefCount'' [''ctx'', ''key''],
    Forward ''ObjectEncoding'' [''ctx'', ''key''] ''ObjectEncoding'' [''ctx'', ''key''],
    Forward ''ObjectIdleTime'' [''ctx'', ''key''] ''ObjectIdleTime'' [''ctx'', ''key''],
    Forward ''Persist'' [''ctx'', ''key''] ''Persist'' [''ctx'', ''key''],
    Forward ''PExpire'' [''ctx'', ''key'', ''expiration''] ''PExpire'' [''ctx'', ''key'', ''expiration''],
    Forward ''PExpireAt'' [''ctx'', ''key'', ''tm''] ''PExpireAt'' [''ctx'', ''key'', ''tm''],
    Forward ''PExpireTime'' [''ctx'', ''key''] ''PExpireTime'' [''ctx'', ''key''],
    Forward ''PTTL'' [''ctx'', ''key''] ''PTTL'' [''ctx'', ''key''],
    Forward ''RandomKey'' [''ctx''] ''RandomKey'' [''ctx''],
    Forward ''Rename'' [''ctx'', ''key'', ''newkey''] ''Rename'' [''ctx'', ''key'', ''newkey''],
    Forward ''RenameNX'' [''ctx'', ''key'', ''newkey''] ''RenameNX'' [''ctx'', ''key'', ''newkey''],
    Forward ''Restore'' [''ctx'', ''key'', ''ttl'', ''value''] ''Restore'' [''ctx'', ''key'', ''ttl'', ''value''],
    Forward ''RestoreReplace'' [''ctx'', ''key'', ''ttl'', ''value''] ''RestoreReplace'' [''ctx'', ''key'', ''ttl'', ''value''],
    Forward ''Sort'' [''ctx'', ''key'', ''sort''] ''Sort'' [''ctx'', ''key'', ''sort''],
    Forward ''SortRO'' [''ctx'', ''key'', ''sort''] ''SortRO'' [''ctx'', ''key'', ''sort''],
    Forward ''SortStore'' [''ctx'', ''key'', ''store'', ''sort''] ''SortStore'' [''ctx'', ''key'', ''store'', ''sort''],
    Forward ''SortInterfaces'' [''ctx'', ''key'', ''sort''] ''SortInterfaces'' [''ctx'', ''key'', ''sort''],
    Forward ''Touch'' [''ctx'', ''keys...''] ''Touch'' [''ctx'', ''keys...''],
    Forward ''TTL'' [''ctx'', ''key''] ''TTL'' [''ctx'', ''key''],
    Forward ''Type'' [''ctx'', ''key''] ''Type'' [''ctx'', ''key'']]"

definition forward_Append :: "proxy_method list" where
  "forward_Append = [
    Forward ''Append'' [''ctx'', ''key'', ''value''] ''Append'' [''ctx'', ''key'', ''value''],
    Forward ''Decr'' [''ctx'', ''key''] ''Decr'' [''ctx'', ''key''],
    Forward ''DecrBy'' [''ctx'', ''key'', ''decrement''] ''DecrBy'' [''ctx'', ''key'', ''decrement''],
    Forward ''Get'' [''ctx'', ''key''] ''Get'' [''ctx'', ''key''],
    Forward ''GetRange'' [''ctx'', ''key'', ''start'', ''end''] ''GetRange'' [''ctx'', ''key'', ''start'', ''end''],
    Forward ''GetSet'' [''ctx'', ''key'', ''value''] ''GetSet'' [''ctx'', ''key'', ''value''],
    Forward ''GetEx'' [''ctx'', ''key'', ''expiration''] ''GetEx'' [''ctx'', ''key'', ''expiration''],
    Forward ''GetDel'' [''ctx'', ''key''] ''GetDel'' [''ctx'', ''key''],
    Forward ''Incr'' [''ctx'', ''key''] ''Incr'' [''ctx'', ''key''],
    Forward ''IncrBy'' [''ctx'', ''key'', ''value''] ''IncrBy'' [''ctx'', ''key'', ''value''],
    Forward ''IncrByFloat'' [''ctx'', ''key'', ''value''] ''IncrByFloat'' [''ctx'', ''key'', ''value''],
    Forward ''MGet'' [''ctx'', ''keys...''] ''MGet'' [''ctx'', ''keys...''],
    Forward ''MSet'' [''ctx'', ''values...''] ''MSet'' [''ctx'', ''values...''],
    Forward ''MSetEX'' [''ctx'', ''args'', ''values...''] ''MSetEX'' [''ctx'', ''args'', ''values...''],
    Forward ''MSetNX'' [''ctx'', ''values...''] ''MSetNX'' [''ctx'', ''values...''],
    Forward ''Set'' [''ctx'', ''key'', ''value'', ''expiration''] ''Set'' [''ctx'', ''key'', ''value'', ''expiration''],
    Forward ''SetArgs'' [''ctx'', ''key'', ''value'', ''a''] ''SetArgs'' [''ctx'', ''key'', ''value'', ''a''],
    Forward ''SetEx'' [''ctx'', ''key'', ''value'', ''expiration''] ''SetEx'' [''ctx'', ''key'', ''value'', ''expiration''],
    Forward ''SetNX'' [''ctx'', ''key'', ''value'', ''expiration''] ''SetNX'' [''ctx'', ''key'', ''value'', ''expiration''],
    Forward ''SetXX'' [''ctx'', ''key'', ''value'', ''expiration''] ''SetXX'' [''ctx'', ''key'', ''value'', ''expiration''],
    Forward ''SetIFEQ'' [''ctx'', ''key'', ''value'', ''matchValue'', ''expiration''] ''SetIFEQ'' [''ctx'', ''key'', ''value'', ''matchValue'', ''expiration''],
    Forward ''SetIFEQGet'' [''ctx'', ''key'', ''value'', ''matchValue'', ''expiration''] ''SetIFEQGet'' [''ctx'', ''key'', ''value'', ''matchValue'', ''expiration''],
    Forward ''SetIFNE'' [''ctx'', ''key'', ''value'', ''matchValue'', ''expiration''] ''SetIFNE'' [''ctx'', ''key'', ''value'', ''matchValue'', ''expiration''],
    Forward ''SetIFNEGet'' [''ctx'', ''key'', ''value'', ''matchValue'', ''expiration''] ''SetIFNEGet'' [''ctx'', ''key'', ''value'', ''matchValue'', ''expiration''],
    Forward ''SetIFDEQ'' [''ctx'', ''key'', ''value'', ''matchDigest'', ''expiration''] ''SetIFDEQ'' [''ctx'', ''key'', ''value'', ''matchDigest'', ''expiration''],
    Forward ''SetIFDEQGet'' [''ctx'', ''key'', ''value'', ''matchDigest'', ''expiration''] ''SetIFDEQGet'' [''ctx'', ''key'', ''value'', ''matchDigest'', ''expiration''],
    Forward ''SetIFDNE'' [''ctx'', ''key'', ''value'', ''matchDigest'', ''expiration''] ''SetIFDNE'' [''ctx'', ''key'', ''value'', ''matchDigest'', ''expiration''],
    Forward ''SetIFDNEGet'' [''ctx'', ''key'', ''value'', ''matchDigest'', ''expiration''] ''SetIFDNEGet'' [''ctx'', ''key'', ''value'', ''matchDigest'', ''expiration''],
    Forward ''SetRange'' [''ctx'', ''key'', ''offset'', ''value''] ''SetRange'' [''ctx'', ''key'', ''offset'', ''value''],
    Forward ''StrLen'' [''ctx'', ''key''] ''StrLen'' [''ctx'', ''key''],
    Forward ''Copy'' [''ctx'', ''sourceKey'', ''destKey'', ''db'', ''replace''] ''Copy'' [''ctx'', ''sourceKey'', ''destKey'', ''db'', ''replace''],
    Forward ''GetBit'' [''ctx'', ''key'', ''offset''] ''GetBit'' [''ctx'', ''key'', ''offset''],
    Forward ''SetBit'' [''ctx'', ''key'', ''offset'', ''value''] ''SetBit'' [''ctx'', ''key'', ''offset'', ''value''],
    Forward ''BitCount'' [''ctx'', ''key'', ''bitCount''] ''BitCount'' [''ctx'', ''key'', ''bitCount''],
    Forward ''BitOpAnd'' [''ctx'', ''destKey'', ''keys...''] ''BitOpAnd'' [''ctx'', ''destKey'', ''keys...''],
    Forward ''BitOpOr'' [''ctx'', ''destKey'', ''keys...''] ''BitOpOr'' [''ctx'', ''destKey'', ''keys...'']]"

definition forward_BitOpAndOr :: "proxy_method list" where
  "forward_BitOpAndOr = [
    Forward ''BitOpAndOr'' [''ctx'', ''destKey'', ''keys...''] ''BitOpAndOr'' [''ctx'', ''destKey'', ''keys...''],
    Forward ''BitOpDiff'' [''ctx'', ''destKey'', ''keys...''] ''BitOpDiff'' [''ctx'', ''destKey'', ''keys...''],
    Forward ''BitOpDiff1'' [''ctx'', ''destKey'', ''keys...''] ''BitOpDiff1'' [''ctx'', ''destKey'', ''keys...''],
    Forward ''BitOpOne'' [''ctx'', ''destKey'', ''keys...''] ''BitOpOne'' [''ctx'', ''destKey'', ''keys...''],
    Forward ''BitOpXor'' [''ctx'', ''destKey'', ''keys...''] ''BitOpXor'' [''ctx'', ''destKey'', ''keys...''],
    Forward ''BitOpNot'' [''ctx'', ''destKey'', ''key''] ''BitOpNot'' [''ctx'', ''destKey'', ''key''],
    Forward ''BitPos'' [''ctx'', ''key'', ''bit'', ''pos...''] ''BitPos'' [''ctx'', ''key'', ''bit'', ''pos...''],
    Forward ''BitPosSpan'' [''ctx'', ''key'', ''bit'', ''start'', ''end'', ''span''] ''BitPosSpan'' [''ctx'', ''key'', ''bit'', ''start'', ''end'', ''span''],
    Forward ''BitField'' [''ctx'', ''key'', ''args...''] ''BitField'' [''ctx'', ''key'', ''args...''],
    Forward ''Scan'' [''ctx'', ''cursor'', ''match'', ''count''] ''Scan'' [''ctx'', ''cursor'', ''match'', ''count''],
    Forward ''ScanType'' [''ctx'', ''cursor'', ''match'', ''count'', ''keyType''] ''ScanType'' [''ctx'', ''cursor'', ''match'', ''count'', ''keyType''],
    Forward ''SScan'' [''ctx'', ''key'', ''cursor'', ''match'', ''count''] ''SScan'' [''ctx'', ''key'', ''cursor'', ''match'', ''count''],
    Forward ''HScan'' [''ctx'', ''key'', ''cursor'', ''match'', ''count''] ''HScan'' [''ctx'', ''key'', ''cursor'', ''match'', ''count''],
    Forward ''HScanNoValues'' [''ctx'', ''key'', ''cursor'', ''match'', ''count''] ''HScanNoValues'' [''ctx'', ''key'', ''cursor'', ''match'', ''count''],
    Forward ''ZScan'' [''ctx'', ''key'', ''cursor'', ''match'', ''count''] ''ZScan'' [''ctx'', ''key'', ''cursor'', ''match'', ''count''],
    Forward ''HDel'' [''ctx'', ''key'', ''fields...''] ''HDel'' [''ctx'', ''key'', ''fields...''],
    Forward ''HExists'' [''ctx'', ''key'', ''field''] ''HExists'' [''ctx'', ''key'', ''field''],
    Forward ''HGet'' [''ctx'', ''key'', ''field''] ''HGet'' [''ctx'', ''key'', ''field''],
    Forward ''HGetAll'' [''ctx'', ''key''] ''HGetAll'' [''ctx'', ''key''],
    Forward ''HIncrBy'' [''ctx'', ''key'', ''field'', ''incr''] ''HIncrBy'' [''ctx'', ''key'', ''field'', ''incr''],
    Forward ''HIncrByFloat'' [''ctx'', ''key'', ''field'', ''incr''] ''HIncrByFloat'' [''ctx'', ''key'', ''field'', ''incr''],
    Forward ''HKeys'' [''ctx'', ''key''] ''HKeys'' [''ctx'', ''key''],
    Forward ''HLen'' [''ctx'', ''key''] ''HLen'' [''ctx'', ''key''],
    Forward ''HMGet'' [''ctx'', ''key'', ''fields...''] ''HMGet'' [''ctx'', ''key'', ''fields...''],
    Forward ''HSet'' [''ctx'', ''key'', ''values...''] ''HSet'' [''ctx'', ''key'', ''values...''],
    Forward ''HMSet'' [''ctx'', ''key'', ''values...''] ''HMSet'' [''ctx'', ''key'', ''values...''],
    Forward ''HSetNX'' [''ctx'', ''key'', ''field'', ''value''] ''HSetNX'' [''ctx'', ''key'', ''field'', ''value''],
    Forward ''HVals'' [''ctx'', ''key''] ''HVals'' [''ctx'', ''key''],
    Forward ''HRandField'' [''ctx'', ''key'', ''count''] ''HRandField'' [''ctx'', ''key'', ''count''],
    Forward ''HRandFieldWithValues'' [''ctx'', ''key'', ''count''] ''HRandFieldWithValues'' [''ctx'', ''key'', ''count''],
    Forward ''BLPop'' [''ctx'', ''timeout'', ''keys...''] ''BLPop'' [''ctx'', ''timeout'', ''keys...''],
    Forward ''BLMPop'' [''ctx'', ''timeout'', ''direction'', ''count'', ''keys...''] ''BLMPop'' [''ctx'', ''timeout'', ''direction'', ''count'', ''keys...''],
    Forward ''BRPop'' [''ctx'', ''timeout'', ''keys...''] ''BRPop'' [''ctx'', ''timeout'', ''keys...''],
    Forward ''BRPopLPush'' [''ctx'', ''source'', ''destination'', ''timeout''] ''BRPopLPush'' [''ctx'', ''source'', ''destination'', ''timeout''],
    Forward ''LCS'' [''ctx'', ''q''] ''LCS'' [''ctx'', ''q''],
    Forward ''LIndex'' [''ctx'', ''key'', ''index''] ''LIndex'' [''ctx'', ''key'', ''index''],
    Forward ''LInsert'' [''ctx'', ''key'', ''op'', ''pivot'', ''value''] ''LInsert'' [''ctx'', ''key'', ''op'', ''pivot'', ''value'']]"

definition forward_LInsertBefore :: "proxy_method list" where
  "forward_LInsertBefore = [
    Forward ''LInsertBefore'' [''ctx'', ''key'', ''pivot'', ''value''] ''LInsertBefore'' [''ctx'', ''key'', ''pivot'', ''value''],
    Forward ''LInsertAfter'' [''ctx'', ''key'', ''pivot'', ''value''] ''LInsertAfter'' [''ctx'', ''key'', ''pivot'', ''value''],
    Forward ''LLen'' [''ctx'', ''key''] ''LLen'' [''ctx'', ''key''],
    Forward ''LMPop'' [''ctx'', ''direction'', ''count'', ''keys...''] ''LMPop'' [''ctx'', ''direction'', ''count'', ''keys...''],
    Forward ''LPop'' [''ctx'', ''key''] ''LPop'' [''ctx'', ''key''],
    Forward ''LPopCount'' [''ctx'', ''key'', ''count''] ''LPopCount'' [''ctx'', ''key'', ''count''],
    Forward ''LPos'' [''ctx'', ''key'', ''value'', ''args''] ''LPos'' [''ctx'', ''key'', ''value'', ''args''],
    Forward ''LPosCount'' [''ctx'', ''key'', ''value'', ''count'', ''args''] ''LPosCount'' [''ctx'', ''key'', ''value'', ''count'', ''args''],
    Forward ''LPush'' [''ctx'', ''key'', ''values...''] ''LPush'' [''ctx'', ''key'', ''values...''],
    Forward ''LPushX'' [''ctx'', ''key'', ''values...''] ''LPushX'' [''ctx'', ''key'', ''values...''],
    Forward ''LRange'' [''ctx'', ''key'', ''start'', ''stop''] ''LRange'' [''ctx'', ''key'', ''start'', ''stop''],
    Forward ''LRem'' [''ctx'', ''key'', ''count'', ''value''] ''LRem'' [''ctx'', ''key'', ''count'', ''value''],
    Forward ''LSet'' [''ctx'', ''key'', ''index'', ''value''] ''LSet'' [''ctx'', ''key'', ''index'', ''value''],
    Forward ''LTrim'' [''ctx'', ''key'', ''start'', ''stop''] ''LTrim'' [''ctx'', ''key'', ''start'', ''stop''],
    Forward ''RPop'' [''ctx'', ''key''] ''RPop'' [''ctx'', ''key''],
    Forward ''RPopCount'' [''ctx'', ''key'', ''count''] ''RPopCount'' [''ctx'', ''key'', ''count''],
    Forward ''RPopLPush'' [''ctx'', ''source'', ''destination''] ''RPopLPush'' [''ctx'', ''source'', ''destination''],
    Forward ''RPush'' [''ctx'', ''key'', ''values...''] ''RPush'' [''ctx'', ''key'', ''values...''],
    Forward ''RPushX'' [''ctx'', ''key'', ''values...''] ''RPushX'' [''ctx'', ''key'', ''values...''],
    Forward ''LMove'' [''ctx'', ''source'', ''destination'', ''srcpos'', ''destpos''] ''LMove'' [''ctx'', ''source'', ''destination'', ''srcpos'', ''destpos''],
    Forward ''BLMove'' [''ctx'', ''source'', ''destination'', ''srcpos'', ''destpos'', ''timeout''] ''BLMove'' [''ctx'', ''source'', ''destination'', ''srcpos'', ''destpos'', ''timeout''],
    Forward ''SAdd'' [''ctx'', ''key'', ''members...''] ''SAdd'' [''ctx'', ''key'', ''members...''],
    Forward ''SCard'' [''ctx'', ''key''] ''SCard'' [''ctx'', ''key''],
    Forward ''SDiff'' [''ctx'', ''keys...''] ''SDiff'' [''ctx'', ''keys...''],
    Forward ''SDiffStore'' [''ctx'', ''destination'', ''keys...''] ''SDiffStore'' [''ctx'', ''destination'', ''keys...''],
    Forward ''SInter'' [''ctx'', ''keys...''] ''SInter'' [''ctx'', ''keys...''],
    Forward ''SInterCard'' [''ctx'', ''limit'', ''keys...''] ''SInterCard'' [''ctx'', ''limit'', ''keys...''],
    Forward ''SInterStore'' [''ctx'', ''destination'', ''keys...''] ''SInterStore'' [''ctx'', ''destination'', ''keys...''],
    Forward ''SIsMember'' [''ctx'', ''key'', ''member''] ''SIsMember'' [''ctx'', ''key'', ''member''],
    Forward ''SMIsMember'' [''ctx'', ''key'', ''members...''] ''SMIsMember'' [''ctx'', ''key'', ''members...''],
    Forward ''SMembers'' [''ctx'', ''key''] ''SMembers'' [''ctx'', ''key''],
    Forward ''SMembersMap'' [''ctx'', ''key''] ''SMembersMap'' [''ctx'', ''key''],
    Forward ''SMove'' [''ctx'', ''source'', ''destination'', ''member''] ''SMove'' [''ctx'', ''source'', ''destination'', ''member''],
    Forward ''SPop'' [''ctx'', ''key''] ''SPop'' [''ctx'', ''key''],
    Forward ''SPopN'' [''ctx'', ''key'', ''count''] ''SPopN'' [''ctx'', ''key'', ''count''],
    Forward ''SRandMember'' [''ctx'', ''key''] ''SRandMember'' [''ctx'', ''key''],
    Forward ''SRandMemberN'' [''ctx'', ''key'', ''count''] ''SRandMemberN'' [''ctx'', ''key'', ''count'']]"

definition forward_SRem :: "proxy_method list" where
  "forward_SRem = [
    Forward ''SRem'' [''ctx'', ''key'', ''members...''] ''SRem'' [''ctx'', ''key'', ''members...''],
    Forward ''SUnion'' [''ctx'', ''keys...''] ''SUnion'' [''ctx'', ''keys...''],
    Forward ''SUnionStore'' [''ctx'', ''destination'', ''keys...''] ''SUnionStore'' [''ctx'', ''destination'', ''keys...''],
    Forward ''XAdd'' [''ctx'', ''a''] ''XAdd'' [''ctx'', ''a''],
    Forward ''XDel'' [''ctx'', ''stream'', ''ids...''] ''XDel'' [''ctx'', ''stream'', ''ids...''],
    Forward ''XLen'' [''ctx'', ''stream''] ''XLen'' [''ctx'', ''stream''],
    Forward ''XRange'' [''ctx'', ''stream'', ''start'', ''stop''] ''XRange'' [''ctx'', ''stream'', ''start'', ''stop''],
    Forward ''XRangeN'' [''ctx'', ''stream'', ''start'', ''stop'', ''count''] ''XRangeN'' [''ctx'', ''stream'', ''start'', ''stop'', ''count''],
    Forward ''XRevRange'' [''ctx'', ''stream'', ''start'', ''stop''] ''XRevRange'' [''ctx'', ''stream'', ''start'', ''stop''],
    Forward ''XRevRangeN'' [''ctx'', ''stream'', ''start'', ''stop'', ''count''] ''XRevRangeN'' [''ctx'', ''stream'', ''start'', ''stop'', ''count''],
    Forward ''XRead'' [''ctx'', ''a''] ''XRead'' [''ctx'', ''a''],
    Forward ''XReadStreams'' [''ctx'', ''streams...''] ''XReadStreams'' [''ctx'', ''streams...''],
    Forward ''XGroupCreate'' [''ctx'', ''stream'', ''group'', ''start''] ''XGroupCreate'' [''ctx'', ''stream'', ''group'', ''start''],
    Forward ''XGroupCreateMkStream'' [''ctx'', ''stream'', ''group'', ''start''] ''XGroupCreateMkStream'' [''ctx'', ''stream'', ''group'', ''start''],
    Forward ''XGroupSetID'' [''ctx'', ''stream'', ''group'', ''start''] ''XGroupSetID'' [''ctx'', ''stream'', ''group'', ''start''],
    Forward ''XGroupDestroy'' [''ctx'', ''stream'', ''group''] ''XGroupDestroy'' [''ctx'', ''stream'', ''group''],
    Forward ''XGroupCreateConsumer'' [''ctx'', ''stream'', ''group'', ''consumer''] ''XGroupCreateConsumer'' [''ctx'', ''stream'', ''group'', ''consumer''],
    Forward ''XGroupDelConsumer'' [''ctx'', ''stream'', ''group'', ''consumer''] ''XGroupDelConsumer'' [''ctx'', ''stream'', ''group'', ''consumer''],
    Forward ''XReadGroup'' [''ctx'', ''a''] ''XReadGroup'' [''ctx'', ''a''],
    Forward ''XAck'' [''ctx'', ''stream'', ''group'', ''ids...''] ''XAck'' [''ctx'', ''stream'', ''group'', ''ids...''],
    Forward ''XAckDel'' [''ctx'', ''stream'', ''group'', ''id'', ''ids...''] ''XAckDel'' [''ctx'', ''stream'', ''group'', ''id'', ''ids...''],
    Forward ''XDelEx'' [''ctx'', ''stream'', ''id'', ''ids...''] ''XDelEx'' [''ctx'', ''stream'', ''id'', ''ids...''],
    Forward ''XPending'' [''ctx'', ''stream'', ''group''] ''XPending'' [''ctx'', ''stream'', ''group''],
    Forward ''XPendingExt'' [''ctx'', ''a''] ''XPendingExt'' [''ctx'', ''a''],
    Forward ''XClaim'' [''ctx'', ''a''] ''XClaim'' [''ctx'', ''a''],
    Forward ''XClaimJustID'' [''ctx'', ''a''] ''XClaimJustID'' [''ctx'', ''a''],
    Forward ''XAutoClaim'' [''ctx'', ''a''] ''XAutoClaim'' [''ctx'', ''a''],
    Forward ''XAutoClaimJustID'' [''ctx'', ''a''] ''XAutoClaimJustID'' [''ctx'', ''a''],
    Forward ''XTrimMaxLen'' [''ctx'', ''key'', ''maximumLen''] ''XTrimMaxLen'' [''ctx'', ''key'', ''maximumLen''],
    Forward ''XTrimMaxLenApproxMode'' [''ctx'', ''key'', ''maxLen'', ''limit'', ''mode''] ''XTrimMaxLenApproxMode'' [''ctx'', ''key'', ''maxLen'', ''limit'', ''mode''],
    Forward ''XTrimMaxLenMode'' [''ctx'', ''key'', ''maxLen'', ''mode''] ''XTrimMaxLenMode'' [''ctx'', ''key'', ''maxLen'', ''mode''],
    Forward ''XTrimMinIDApproxMode'' [''ctx'', ''key'', ''minID'', ''limit'', ''mode''] ''XTrimMinIDApproxMode'' [''ctx'', ''key'', ''minID'', ''limit'', ''mode''],
    Forward ''XTrimMinIDMode'' [''ctx'', ''key'', ''minID'', ''mode''] ''XTrimMinIDMode'' [''ctx'', ''key'', ''minID'', ''mode''],
    Forward ''XTrimMaxLenApprox'' [''ctx'', ''key'', ''maximumLen'', ''limit''] ''XTrimMaxLenApprox'' [''ctx'', ''key'', ''maximumLen'', ''limit''],
    Forward ''XTrimMinID'' [''ctx'', ''key'', ''minID''] ''XTrimMinID'' [''ctx'', ''key'', ''minID''],
    Forward ''XTrimMinIDApprox'' [''ctx'', ''key'', ''minID'', ''limit''] ''XTrimMinIDApprox'' [''ctx'', ''key'', ''minID'', ''limit''],
    Forward ''XInfoGroups'' [''ctx'', ''key''] ''XInfoGroups'' [''ctx'', ''key'']]"

definition forward_XInfoStream :: "proxy_method list" where
  "forward_XInfoStream = [
    Forward ''XInfoStream'' [''ctx'', ''key''] ''XInfoStream'' [''ctx'', ''key''],
    Forward ''XInfoStreamFull'' [''ctx'', ''key'', ''count''] ''XInfoStreamFull'' [''ctx'', ''key'', ''count''],
    Forward ''XInfoConsumers'' [''ctx'', ''key'', ''group''] ''XInfoConsumers'' [''ctx'', ''key'', ''group''],
    Forward ''XCfgSet'' [''ctx'', ''a''] ''XCfgSet'' [''ctx'', ''a''],
    Forward ''BZPopMax'' [''ctx'', ''timeout'', ''keys...''] ''BZPopMax'' [''ctx'', ''timeout'', ''keys...''],
    Forward ''BZPopMin'' [''ctx'', ''timeout'', ''keys...''] ''BZPopMin'' [''ctx'', ''timeout'', ''keys...''],
    Forward ''BZMPop'' [''ctx'', ''timeout'', ''order'', ''count'', ''keys...''] ''BZMPop'' [''ctx'', ''timeout'', ''order'', ''count'', ''keys...''],
    Forward ''ZAdd'' [''ctx'', ''key'', ''members...''] ''ZAdd'' [''ctx'', ''key'', ''members...''],
    Forward ''ZAddLT'' [''ctx'', ''key'', ''members...''] ''ZAddLT'' [''ctx'', ''key'', ''members...''],
    Forward ''ZAddGT'' [''ctx'', ''key'', ''members...''] ''ZAddGT'' [''ctx'', ''key'', ''members...''],
    Forward ''ZAddNX'' [''ctx'', ''key'', ''members...''] ''ZAddNX'' [''ctx'', ''key'', ''members...''],
    Forward ''ZAddXX'' [''ctx'', ''key'', ''members...''] ''ZAddXX'' [''ctx'', ''key'', ''members...''],
    Forward ''ZAddArgs'' [''ctx'', ''key'', ''args''] ''ZAddArgs'' [''ctx'', ''key'', ''args''],
    Forward ''ZAddArgsIncr'' [''ctx'', ''key'', ''args''] ''ZAddArgsIncr'' [''ctx'', ''key'', ''args''],
    Forward ''ZCard'' [''ctx'', ''key''] ''ZCard'' [''ctx'', ''key''],
    Forward ''ZCount'' [''ctx'', ''key'', ''minimum'', ''maximum''] ''ZCount'' [''ctx'', ''key'', ''minimum'', ''maximum''],
    Forward ''ZLexCount'' [''ctx'', ''key'', ''minimum'', ''maximum''] ''ZLexCount'' [''ctx'', ''key'', ''minimum'', ''maximum''],
    Forward ''ZIncrBy'' [''ctx'', ''key'', ''increment'', ''member''] ''ZIncrBy'' [''ctx'', ''key'', ''increment'', ''member''],
    Forward ''ZInter'' [''ctx'', ''store''] ''ZInter'' [''ctx'', ''store''],
    Forward ''ZInterWithScores'' [''ctx'', ''store''] ''ZInterWithScores'' [''ctx'', ''store''],
    Forward ''ZInterCard'' [''ctx'', ''limit'', ''keys...''] ''ZInterCard'' [''ctx'', ''limit'', ''keys...''],
    Forward ''ZInterStore'' [''ctx'', ''destination'', ''store''] ''ZInterStore'' [''ctx'', ''destination'', ''store''],
    Forward ''ZMPop'' [''ctx'', ''order'', ''count'', ''keys...''] ''ZMPop'' [''ctx'', ''order'', ''count'', ''keys...''],
    Forward ''ZMScore'' [''ctx'', ''key'', ''members...''] ''ZMScore'' [''ctx'', ''key'', ''members...''],
    Forward ''ZPopMax'' [''ctx'', ''key'', ''count...''] ''ZPopMax'' [''ctx'', ''key'', ''count...''],
    Forward ''ZPopMin'' [''ctx'', ''key'', ''count...''] ''ZPopMin'' [''ctx'', ''key'', ''count...''],
    Forward ''ZRange'' [''ctx'', ''key'', ''start'', ''stop''] ''ZRange'' [''ctx'', ''key'', ''start'', ''stop''],
    Forward ''ZRangeWithScores'' [''ctx'', ''key'', ''start'', ''stop''] ''ZRangeWithScores'' [''ctx'', ''key'', ''start'', ''stop''],
    Forward ''ZRangeByScore'' [''ctx'', ''key'', ''opt''] ''ZRangeByScore'' [''ctx'', ''key'', ''opt''],
    Forward ''ZRangeByLex'' [''ctx'', ''key'', ''opt''] ''ZRangeByLex'' [''ctx'', ''key'', ''opt''],
    Forward ''ZRangeByScoreWithScores'' [''ctx'', ''key'', ''opt''] ''ZRangeByScoreWithScores'' [''ctx'', ''key'', ''opt''],
    Forward ''ZRangeArgs'' [''ctx'', ''z''] ''ZRangeArgs'' [''ctx'', ''z''],
    Forward ''ZRangeArgsWithScores'' [''ctx'', ''z''] ''ZRangeArgsWithScores'' [''ctx'', ''z''],
    Forward ''ZRangeStore'' [''ctx'', ''dst'', ''z''] ''ZRangeStore'' [''ctx'', ''dst'', ''z''],
    Forward ''ZRank'' [''ctx'', ''key'', ''member''] ''ZRank'' [''ctx'', ''key'', ''member''],
    Forward ''ZRankWithScore'' [''ctx'', ''key'', ''member''] ''ZRankWithScore'' [''ctx'', ''key'', ''member'']]"

definition forward_ZRem :: "proxy_method list" where
  "forward_ZRem = [
    Forward ''ZRem'' [''ctx'', ''key'', ''members...''] ''ZRem'' [''ctx'', ''key'', ''members...''],
    Forward ''ZRemRangeByRank'' [''ctx'', ''key'', ''start'', ''stop''] ''ZRemRangeByRank'' [''ctx'', ''key'', ''start'', ''stop''],
    Forward ''ZRemRangeByScore'' [''ctx'', ''key'', ''minimum'', ''maximum''] ''ZRemRangeByScore'' [''ctx'', ''key'', ''minimum'', ''maximum''],
    Forward ''ZRemRangeByLex'' [''ctx'', ''key'', ''minimum'', ''maximum''] ''ZRemRangeByLex'' [''ctx'', ''key'', ''minimum'', ''maximum''],
    Forward ''ZRevRange'' [''ctx'', ''key'', ''start'', ''stop''] ''ZRevRange'' [''ctx'', ''key'', ''start'', ''stop''],
    Forward ''ZRevRangeWithScores'' [''ctx'', ''key'', ''start'', ''stop''] ''ZRevRangeWithScores'' [''ctx'', ''key'', ''start'', ''stop''],
    Forward ''ZRevRangeByScore'' [''ctx'', ''key'', ''opt''] ''ZRevRangeByScore'' [''ctx'', ''key'', ''opt''],
    Forward ''ZRevRangeByLex'' [''ctx'', ''key'', ''opt''] ''ZRevRangeByLex'' [''ctx'', ''key'', ''opt''],
    Forward ''ZRevRangeByScoreWithScores'' [''ctx'', ''key'', ''opt''] ''ZRevRangeByScoreWithScores'' [''ctx'', ''key'', ''opt''],
    Forward ''ZRevRank'' [''ctx'', ''key'', ''member''] ''ZRevRank'' [''ctx'', ''key'', ''member''],
    Forward ''ZRevRankWithScore'' [''ctx'', ''key'', ''member''] ''ZRevRankWithScore'' [''ctx'', ''key'', ''member''],
    Forward ''ZScore'' [''ctx'', ''key'', ''member''] ''ZScore'' [''ctx'', ''key'', ''member''],
    Forward ''ZUnionStore'' [''ctx'', ''dest'', ''store''] ''ZUnionStore'' [''ctx'', ''dest'', ''store''],
    Forward ''ZRandMember'' [''ctx'', ''key'', ''count''] ''ZRandMember'' [''ctx'', ''key'', ''count''],
    Forward ''ZRandMemberWithScores'' [''ctx'', ''key'', ''count''] ''ZRandMemberWithScores'' [''ctx'', ''key'', ''count''],
    Forward ''ZUnion'' [''ctx'', ''store''] ''ZUnion'' [''ctx'', ''store''],
    Forward ''ZUnionWithScores'' [''ctx'', ''store''] ''ZUnionWithScores'' [''ctx'', ''store''],
    Forward ''ZDiff'' [''ctx'', ''keys...''] ''ZDiff'' [''ctx'', ''keys...''],
    Forward ''ZDiffWithScores'' [''ctx'', ''keys...''] ''ZDiffWithScores'' [''ctx'', ''keys...''],
    Forward ''ZDiffStore'' [''ctx'', ''destination'', ''keys...''] ''ZDiffStore'' [''ctx'', ''destination'', ''keys...''],
    Forward ''PFAdd'' [''ctx'', ''key'', ''els...''] ''PFAdd'' [''ctx'', ''key'', ''els...''],
    Forward ''PFCount'' [''ctx'', ''keys...''] ''PFCount'' [''ctx'', ''keys...''],
    Forward ''PFMerge'' [''ctx'', ''dest'', ''keys...''] ''PFMerge'' [''ctx'', ''dest'', ''keys...''],
    Forward ''BgRewriteAOF'' [''ctx''] ''BgRewriteAOF'' [''ctx''],
    Forward ''BgSave'' [''ctx''] ''BgSave'' [''ctx''],
    Forward ''ClientKill'' [''ctx'', ''ipPort''] ''ClientKill'' [''ctx'', ''ipPort''],
    Forward ''ClientKillByFilter'' [''ctx'', ''keys...''] ''ClientKillByFilter'' [''ctx'', ''keys...''],
    Forward ''ClientList'' [''ctx''] ''ClientList'' [''ctx''],
    Forward ''ClientInfo'' [''ctx''] ''ClientInfo'' [''ctx''],
    Forward ''ClientPause'' [''ctx'', ''dur''] ''ClientPause'' [''ctx'', ''dur''],
    Forward ''ClientUnpause'' [''ctx''] ''ClientUnpause'' [''ctx''],
    Forward ''ClientID'' [''ctx''] ''ClientID'' [''ctx''],
    Forward ''ClientUnblock'' [''ctx'', ''id''] ''ClientUnblock'' [''ctx'', ''id''],
    Forward ''ClientUnblockWithError'' [''ctx'', ''id''] ''ClientUnblockWithError'' [''ctx'', ''id''],
    Forward ''ConfigGet'' [''ctx'', ''parameter''] ''ConfigGet'' [''ctx'', ''parameter''],
    Forward ''ConfigResetStat'' [''ctx''] ''ConfigResetStat'' [''ctx'']]"

definition forward_ConfigSet :: "proxy_method list" where
  "forward_ConfigSet = [
    Forward ''ConfigSet'' [''ctx'', ''parameter'', ''value''] ''ConfigSet'' [''ctx'', ''parameter'', ''value''],
    Forward ''ConfigRewrite'' [''ctx''] ''ConfigRewrite'' [''ctx''],
    Forward ''DBSize'' [''ctx''] ''DBSize'' [''ctx''],
    Forward ''FlushAll'' [''ctx''] ''FlushAll'' [''ctx''],
    Forward ''FlushAllAsync'' [''ctx''] ''FlushAllAsync'' [''ctx''],
    Forward ''FlushDB'' [''ctx''] ''FlushDB'' [''ctx''],
    Forward ''FlushDBAsync'' [''ctx''] ''FlushDBAsync'' [''ctx''],
    Forward ''Info'' [''ctx'', ''section...''] ''Info'' [''ctx'', ''section...''],
    Forward ''LastSave'' [''ctx''] ''LastSave'' [''ctx''],
    Forward ''Latency'' [''ctx''] ''Latency'' [''ctx''],
    Forward ''LatencyReset'' [''ctx'', ''events...''] ''LatencyReset'' [''ctx'', ''events...''],
    Forward ''Save'' [''ctx''] ''Save'' [''ctx''],
    Forward ''Shutdown'' [''ctx''] ''Shutdown'' [''ctx''],
    Forward ''ShutdownSave'' [''ctx''] ''ShutdownSave'' [''ctx''],
    Forward ''ShutdownNoSave'' [''ctx''] ''ShutdownNoSave'' [''ctx''],
    Forward ''SlaveOf'' [''ctx'', ''host'', ''port''] ''SlaveOf'' [''ctx'', ''host'', ''port''],
    Forward ''SlowLogGet'' [''ctx'', ''num''] ''SlowLogGet'' [''ctx'', ''num''],
    Forward ''SlowLogLen'' [''ctx''] ''SlowLogLen'' [''ctx''],
    Forward ''SlowLogReset'' [''ctx''] ''SlowLogReset'' [''ctx''],
    Forward ''Time'' [''ctx''] ''Time'' [''ctx''],
    Forward ''DebugObject'' [''ctx'', ''key''] ''DebugObject'' [''ctx'', ''key''],
    Forward ''ReadOnly'' [''ctx''] ''ReadOnly'' [''ctx''],
    Forward ''ReadWrite'' [''ctx''] ''ReadWrite'' [''ctx''],
    Forward ''MemoryUsage'' [''ctx'', ''key'', ''samples...''] ''MemoryUsage'' [''ctx'', ''key'', ''samples...''],
    Forward ''Eval'' [''ctx'', ''script'', ''keys'', ''args...''] ''Eval'' [''ctx'', ''script'', ''keys'', ''args...''],
    Forward ''EvalSha'' [''ctx'', ''sha1'', ''keys'', ''args...''] ''EvalSha'' [''ctx'', ''sha1'', ''keys'', ''args...''],
    Forward ''EvalRO'' [''ctx'', ''script'', ''keys'', ''args...''] ''EvalRO'' [''ctx'', ''script'', ''keys'', ''args...''],
    Forward ''EvalShaRO'' [''ctx'', ''sha1'', ''keys'', ''args...''] ''EvalShaRO'' [''ctx'', ''sha1'', ''keys'', ''args...''],
    Forward ''ScriptExists'' [''ctx'', ''hashes...''] ''ScriptExists'' [''ctx'', ''hashes...''],
    Forward ''ScriptFlush'' [''ctx''] ''ScriptFlush'' [''ctx''],
    Forward ''ScriptKill'' [''ctx''] ''ScriptKill'' [''ctx''],
    Forward ''ScriptLoad'' [''ctx'', ''script''] ''ScriptLoad'' [''ctx'', ''script''],
    Forward ''FunctionLoad'' [''ctx'', ''code''] ''FunctionLoad'' [''ctx'', ''code''],
    Forward ''FunctionLoadReplace'' [''ctx'', ''code''] ''FunctionLoadReplace'' [''ctx'', ''code''],
    Forward ''FunctionDelete'' [''ctx'', ''libName''] ''FunctionDelete'' [''ctx'', ''libName''],
    Forward ''FunctionFlush'' [''ctx''] ''FunctionFlush'' [''ctx''],
    Forward ''FunctionKill'' [''ctx''] ''FunctionKill'' [''ctx'']]"

definition forward_FunctionFlushAsync :: "proxy_method list" where
  "forward_FunctionFlushAsync = [
    Forward ''FunctionFlushAsync'' [''ctx''] ''FunctionFlushAsync'' [''ctx''],
    Forward ''FunctionList'' [''ctx'', ''q''] ''FunctionList'' [''ctx'', ''q''],
    Forward ''FunctionDump'' [''ctx''] ''FunctionDump'' [''ctx''],
    Forward ''FunctionRestore'' [''ctx'', ''libDump''] ''FunctionRestore'' [''ctx'', ''libDump''],
    Forward ''FunctionStats'' [''ctx''] ''FunctionStats'' [''ctx''],
    Forward ''FCall'' [''ctx'', ''function'', ''keys'', ''args...''] ''FCall'' [''ctx'', ''function'', ''keys'', ''args...''],
    Forward ''FCallRo'' [''ctx'', ''function'', ''keys'', ''args...''] ''FCallRo'' [''ctx'', ''function'', ''keys'', ''args...''],
    Forward ''FCallRO'' [''ctx'', ''function'', ''keys'', ''args...''] ''FCallRO'' [''ctx'', ''function'', ''keys'', ''args...''],
    Forward ''Publish'' [''ctx'', ''channel'', ''message''] ''Publish'' [''ctx'', ''channel'', ''message''],
    Forward ''SPublish'' [''ctx'', ''channel'', ''message''] ''SPublish'' [''ctx'', ''channel'', ''message''],
    Forward ''PubSubChannels'' [''ctx'', ''pattern''] ''PubSubChannels'' [''ctx'', ''pattern''],
    Forward ''PubSubNumSub'' [''ctx'', ''channels...''] ''PubSubNumSub'' [''ctx'', ''channels...''],
    Forward ''PubSubNumPat'' [''ctx''] ''PubSubNumPat'' [''ctx''],
    Forward ''PubSubShardChannels'' [''ctx'', ''pattern''] ''PubSubShardChannels'' [''ctx'', ''pattern''],
    Forward ''PubSubShardNumSub'' [''ctx'', ''channels...''] ''PubSubShardNumSub'' [''ctx'', ''channels...''],
    Forward ''ClusterMyShardID'' [''ctx''] ''ClusterMyShardID'' [''ctx''],
    Forward ''ClusterSlots'' [''ctx''] ''ClusterSlots'' [''ctx''],
    Forward ''ClusterShards'' [''ctx''] ''ClusterShards'' [''ctx''],
    Forward ''ClusterLinks'' [''ctx''] ''ClusterLinks'' [''ctx''],
    Forward ''ClusterNodes'' [''ctx''] ''ClusterNodes'' [''ctx''],
    Forward ''ClusterMeet'' [''ctx'', ''host'', ''port''] ''ClusterMeet'' [''ctx'', ''host'', ''port''],
    Forward ''ClusterForget'' [''ctx'', ''nodeID''] ''ClusterForget'' [''ctx'', ''nodeID''],
    Forward ''ClusterReplicate'' [''ctx'', ''nodeID''] ''ClusterReplicate'' [''ctx'', ''nodeID''],
    Forward ''ClusterResetSoft'' [''ctx''] ''ClusterResetSoft'' [''ctx''],
    Forward ''ClusterResetHard'' [''ctx''] ''ClusterResetHard'' [''ctx''],
    Forward ''ClusterInfo'' [''ctx''] ''ClusterInfo'' [''ctx''],
    Forward ''ClusterKeySlot'' [''ctx'', ''key''] ''ClusterKeySlot'' [''ctx'', ''key''],
    Forward ''ClusterGetKeysInSlot'' [''ctx'', ''slot'', ''count''] ''ClusterGetKeysInSlot'' [''ctx'', ''slot'', ''count''],
    Forward ''ClusterCountFailureReports'' [''ctx'', ''nodeID''] ''ClusterCountFailureReports'' [''ctx'', ''nodeID''],
    Forward ''ClusterCountKeysInSlot'' [''ctx'', ''slot''] ''ClusterCountKeysInSlot'' [''ctx'', ''slot''],
    Forward ''ClusterDelSlots'' [''ctx'', ''slots...''] ''ClusterDelSlots'' [''ctx'', ''slots...''],
    Forward ''ClusterDelSlotsRange'' [''ctx'', ''minimum'', ''maximum''] ''ClusterDelSlotsRange'' [''ctx'', ''minimum'', ''maximum''],
    Forward ''ClusterSaveConfig'' [''ctx''] ''ClusterSaveConfig'' [''ctx''],
    Forward ''ClusterSlaves'' [''ctx'', ''nodeID''] ''ClusterSlaves'' [''ctx'', ''nodeID''],
    Forward ''ClusterFailover'' [''ctx''] ''ClusterFailover'' [''ctx''],
    Forward ''ClusterAddSlots'' [''ctx'', ''slots...''] ''ClusterAddSlots'' [''ctx'', ''slots...''],
    Forward ''ClusterAddSlotsRange'' [''ctx'', ''mininum'', ''maximum''] ''ClusterAddSlotsRange'' [''ctx'', ''mininum'', ''maximum'']]"

definition forward_GeoAdd :: "proxy_method list" where
  "forward_GeoAdd = [
    Forward ''GeoAdd'' [''ctx'', ''key'', ''geoLocation...''] ''GeoAdd'' [''ctx'', ''key'', ''geoLocation...''],
    Forward ''GeoPos'' [''ctx'', ''key'', ''members...''] ''GeoPos'' [''ctx'', ''key'', ''members...''],
    Forward ''GeoRadius'' [''ctx'', ''key'', ''longitude'', ''latitude'', ''query''] ''GeoRadius'' [''ctx'', ''key'', ''longitude'', ''latitude'', ''query''],
    Forward ''GeoRadiusStore'' [''ctx'', ''key'', ''longitude'', ''latitude'', ''query''] ''GeoRadiusStore'' [''ctx'', ''key'', ''longitude'', ''latitude'', ''query''],
    Forward ''GeoRadiusByMember'' [''ctx'', ''key'', ''member'', ''query''] ''GeoRadiusByMember'' [''ctx'', ''key'', ''member'', ''query''],
    Forward ''GeoRadiusByMemberStore'' [''ctx'', ''key'', ''member'', ''query''] ''GeoRadiusByMemberStore'' [''ctx'', ''key'', ''member'', ''query''],
    Forward ''GeoSearch'' [''ctx'', ''key'', ''q''] ''GeoSearch'' [''ctx'', ''key'', ''q''],
    Forward ''GeoSearchLocation'' [''ctx'', ''key'', ''q''] ''GeoSearchLocation'' [''ctx'', ''key'', ''q''],
    Forward ''GeoSearchStore'' [''ctx'', ''key'', ''store'', ''q''] ''GeoSearchStore'' [''ctx'', ''key'', ''store'', ''q''],
    Forward ''GeoDist'' [''ctx'', ''key'', ''member1'', ''member2'', ''unit''] ''GeoDist'' [''ctx'', ''key'', ''member1'', ''member2'', ''unit''],
    Forward ''GeoHash'' [''ctx'', ''key'', ''members...''] ''GeoHash'' [''ctx'', ''key'', ''members...''],
    Forward ''ACLDryRun'' [''ctx'', ''username'', ''command...''] ''ACLDryRun'' [''ctx'', ''username'', ''command...''],
    Forward ''ACLLog'' [''ctx'', ''count''] ''ACLLog'' [''ctx'', ''count''],
    Forward ''ACLLogReset'' [''ctx''] ''ACLLogReset'' [''ctx''],
    Forward ''ModuleLoadex'' [''ctx'', ''conf''] ''ModuleLoadex'' [''ctx'', ''conf''],
    Forward ''BFAdd'' [''ctx'', ''key'', ''element''] ''BFAdd'' [''ctx'', ''key'', ''element''],
    Forward ''BFCard'' [''ctx'', ''key''] ''BFCard'' [''ctx'', ''key''],
    Forward ''BFExists'' [''ctx'', ''key'', ''element''] ''BFExists'' [''ctx'', ''key'', ''element''],
    Forward ''BFInfo'' [''ctx'', ''key''] ''BFInfo'' [''ctx'', ''key''],
    Forward ''BFInfoArg'' [''ctx'', ''key'', ''option''] ''BFInfoArg'' [''ctx'', ''key'', ''option''],
    Forward ''BFInfoCapacity'' [''ctx'', ''key''] ''BFInfoCapacity'' [''ctx'', ''key''],
    Forward ''BFInfoSize'' [''ctx'', ''key''] ''BFInfoSize'' [''ctx'', ''key''],
    Forward ''BFInfoFilters'' [''ctx'', ''key''] ''BFInfoFilters'' [''ctx'', ''key''],
    Forward ''BFInfoItems'' [''ctx'', ''key''] ''BFInfoItems'' [''ctx'', ''key''],
    Forward ''BFInfoExpansion'' [''ctx'', ''key''] ''BFInfoExpansion'' [''ctx'', ''key''],
    Forward ''BFInsert'' [''ctx'', ''key'', ''options'', ''elements...''] ''BFInsert'' [''ctx'', ''key'', ''options'', ''elements...''],
    Forward ''BFMAdd'' [''ctx'', ''key'', ''elements...''] ''BFMAdd'' [''ctx'', ''key'', ''elements...''],
    Forward ''BFMExists'' [''ctx'', ''key'', ''elements...''] ''BFMExists'' [''ctx'', ''key'', ''elements...''],
    Forward ''BFReserve'' [''ctx'', ''key'', ''errorRate'', ''capacity''] ''BFReserve'' [''ctx'', ''key'', ''errorRate'', ''capacity''],
    Forward ''BFReserveExpansion'' [''ctx'', ''key'', ''errorRate'', ''capacity'', ''expansion''] ''BFReserveExpansion'' [''ctx'', ''key'', ''errorRate'', ''capacity'', ''expansion''],
    Forward ''BFReserveNonScaling'' [''ctx'', ''key'', ''errorRate'', ''capacity''] ''BFReserveNonScaling'' [''ctx'', ''key'', ''errorRate'', ''capacity''],
    Forward ''BFReserveWithArgs'' [''ctx'', ''key'', ''options''] ''BFReserveWithArgs'' [''ctx'', ''key'', ''options''],
    Forward ''BFScanDump'' [''ctx'', ''key'', ''iterator''] ''BFScanDump'' [''ctx'', ''key'', ''iterator''],
    Forward ''BFLoadChunk'' [''ctx'', ''key'', ''iterator'', ''data''] ''BFLoadChunk'' [''ctx'', ''key'', ''iterator'', ''data''],
    Forward ''CFAdd'' [''ctx'', ''key'', ''element''] ''CFAdd'' [''ctx'', ''key'', ''element''],
    Forward ''CFAddNX'' [''ctx'', ''key'', ''element''] ''CFAddNX'' [''ctx'', ''key'', ''element''],
    Forward ''CFCount'' [''ctx'', ''key'', ''element''] ''CFCount'' [''ctx'', ''key'', ''element'']]"

definition forward_CFDel :: "proxy_method list" where
  "forward_CFDel = [
    Forward ''CFDel'' [''ctx'', ''key'', ''element''] ''CFDel'' [''ctx'', ''key'', ''element''],
    Forward ''CFExists'' [''ctx'', ''key'', ''element''] ''CFExists'' [''ctx'', ''key'', ''element''],
    Forward ''CFInfo'' [''ctx'', ''key''] ''CFInfo'' [''ctx'', ''key''],
    Forward ''CFInsert'' [''ctx'', ''key'', ''options'', ''elements...''] ''CFInsert'' [''ctx'', ''key'', ''options'', ''elements...''],
    Forward ''CFInsertNX'' [''ctx'', ''key'', ''options'', ''elements...''] ''CFInsertNX'' [''ctx'', ''key'', ''options'', ''elements...''],
    Forward ''CFMExists'' [''ctx'', ''key'', ''elements...''] ''CFMExists'' [''ctx'', ''key'', ''elements...''],
    Forward ''CFReserve'' [''ctx'', ''key'', ''capacity''] ''CFReserve'' [''ctx'', ''key'', ''capacity''],
    Forward ''CFReserveWithArgs'' [''ctx'', ''key'', ''options''] ''CFReserveWithArgs'' [''ctx'', ''key'', ''options''],
    Forward ''CFReserveExpansion'' [''ctx'', ''key'', ''capacity'', ''expansion''] ''CFReserveExpansion'' [''ctx'', ''key'', ''capacity'', ''expansion''],
    Forward ''CFReserveBucketSize'' [''ctx'', ''key'', ''capacity'', ''bucketsize''] ''CFReserveBucketSize'' [''ctx'', ''key'', ''capacity'', ''bucketsize''],
    Forward ''CFReserveMaxIterations'' [''ctx'', ''key'', ''capacity'', ''maximumiterations''] ''CFReserveMaxIterations'' [''ctx'', ''key'', ''capacity'', ''maximumiterations''],
    Forward ''CFScanDump'' [''ctx'', ''key'', ''iterator''] ''CFScanDump'' [''ctx'', ''key'', ''iterator''],
    Forward ''CFLoadChunk'' [''ctx'', ''key'', ''iterator'', ''data''] ''CFLoadChunk'' [''ctx'', ''key'', ''iterator'', ''data''],
    Forward ''CMSIncrBy'' [''ctx'', ''key'', ''elements...''] ''CMSIncrBy'' [''ctx'', ''key'', ''elements...''],
    Forward ''CMSInfo'' [''ctx'', ''key''] ''CMSInfo'' [''ctx'', ''key''],
    Forward ''CMSInitByDim'' [''ctx'', ''key'', ''width'', ''height''] ''CMSInitByDim'' [''ctx'', ''key'', ''width'', ''height''],
    Forward ''CMSInitByProb'' [''ctx'', ''key'', ''errorRate'', ''probability''] ''CMSInitByProb'' [''ctx'', ''key'', ''errorRate'', ''probability''],
    Forward ''CMSMerge'' [''ctx'', ''destKey'', ''sourceKeys...''] ''CMSMerge'' [''ctx'', ''destKey'', ''sourceKeys...''],
    Forward ''CMSMergeWithWeight'' [''ctx'', ''destKey'', ''sourceKeys''] ''CMSMergeWithWeight'' [''ctx'', ''destKey'', ''sourceKeys''],
    Forward ''CMSQuery'' [''ctx'', ''key'', ''elements...''] ''CMSQuery'' [''ctx'', ''key'', ''elements...''],
    Forward ''TopKAdd'' [''ctx'', ''key'', ''elements...''] ''TopKAdd'' [''ctx'', ''key'', ''elements...''],
    Forward ''TopKCount'' [''ctx'', ''key'', ''elements...''] ''TopKCount'' [''ctx'', ''key'', ''elements...''],
    Forward ''TopKIncrBy'' [''ctx'', ''key'', ''elements...''] ''TopKIncrBy'' [''ctx'', ''key'', ''elements...''],
    Forward ''TopKInfo'' [''ctx'', ''key''] ''TopKInfo'' [''ctx'', ''key''],
    Forward ''TopKList'' [''ctx'', ''key''] ''TopKList'' [''ctx'', ''key''],
    Forward ''TopKListWithCount'' [''ctx'', ''key''] ''TopKListWithCount'' [''ctx'', ''key''],
    Forward ''TopKQuery'' [''ctx'', ''key'', ''elements...''] ''TopKQuery'' [''ctx'', ''key'', ''elements...''],
    Forward ''TopKReserve'' [''ctx'', ''key'', ''k''] ''TopKReserve'' [''ctx'', ''key'', ''k''],
    Forward ''TopKReserveWithOptions'' [''ctx'', ''key'', ''k'', ''width'', ''depth'', ''decay''] ''TopKReserveWithOptions'' [''ctx'', ''key'', ''k'', ''width'', ''depth'', ''decay''],
    Forward ''TDigestAdd'' [''ctx'', ''key'', ''elements...''] ''TDigestAdd'' [''ctx'', ''key'', ''elements...''],
    Forward ''TDigestByRank'' [''ctx'', ''key'', ''rank...''] ''TDigestByRank'' [''ctx'', ''key'', ''rank...''],
    Forward ''TDigestByRevRank'' [''ctx'', ''key'', ''rank...''] ''TDigestByRevRank'' [''ctx'', ''key'', ''rank...''],
    Forward ''TDigestCDF'' [''ctx'', ''key'', ''elements...''] ''TDigestCDF'' [''ctx'', ''key'', ''elements...''],
    Forward ''TDigestCreate'' [''ctx'', ''key''] ''TDigestCreate'' [''ctx'', ''key''],
    Forward ''TDigestCreateWithCompression'' [''ctx'', ''key'', ''compression''] ''TDigestCreateWithCompression'' [''ctx'', ''key'', ''compression''],
    Forward ''TDigestInfo'' [''ctx'', ''key''] ''TDigestInfo'' [''ctx'', ''key''],
    Forward ''TDigestMax'' [''ctx'', ''key''] ''TDigestMax'' [''ctx'', ''key'']]"

definition forward_TDigestMin :: "proxy_method list" where
  "forward_TDigestMin = [
    Forward ''TDigestMin'' [''ctx'', ''key''] ''TDigestMin'' [''ctx'', ''key''],
    Forward ''TDigestMerge'' [''ctx'', ''destKey'', ''options'', ''sourceKeys...''] ''TDigestMerge'' [''ctx'', ''destKey'', ''options'', ''sourceKeys...''],
    Forward ''TDigestQuantile'' [''ctx'', ''key'', ''elements...''] ''TDigestQuantile'' [''ctx'', ''key'', ''elements...''],
    Forward ''TDigestRank'' [''ctx'', ''key'', ''values...''] ''TDigestRank'' [''ctx'', ''key'', ''values...''],
    Forward ''TDigestReset'' [''ctx'', ''key''] ''TDigestReset'' [''ctx'', ''key''],
    Forward ''TDigestRevRank'' [''ctx'', ''key'', ''values...''] ''TDigestRevRank'' [''ctx'', ''key'', ''values...''],
    Forward ''TDigestTrimmedMean'' [''ctx'', ''key'', ''lowCutQuantile'', ''highCutQuantile''] ''TDigestTrimmedMean'' [''ctx'', ''key'', ''lowCutQuantile'', ''highCutQuantile''],
    Forward ''JSONArrAppend'' [''ctx'', ''key'', ''path'', ''values...''] ''JSONArrAppend'' [''ctx'', ''key'', ''path'', ''values...''],
    Forward ''JSONArrIndex'' [''ctx'', ''key'', ''path'', ''values...''] ''JSONArrIndex'' [''ctx'', ''key'', ''path'', ''values...''],
    Forward ''JSONArrInsert'' [''ctx'', ''key'', ''path'', ''index'', ''values...''] ''JSONArrInsert'' [''ctx'', ''key'', ''path'', ''index'', ''values...''],
    Forward ''JSONArrLen'' [''ctx'', ''key'', ''path''] ''JSONArrLen'' [''ctx'', ''key'', ''path''],
    Forward ''JSONGet'' [''ctx'', ''key'', ''paths...''] ''JSONGet'' [''ctx'', ''key'', ''paths...''],
    Forward ''JSONSet'' [''ctx'', ''key'', ''path'', ''value''] ''JSONSet'' [''ctx'', ''key'', ''path'', ''value''],
    Forward ''JSONDel'' [''ctx'', ''key'', ''path''] ''JSONDel'' [''ctx'', ''key'', ''path''],
    Forward ''JSONMGet'' [''ctx'', ''path'', ''keys...''] ''JSONMGet'' [''ctx'', ''path'', ''keys...''],
    Forward ''JSONMSet'' [''ctx'', ''values...''] ''JSONMSet'' [''ctx'', ''values...''],
    Forward ''JSONArrIndexWithArgs'' [''ctx'', ''key'', ''path'', ''options'', ''value...''] ''JSONArrIndexWithArgs'' [''ctx'', ''key'', ''path'', ''options'', ''value...''],
    Forward ''JSONArrPop'' [''ctx'', ''key'', ''path'', ''index''] ''JSONArrPop'' [''ctx'', ''key'', ''path'', ''index''],
    Forward ''JSONArrTrim'' [''ctx'', ''key'', ''path''] ''JSONArrTrim'' [''ctx'', ''key'', ''path''],
    Forward ''JSONArrTrimWithArgs'' [''ctx'', ''key'', ''path'', ''options''] ''JSONArrTrimWithArgs'' [''ctx'', ''key'', ''path'', ''options''],
    Forward ''JSONClear'' [''ctx'', ''key'', ''path''] ''JSONClear'' [''ctx'', ''key'', ''path''],
    Forward ''JSONDebugMemory'' [''ctx'', ''key'', ''path''] ''JSONDebugMemory'' [''ctx'', ''key'', ''path''],
    Forward ''JSONForget'' [''ctx'', ''key'', ''path''] ''JSONForget'' [''ctx'', ''key'', ''path''],
    Forward ''JSONGetWithArgs'' [''ctx'', ''key'', ''options'', ''paths...''] ''JSONGetWithArgs'' [''ctx'', ''key'', ''options'', ''paths...''],
    Forward ''JSONMerge'' [''ctx'', ''key'', ''path'', ''value''] ''JSONMerge'' [''ctx'', ''key'', ''path'', ''value''],
    Forward ''JSONMSetArgs'' [''ctx'', ''docs''] ''JSONMSetArgs'' [''ctx'', ''docs''],
    Forward ''JSONNumIncrBy'' [''ctx'', ''key'', ''path'', ''value''] ''JSONNumIncrBy'' [''ctx'', ''key'', ''path'', ''value''],
    Forward ''JSONObjKeys'' [''ctx'', ''key'', ''path''] ''JSONObjKeys'' [''ctx'', ''key'', ''path''],
    Forward ''JSONObjLen'' [''ctx'', ''key'', ''path''] ''JSONObjLen'' [''ctx'', ''key'', ''path''],
    Forward ''JSONSetMode'' [''ctx'', ''key'', ''path'', ''value'', ''mode''] ''JSONSetMode'' [''ctx'', ''key'', ''path'', ''value'', ''mode''],
    Forward ''JSONStrAppend'' [''ctx'', ''key'', ''path'', ''value''] ''JSONStrAppend'' [''ctx'', ''key'', ''path'', ''value''],
    Forward ''JSONStrLen'' [''ctx'', ''key'', ''path''] ''JSONStrLen'' [''ctx'', ''key'', ''path''],
    Forward ''JSONToggle'' [''ctx'', ''key'', ''path''] ''JSONToggle'' [''ctx'', ''key'', ''path''],
    Forward ''JSONType'' [''ctx'', ''key'', ''path''] ''JSONType'' [''ctx'', ''key'', ''path''],
    Forward ''TSAdd'' [''ctx'', ''key'', ''timestamp'', ''value''] ''TSAdd'' [''ctx'', ''key'', ''timestamp'', ''value''],
    Forward ''TSAddWithArgs'' [''ctx'', ''key'', ''timestamp'', ''value'', ''options''] ''TSAddWithArgs'' [''ctx'', ''key'', ''timestamp'', ''value'', ''options''],
    Forward ''TSCreate'' [''ctx'', ''key''] ''TSCreate'' [''ctx'', ''key'']]"

definition forward_TSCreateWithArgs :: "proxy_method list" where
  "forward_TSCreateWithArgs = [
    Forward ''TSCreateWithArgs'' [''ctx'', ''key'', ''options''] ''TSCreateWithArgs'' [''ctx'', ''key'', ''options''],
    Forward ''TSAlter'' [''ctx'', ''key'', ''options''] ''TSAlter'' [''ctx'', ''key'', ''options''],
    Forward ''TSCreateRule'' [''ctx'', ''sourceKey'', ''destKey'', ''aggregator'', ''bucketDuration''] ''TSCreateRule'' [''ctx'', ''sourceKey'', ''destKey'', ''aggregator'', ''bucketDuration''],
    Forward ''TSCreateRuleWithArgs'' [''ctx'', ''sourceKey'', ''destKey'', ''aggregator'', ''bucketDuration'', ''options''] ''TSCreateRuleWithArgs'' [''ctx'', ''sourceKey'', ''destKey'', ''aggregator'', ''bucketDuration'', ''options''],
    Forward ''TSIncrBy'' [''ctx'', ''key'', ''timestamp''] ''TSIncrBy'' [''ctx'', ''key'', ''timestamp''],
    Forward ''TSIncrByWithArgs'' [''ctx'', ''key'', ''timestamp'', ''options''] ''TSIncrByWithArgs'' [''ctx'', ''key'', ''timestamp'', ''options''],
    Forward ''TSDecrBy'' [''ctx'', ''key'', ''timestamp''] ''TSDecrBy'' [''ctx'', ''key'', ''timestamp''],
    Forward ''TSDecrByWithArgs'' [''ctx'', ''key'', ''timestamp'', ''options''] ''TSDecrByWithArgs'' [''ctx'', ''key'', ''timestamp'', ''options''],
    Forward ''TSDel'' [''ctx'', ''key'', ''fromTimestamp'', ''toTimestamp''] ''TSDel'' [''ctx'', ''key'', ''fromTimestamp'', ''toTimestamp''],
    Forward ''TSDeleteRule'' [''ctx'', ''sourceKey'', ''destKey''] ''TSDeleteRule'' [''ctx'', ''sourceKey'', ''destKey''],
    Forward ''TSGet'' [''ctx'', ''key''] ''TSGet'' [''ctx'', ''key''],
    Forward ''TSGetWithArgs'' [''ctx'', ''key'', ''options''] ''TSGetWithArgs'' [''ctx'', ''key'', ''options''],
    Forward ''TSInfo'' [''ctx'', ''key''] ''TSInfo'' [''ctx'', ''key''],
    Forward ''TSInfoWithArgs'' [''ctx'', ''key'', ''options''] ''TSInfoWithArgs'' [''ctx'', ''key'', ''options''],
    Forward ''TSMAdd'' [''ctx'', ''ktvSlices''] ''TSMAdd'' [''ctx'', ''ktvSlices''],
    Forward ''TSQueryIndex'' [''ctx'', ''filterExpr''] ''TSQueryIndex'' [''ctx'', ''filterExpr''],
    Forward ''TSRevRange'' [''ctx'', ''key'', ''fromTimestamp'', ''toTimestamp''] ''TSRevRange'' [''ctx'', ''key'', ''fromTimestamp'', ''toTimestamp''],
    Forward ''TSRevRangeWithArgs'' [''ctx'', ''key'', ''fromTimestamp'', ''toTimestamp'', ''options''] ''TSRevRangeWithArgs'' [''ctx'', ''key'', ''fromTimestamp'', ''toTimestamp'', ''options''],
    Forward ''TSRange'' [''ctx'', ''key'', ''fromTimestamp'', ''toTimestamp''] ''TSRange'' [''ctx'', ''key'', ''fromTimestamp'', ''toTimestamp''],
    Forward ''TSRangeWithArgs'' [''ctx'', ''key'', ''fromTimestamp'', ''toTimestamp'', ''options''] ''TSRangeWithArgs'' [''ctx'', ''key'', ''fromTimestamp'', ''toTimestamp'', ''options''],
    Forward ''TSMRange'' [''ctx'', ''fromTimestamp'', ''toTimestamp'', ''filterExpr''] ''TSMRange'' [''ctx'', ''fromTimestamp'', ''toTimestamp'', ''filterExpr''],
    Forward ''TSMRangeWithArgs'' [''ctx'', ''fromTimestamp'', ''toTimestamp'', ''filterExpr'', ''options''] ''TSMRangeWithArgs'' [''ctx'', ''fromTimestamp'', ''toTimestamp'', ''filterExpr'', ''options''],
    Forward ''TSMRevRange'' [''ctx'', ''fromTimestamp'', ''toTimestamp'', ''filterExpr''] ''TSMRevRange'' [''ctx'', ''fromTimestamp'', ''toTimestamp'', ''filterExpr''],
    Forward ''TSMRevRangeWithArgs'' [''ctx'', ''fromTimestamp'', ''toTimestamp'', ''filterExpr'', ''options''] ''TSMRevRangeWithArgs'' [''ctx'', ''fromTimestamp'', ''toTimestamp'', ''filterExpr'', ''options''],
    Forward ''TSMGet'' [''ctx'', ''filters''] ''TSMGet'' [''ctx'', ''filters''],
    Forward ''TSMGetWithArgs'' [''ctx'', ''filters'', ''options''] ''TSMGetWithArgs'' [''ctx'', ''filters'', ''options''],
    Forward ''ObjectFreq'' [''ctx'', ''key''] ''ObjectFreq'' [''ctx'', ''key''],
    Forward ''BitFieldRO'' [''ctx'', ''key'', ''values...''] ''BitFieldRO'' [''ctx'', ''key'', ''values...''],
    Forward ''HExpire'' [''ctx'', ''key'', ''expiration'', ''fields...''] ''HExpire'' [''ctx'', ''key'', ''expiration'', ''fields...''],
    Forward ''HExpireWithArgs'' [''ctx'', ''key'', ''expiration'', ''expirationArgs'', ''fields...''] ''HExpireWithArgs'' [''ctx'', ''key'', ''expiration'', ''expirationArgs'', ''fields...''],
    Forward ''HPExpire'' [''ctx'', ''key'', ''expiration'', ''fields...''] ''HPExpire'' [''ctx'', ''key'', ''expiration'', ''fields...''],
    Forward ''HPExpireWithArgs'' [''ctx'', ''key'', ''expiration'', ''expirationArgs'', ''fields...''] ''HPExpireWithArgs'' [''ctx'', ''key'', ''expiration'', ''expirationArgs'', ''fields...''],
    Forward ''HExpireAt'' [''ctx'', ''key'', ''tm'', ''fields...''] ''HExpireAt'' [''ctx'', ''key'', ''tm'', ''fields...''],
    Forward ''HExpireAtWithArgs'' [''ctx'', ''key'', ''tm'', ''expirationArgs'', ''fields...''] ''HExpireAtWithArgs'' [''ctx'', ''key'', ''tm'', ''expirationArgs'', ''fields...''],
    Forward ''HPExpireAt'' [''ctx'', ''key'', ''tm'', ''fields...''] ''HPExpireAt'' [''ctx'', ''key'', ''tm'', ''fields...'']]"

definition forward_HPExpireAtWithArgs :: "proxy_method list" where
  "forward_HPExpireAtWithArgs = [
    Forward ''HPExpireAtWithArgs'' [''ctx'', ''key'', ''tm'', ''expirationArgs'', ''fields...''] ''HPExpireAtWithArgs'' [''ctx'', ''key'', ''tm'', ''expirationArgs'', ''fields...''],
    Forward ''HPersist'' [''ctx'', ''key'', ''fields...''] ''HPersist'' [''ctx'', ''key'', ''fields...''],
    Forward ''HExpireTime'' [''ctx'', ''key'', ''fields...''] ''HExpireTime'' [''ctx'', ''key'', ''fields...''],
    Forward ''HPExpireTime'' [''ctx'', ''key'', ''fields...''] ''HPExpireTime'' [''ctx'', ''key'', ''fields...''],
    Forward ''HTTL'' [''ctx'', ''key'', ''fields...''] ''HTTL'' [''ctx'', ''key'', ''fields...''],
    Forward ''HPTTL'' [''ctx'', ''key'', ''fields...''] ''HPTTL'' [''ctx'', ''key'', ''fields...''],
    Forward ''FT_List'' [''ctx''] ''FT_List'' [''ctx''],
    Forward ''FTAggregate'' [''ctx'', ''index'', ''query''] ''FTAggregate'' [''ctx'', ''index'', ''query''],
    Forward ''FTAggregateWithArgs'' [''ctx'', ''index'', ''query'', ''options''] ''FTAggregateWithArgs'' [''ctx'', ''index'', ''query'', ''options''],
    Forward ''FTAliasAdd'' [''ctx'', ''index'', ''alias''] ''FTAliasAdd'' [''ctx'', ''index'', ''alias''],
    Forward ''FTAliasDel'' [''ctx'', ''alias''] ''FTAliasDel'' [''ctx'', ''alias''],
    Forward ''FTAliasUpdate'' [''ctx'', ''index'', ''alias''] ''FTAliasUpdate'' [''ctx'', ''index'', ''alias''],
    Forward ''FTAlter'' [''ctx'', ''index'', ''skipInitialScan'', ''definition''] ''FTAlter'' [''ctx'', ''index'', ''skipInitialScan'', ''definition''],
    Forward ''FTConfigGet'' [''ctx'', ''option''] ''FTConfigGet'' [''ctx'', ''option''],
    Forward ''FTConfigSet'' [''ctx'', ''option'', ''value''] ''FTConfigSet'' [''ctx'', ''option'', ''value''],
    Forward ''FTCreate'' [''ctx'', ''index'', ''options'', ''schema...''] ''FTCreate'' [''ctx'', ''index'', ''options'', ''schema...''],
    Forward ''FTCursorDel'' [''ctx'', ''index'', ''cursorId''] ''FTCursorDel'' [''ctx'', ''index'', ''cursorId''],
    Forward ''FTCursorRead'' [''ctx'', ''index'', ''cursorId'', ''count''] ''FTCursorRead'' [''ctx'', ''index'', ''cursorId'', ''count''],
    Forward ''FTDictAdd'' [''ctx'', ''dict'', ''term...''] ''FTDictAdd'' [''ctx'', ''dict'', ''term...''],
    Forward ''FTDictDel'' [''ctx'', ''dict'', ''term...''] ''FTDictDel'' [''ctx'', ''dict'', ''term...''],
    Forward ''FTDictDump'' [''ctx'', ''dict''] ''FTDictDump'' [''ctx'', ''dict''],
    Forward ''FTDropIndex'' [''ctx'', ''index''] ''FTDropIndex'' [''ctx'', ''index''],
    Forward ''FTDropIndexWithArgs'' [''ctx'', ''index'', ''options''] ''FTDropIndexWithArgs'' [''ctx'', ''index'', ''options''],
    Forward ''FTExplain'' [''ctx'', ''index'', ''query''] ''FTExplain'' [''ctx'', ''index'', ''query''],
    Forward ''FTExplainWithArgs'' [''ctx'', ''index'', ''query'', ''options''] ''FTExplainWithArgs'' [''ctx'', ''index'', ''query'', ''options''],
    Forward ''FTExplainCli'' [''ctx'', ''key'', ''path''] ''FTExplainCli'' [''ctx'', ''key'', ''path''],
    Forward ''FTHybrid'' [''ctx'', ''index'', ''searchExpr'', ''vectorField'', ''vectorData''] ''FTHybrid'' [''ctx'', ''index'', ''searchExpr'', ''vectorField'', ''vectorData''],
    Forward ''FTHybridWithArgs'' [''ctx'', ''index'', ''options''] ''FTHybridWithArgs'' [''ctx'', ''index'', ''options''],
    Forward ''FTInfo'' [''ctx'', ''index''] ''FTInfo'' [''ctx'', ''index''],
    Forward ''FTSpellCheck'' [''ctx'', ''index'', ''query''] ''FTSpellCheck'' [''ctx'', ''index'', ''query''],
    Forward ''FTSpellCheckWithArgs'' [''ctx'', ''index'', ''query'', ''options''] ''FTSpellCheckWithArgs'' [''ctx'', ''index'', ''query'', ''options''],
    Forward ''FTSearch'' [''ctx'', ''index'', ''query''] ''FTSearch'' [''ctx'', ''index'', ''query''],
    Forward ''FTSearchWithArgs'' [''ctx'', ''index'', ''query'', ''options''] ''FTSearchWithArgs'' [''ctx'', ''index'', ''query'', ''options''],
    Forward ''FTSynDump'' [''ctx'', ''index''] ''FTSynDump'' [''ctx'', ''index''],
    Forward ''FTSynUpdate'' [''ctx'', ''index'', ''synGroupId'', ''terms''] ''FTSynUpdate'' [''ctx'', ''index'', ''synGroupId'', ''terms''],
    Forward ''FTSynUpdateWithArgs'' [''ctx'', ''index'', ''synGroupId'', ''options'', ''terms''] ''FTSynUpdateWithArgs'' [''ctx'', ''index'', ''synGroupId'', ''options'', ''terms'']]"

definition forward_FTTagVals :: "proxy_method list" where
  "forward_FTTagVals = [
    Forward ''FTTagVals'' [''ctx'', ''index'', ''field''] ''FTTagVals'' [''ctx'', ''index'', ''field''],
    Forward ''ACLCat'' [''ctx''] ''ACLCat'' [''ctx''],
    Forward ''ACLCatArgs'' [''ctx'', ''options''] ''ACLCatArgs'' [''ctx'', ''options''],
    Forward ''ACLDelUser'' [''ctx'', ''username''] ''ACLDelUser'' [''ctx'', ''username''],
    Forward ''ACLList'' [''ctx''] ''ACLList'' [''ctx''],
    Forward ''ACLGenPass'' [''ctx'', ''bit''] ''ACLGenPass'' [''ctx'', ''bit''],
    Forward ''ACLUsers'' [''ctx''] ''ACLUsers'' [''ctx''],
    Forward ''ACLWhoAmI'' [''ctx''] ''ACLWhoAmI'' [''ctx''],
    Forward ''ACLSetUser'' [''ctx'', ''username'', ''rules...''] ''ACLSetUser'' [''ctx'', ''username'', ''rules...''],
    Forward ''ClusterMyID'' [''ctx''] ''ClusterMyID'' [''ctx''],
    Forward ''HGetDel'' [''ctx'', ''key'', ''fields...''] ''HGetDel'' [''ctx'', ''key'', ''fields...''],
    Forward ''HGetEX'' [''ctx'', ''key'', ''fields...''] ''HGetEX'' [''ctx'', ''key'', ''fields...''],
    Forward ''HGetEXWithArgs'' [''ctx'', ''key'', ''options'', ''fields...''] ''HGetEXWithArgs'' [''ctx'', ''key'', ''options'', ''fields...''],
    Forward ''HSetEX'' [''ctx'', ''key'', ''fieldsAndValues...''] ''HSetEX'' [''ctx'', ''key'', ''fieldsAndValues...''],
    Forward ''HSetEXWithArgs'' [''ctx'', ''key'', ''options'', ''fieldsAndValues...''] ''HSetEXWithArgs'' [''ctx'', ''key'', ''options'', ''fieldsAndValues...''],
    Forward ''HStrLen'' [''ctx'', ''key'', ''field''] ''HStrLen'' [''ctx'', ''key'', ''field''],
    Forward ''VAdd'' [''ctx'', ''key'', ''element'', ''val''] ''VAdd'' [''ctx'', ''key'', ''element'', ''val''],
    Forward ''VAddWithArgs'' [''ctx'', ''key'', ''element'', ''val'', ''addArgs''] ''VAddWithArgs'' [''ctx'', ''key'', ''element'', ''val'', ''addArgs''],
    Forward ''VCard'' [''ctx'', ''key''] ''VCard'' [''ctx'', ''key''],
    Forward ''VDim'' [''ctx'', ''key''] ''VDim'' [''ctx'', ''key''],
    Forward ''VEmb'' [''ctx'', ''key'', ''element'', ''raw''] ''VEmb'' [''ctx'', ''key'', ''element'', ''raw''],
    Forward ''VGetAttr'' [''ctx'', ''key'', ''element''] ''VGetAttr'' [''ctx'', ''key'', ''element''],
    Forward ''VInfo'' [''ctx'', ''key''] ''VInfo'' [''ctx'', ''key''],
    Forward ''VLinks'' [''ctx'', ''key'', ''element''] ''VLinks'' [''ctx'', ''key'', ''element''],
    Forward ''VLinksWithScores'' [''ctx'', ''key'', ''element''] ''VLinksWithScores'' [''ctx'', ''key'', ''element''],
    Forward ''VRandMember'' [''ctx'', ''key''] ''VRandMember'' [''ctx'', ''key''],
    Forward ''VRandMemberCount'' [''ctx'', ''key'', ''count''] ''VRandMemberCount'' [''ctx'', ''key'', ''count''],
    Forward ''VRange'' [''ctx'', ''key'', ''start'', ''end'', ''count''] ''VRange'' [''ctx'', ''key'', ''start'', ''end'', ''count''],
    Forward ''VRem'' [''ctx'', ''key'', ''element''] ''VRem'' [''ctx'', ''key'', ''element''],
    Forward ''VSetAttr'' [''ctx'', ''key'', ''element'', ''attr''] ''VSetAttr'' [''ctx'', ''key'', ''element'', ''attr''],
    Forward ''VClearAttributes'' [''ctx'', ''key'', ''element''] ''VClearAttributes'' [''ctx'', ''key'', ''element''],
    Forward ''VSim'' [''ctx'', ''key'', ''val''] ''VSim'' [''ctx'', ''key'', ''val''],
    Forward ''VSimWithScores'' [''ctx'', ''key'', ''val''] ''VSimWithScores'' [''ctx'', ''key'', ''val''],
    Forward ''VSimWithArgs'' [''ctx'', ''key'', ''val'', ''args''] ''VSimWithArgs'' [''ctx'', ''key'', ''val'', ''args''],
    Forward ''VSimWithArgsWithScores'' [''ctx'', ''key'', ''val'', ''args''] ''VSimWithArgsWithScores'' [''ctx'', ''key'', ''val'', ''args''],
    Forward ''ClientMaintNotifications'' [''ctx'', ''enabled'', ''endpointType''] ''ClientMaintNotifications'' [''ctx'', ''enabled'', ''endpointType'']]"

definition proxy_methods :: "proxy_method list" where
  "proxy_methods = concat [forward_Pipeline,
     forward_Del,
     forward_Append,
     forward_BitOpAndOr,
     forward_LInsertBefore,
     forward_SRem,
     forward_XInfoStream,
     forward_ZRem,
     forward_ConfigSet,
     forward_FunctionFlushAsync,
     forward_GeoAdd,
     forward_CFDel,
     forward_TDigestMin,
     forward_TSCreateWithArgs,
     forward_HPExpireAtWithArgs,
     forward_FTTagVals]"

section \<open>Every method forwards itself\<close>

lemma forward_Pipeline_ok: "list_all forwards_itself forward_Pipeline"
  by (simp only: forward_Pipeline_def list.pred_inject forwards_itself_simp) simp

lemma forward_Del_ok: "list_all forwards_itself forward_Del"
  by (simp only: forward_Del_def list.pred_inject forwards_itself_simp) simp

lemma forward_Append_ok: "list_all forwards_itself forward_Append"
  by (simp only: forward_Append_def list.pred_inject forwards_itself_simp) simp

lemma forward_BitOpAndOr_ok: "list_all forwards_itself forward_BitOpAndOr"
  by (simp only: forward_BitOpAndOr_def list.pred_inject forwards_itself_simp) simp

lemma forward_LInsertBefore_ok: "list_all forwards_itself forward_LInsertBefore"
  by (simp only: forward_LInsertBefore_def list.pred_inject forwards_itself_simp) simp

lemma forward_SRem_ok: "list_all forwards_itself forward_SRem"
  by (simp only: forward_SRem_def list.pred_inject forwards_itself_simp) simp

lemma forward_XInfoStream_ok: "list_all forwards_itself forward_XInfoStream"
  by (simp only: forward_XInfoStream_def list.pred_inject forwards_itself_simp) simp

lemma forward_ZRem_ok: "list_all forwards_itself forward_ZRem"
  by (simp only: forward_ZRem_def list.pred_inject forwards_itself_simp) simp

lemma forward_ConfigSet_ok: "list_all forwards_itself forward_ConfigSet"
  by (simp only: forward_ConfigSet_def list.pred_inject forwards_itself_simp) simp

lemma forward_FunctionFlushAsync_ok: "list_all forwards_itself forward_FunctionFlushAsync"
  by (simp only: forward_FunctionFlushAsync_def list.pred_inject forwards_itself_simp) simp

lemma forward_GeoAdd_ok: "list_all forwards_itself forward_GeoAdd"
  by (simp only: forward_GeoAdd_def list.pred_inject forwards_itself_simp) simp

lemma forward_CFDel_ok: "list_all forwards_itself forward_CFDel"
  by (simp only: forward_CFDel_def list.pred_inject forwards_itself_simp) simp

lemma forward_TDigestMin_ok: "list_all forwards_itself forward_TDigestMin"
  by (simp only: forward_TDigestMin_def list.pred_inject forwards_itself_simp) simp

lemma forward_TSCreateWithArgs_ok: "list_all forwards_itself forward_TSCreateWithArgs"
  by (simp only: forward_TSCreateWithArgs_def list.pred_inject forwards_itself_simp) simp

lemma forward_HPExpireAtWithArgs_ok: "list_all forwards_itself forward_HPExpireAtWithArgs"
  by (simp only: forward_HPExpireAtWithArgs_def list.pred_inject forwards_itself_simp) simp

lemma forward_FTTagVals_ok: "list_all forwards_itself forward_FTTagVals"
  by (simp only: forward_FTTagVals_def list.pred_inject forwards_itself_simp) simp

lemma proxy_methods_ok: "list_all forwards_itself proxy_methods"
  by (simp add: proxy_methods_def list_all_append forward_Pipeline_ok forward_Del_ok forward_Append_ok forward_BitOpAndOr_ok forward_LInsertBefore_ok forward_SRem_ok forward_XInfoStream_ok forward_ZRem_ok forward_ConfigSet_ok forward_FunctionFlushAsync_ok forward_GeoAdd_ok forward_CFDel_ok forward_TDigestMin_ok forward_TSCreateWithArgs_ok forward_HPExpireAtWithArgs_ok forward_FTTagVals_ok)

end
