(* ===== verification/Storage_V3.thy ===== *)
theory Storage_V3
  imports Storage_V3_Proxy Round_Robin Go_Errors Decimal
begin

text \<open>
  \<open>connectors/storage/v3\<close>: a client of several Redis instances. This theory holds the load balancer
  (\<open>proxy.go\<close>), what a call of a forwarding method does, the operations that go to all instances at once
  (\<open>Quit\<close>, \<open>Close\<close>, \<open>Ping\<close>, \<open>IsRW\<close>), and connecting (\<open>MustConnect\<close> in \<open>storage.go\<close>). The Redis client is
  a parameter; goroutines that run at the same time are run one after the other in an arbitrary order \<open>ord\<close>.
\<close>

section \<open>The load balancer\<close>

record 'c lb3 =
  v3_urls :: "string list"
  v3_instances :: "'c list"
  v3_index :: "64 word"

definition v3_pick :: "'c lb3 \<Rightarrow> (nat \<times> 'c lb3) outcome" where
  "v3_pick l = (if v3_instances l = [] then Panic
     else Ret (unat (v3_index l + 1) mod length (v3_instances l), l\<lparr>v3_index := v3_index l + 1\<rparr>))"

definition v3_instance :: "'c lb3 \<Rightarrow> ('c \<times> 'c lb3) outcome" where
  "v3_instance l = omap (\<lambda>(i, l'). (v3_instances l ! i, l')) (v3_pick l)"

interpretation v3_rr: round_robin v3_pick "\<lambda>l. length (v3_instances l)" v3_index
  by unfold_locales (auto simp: v3_pick_def)

text \<open>A call of a forwarding method with the values \<open>vs\<close>: \<open>client\<close> runs a method of a Redis client on argument values.\<close>

definition actual_args :: "proxy_method \<Rightarrow> 'v list \<Rightarrow> 'v list option" where
  "actual_args m vs = those (map (map_of (zip (pm_params m) vs)) (pm_args m))"

definition proxy_call ::
    "(string \<Rightarrow> 'c \<Rightarrow> 'v list \<Rightarrow> 'w \<Rightarrow> 'r \<times> 'w) \<Rightarrow> proxy_method \<Rightarrow> 'v list \<Rightarrow> 'c lb3 \<times> 'w \<Rightarrow> ('r \<times> 'c lb3 \<times> 'w) outcome" where
  "proxy_call client m vs = (\<lambda>(l, w). obind (v3_instance l) (\<lambda>(c, l'). case actual_args m vs of
      None \<Rightarrow> Panic
    | Some as \<Rightarrow> (case client (pm_calls m) c as w of (r, w') \<Rightarrow> Ret (r, l', w'))))"

text \<open>A sequence of calls.\<close>

fun proxy_calls ::
    "(string \<Rightarrow> 'c \<Rightarrow> 'v list \<Rightarrow> 'w \<Rightarrow> 'r \<times> 'w) \<Rightarrow> (proxy_method \<times> 'v list) list \<Rightarrow> 'c lb3 \<times> 'w \<Rightarrow>
     ('r list \<times> 'c lb3 \<times> 'w) outcome" where
  "proxy_calls client [] s = Ret ([], s)"
| "proxy_calls client ((m, vs) # cs) s =
     obind (proxy_call client m vs s) (\<lambda>(r, s'). omap (\<lambda>(rs, s''). (r # rs, s'')) (proxy_calls client cs s'))"

section \<open>Operations on all instances\<close>

text \<open>A \<open>StatusCmd\<close>: its value and its error.\<close>

type_synonym status_cmd = "string \<times> err"

fun quit_loop :: "('c \<Rightarrow> 'w \<Rightarrow> status_cmd \<times> 'w) \<Rightarrow> 'c list \<Rightarrow> status_cmd option \<Rightarrow> 'w \<Rightarrow> status_cmd option \<times> 'w" where
  "quit_loop quit [] res w = (res, w)"
| "quit_loop quit (c # cs) res w =
     (case quit c w of (elem, w') \<Rightarrow>
        quit_loop quit cs
          (case res of None \<Rightarrow> Some elem | Some r \<Rightarrow> if snd r = None \<and> snd elem \<noteq> None then Some elem else res) w')"

definition v3_Quit :: "('c \<Rightarrow> 'w \<Rightarrow> status_cmd \<times> 'w) \<Rightarrow> 'c lb3 \<Rightarrow> 'w \<Rightarrow> status_cmd option \<times> 'w" where
  "v3_Quit quit l w = quit_loop quit (v3_instances l) None w"

text \<open>\<open>f\<close> on the instances with the indices \<open>ord\<close>, each with its URL; the results in that order.\<close>

fun on_instances :: "(string \<Rightarrow> 'c \<Rightarrow> 'w \<Rightarrow> 'r \<times> 'w) \<Rightarrow> 'c lb3 \<Rightarrow> nat list \<Rightarrow> 'w \<Rightarrow> 'r list \<times> 'w" where
  "on_instances f l [] w = ([], w)"
| "on_instances f l (i # is) w =
     (case f (v3_urls l ! i) (v3_instances l ! i) w of (r, w') \<Rightarrow>
        (case on_instances f l is w' of (rs, w'') \<Rightarrow> (r # rs, w'')))"

definition v3_Close :: "nat list \<Rightarrow> ('c \<Rightarrow> 'w \<Rightarrow> err \<times> 'w) \<Rightarrow> 'c lb3 \<Rightarrow> 'w \<Rightarrow> err \<times> 'w" where
  "v3_Close ord close l w =
     (case on_instances (\<lambda>url c w. apfst (wrap_err (''failed to close instance '' @ url)) (close c w)) l ord w of
        (errs, w') \<Rightarrow> (join_errs errs, w'))"

text \<open>\<open>Ping\<close>: the last failed reply with the errors of all failed ones, or the last good one. With no instance there is no
  reply, and the nil reply is dereferenced.\<close>

fun ping_replies :: "status_cmd list \<Rightarrow> (status_cmd option \<times> status_cmd option) \<times> err list" where
  "ping_replies [] = ((None, None), [])"
| "ping_replies (r # rs) =
     (case ping_replies rs of ((failed, succeeded), errs) \<Rightarrow>
        (if snd r \<noteq> None then ((if failed = None then Some r else failed, succeeded), wrap_err (fst r) (snd r) # errs)
         else ((failed, if succeeded = None then Some r else succeeded), errs)))"

definition v3_Ping :: "nat list \<Rightarrow> ('c \<Rightarrow> 'w \<Rightarrow> status_cmd \<times> 'w) \<Rightarrow> 'c lb3 \<Rightarrow> 'w \<Rightarrow> (status_cmd \<times> 'w) outcome" where
  "v3_Ping ord ping l w =
     (case on_instances (\<lambda>url c w. apfst (apfst (\<lambda>v. ''['' @ url @ '']'' @ v)) (ping c w)) l ord w of
        (responses, w') \<Rightarrow>
          (case ping_replies responses of
             ((Some r, _), errs) \<Rightarrow> Ret ((fst r, join_errs errs), w')
           | ((None, Some r), _) \<Rightarrow> Ret ((''PONG'', snd r), w')
           | ((None, None), _) \<Rightarrow> Panic))"

text \<open>\<open>IsRW\<close>: on every instance two keys are set in a pipeline. \<open>pipelined c fn\<close> is the client's
  \<open>Pipelined\<close>: it runs \<open>fn\<close> on a pipeline and returns the errors of the commands, and an error; \<open>pset\<close> queues one.\<close>

definition rw_check :: "('p \<Rightarrow> err \<times> 'p) \<Rightarrow> ('p \<Rightarrow> err \<times> 'p) \<Rightarrow> 'p \<Rightarrow> err \<times> 'p" where
  "rw_check set1 set2 p =
     (case set1 p of
        (Some e, p1) \<Rightarrow> (Some e, p1)
      | (None, p1) \<Rightarrow> (case set2 p1 of (Some e, p2) \<Rightarrow> (Some e, p2) | (None, p2) \<Rightarrow> (None, p2)))"

definition rw_instance ::
    "('c \<Rightarrow> ('p \<Rightarrow> err \<times> 'p) \<Rightarrow> 'w \<Rightarrow> (err list \<times> err) \<times> 'w) \<Rightarrow> (string \<Rightarrow> 'p \<Rightarrow> err \<times> 'p) \<Rightarrow> string \<times> string \<Rightarrow>
     string \<Rightarrow> 'c \<Rightarrow> 'w \<Rightarrow> err \<times> 'w" where
  "rw_instance pipelined pset ids url c w =
     (case pipelined c (rw_check (pset (''rw-check-1-'' @ fst ids)) (pset (''rw-check-2-'' @ snd ids))) w of
        ((responses, e), w') \<Rightarrow>
          (let e' = (if e = None then wrap_err (''['' @ url @ '']'') (join_errs responses) else e)
           in (wrap_err (''['' @ url @ '']'') e', w')))"

definition v3_IsRW ::
    "nat list \<Rightarrow> ('c \<Rightarrow> ('p \<Rightarrow> err \<times> 'p) \<Rightarrow> 'w \<Rightarrow> (err list \<times> err) \<times> 'w) \<Rightarrow> (string \<Rightarrow> 'p \<Rightarrow> err \<times> 'p) \<Rightarrow> string \<times> string \<Rightarrow>
     'c lb3 \<Rightarrow> 'w \<Rightarrow> bool \<times> 'w" where
  "v3_IsRW ord pipelined pset ids l w =
     (case on_instances (rw_instance pipelined pset ids) l ord w of (errs, w') \<Rightarrow> (join_errs errs = None, w'))"

section \<open>Connecting\<close>

text \<open>The fields of \<open>redis.Options\<close> and of the configuration that \<open>MustConnect\<close> uses; durations are in nanoseconds.\<close>

record redis_options =
  Username :: string
  o_Password :: string
  ClientName :: string
  MaxRetries :: int
  MinRetryBackoff :: int
  MaxRetryBackoff :: int
  DialTimeout :: int
  ReadTimeout :: int
  WriteTimeout :: int
  ConnMaxIdleTime :: int
  ContextTimeoutEnabled :: bool
  PoolFIFO :: bool
  PoolSize :: int
  MinIdleConns :: int
  MaxIdleConns :: int

record v3_config =
  User :: string
  c_Password :: string
  URL :: string
  URLs :: "string list"
  ConnectionsPerCore :: int

text \<open>Go's division of integers, which truncates.\<close>

definition go_div :: "int \<Rightarrow> int \<Rightarrow> int" where
  "go_div a b = (if a < 0 then - ((- a) div b) else a div b)"

definition default_int :: "int \<Rightarrow> int \<Rightarrow> int" where
  "default_int v d = (if v = 0 then d else v)"

definition default_str :: "string \<Rightarrow> string \<Rightarrow> string" where
  "default_str v d = (if v = '''' then d else v)"

text \<open>\<open>procs\<close> is \<open>runtime.GOMAXPROCS(-1)\<close>.\<close>

definition pool_size :: "int \<Rightarrow> int list \<Rightarrow> v3_config \<Rightarrow> int \<Rightarrow> int" where
  "pool_size procs overridden cfg sz =
     (if sz = 0
      then default_int
             (go_div (case overridden of [n] \<Rightarrow> n | _ \<Rightarrow> ConnectionsPerCore cfg * procs) (int (length (URLs cfg)))) 1
      else sz)"

definition complete_options :: "int \<Rightarrow> int list \<Rightarrow> string \<Rightarrow> v3_config \<Rightarrow> redis_options \<Rightarrow> redis_options" where
  "complete_options procs overridden key cfg opts =
     (let sz = pool_size procs overridden cfg (PoolSize opts)
      in opts\<lparr>
        Username := default_str (Username opts) (User cfg),
        o_Password := default_str (o_Password opts) (c_Password cfg),
        ClientName := default_str (ClientName opts) key,
        MaxRetries := default_int (MaxRetries opts) 25,
        MinRetryBackoff := default_int (MinRetryBackoff opts) (10 * 10 ^ 6),
        MaxRetryBackoff := default_int (MaxRetryBackoff opts) (10 ^ 9),
        DialTimeout := default_int (DialTimeout opts) (2 * 10 ^ 9),
        ReadTimeout := default_int (ReadTimeout opts) (30 * 10 ^ 9),
        WriteTimeout := default_int (WriteTimeout opts) (30 * 10 ^ 9),
        ConnMaxIdleTime := default_int (ConnMaxIdleTime opts) (60 * 10 ^ 9),
        ContextTimeoutEnabled := True,
        PoolFIFO := True,
        PoolSize := sz,
        MinIdleConns := 1,
        MaxIdleConns := default_int (MaxIdleConns opts) sz\<rparr>)"

definition complete_config :: "v3_config \<Rightarrow> v3_config" where
  "complete_config cfg =
     (let cfg1 = cfg\<lparr>ConnectionsPerCore := default_int (ConnectionsPerCore cfg) 10\<rparr>
      in if URL cfg1 \<noteq> '''' \<and> URLs cfg1 = [] then cfg1\<lparr>URLs := [URL cfg1]\<rparr> else cfg1)"

text \<open>\<open>parse_url\<close>, \<open>new_client\<close> and \<open>ping\<close> are the Redis client's. Any error panics.\<close>

fun connect_urls ::
    "(string \<Rightarrow> goerr + redis_options) \<Rightarrow> (redis_options \<Rightarrow> 'w \<Rightarrow> 'c \<times> 'w) \<Rightarrow> ('c \<Rightarrow> 'w \<Rightarrow> status_cmd \<times> 'w) \<Rightarrow>
     (redis_options \<Rightarrow> redis_options) \<Rightarrow> string list \<Rightarrow> 'w \<Rightarrow> ('c list \<times> 'w) outcome" where
  "connect_urls parse_url new_client ping complete [] w = Ret ([], w)"
| "connect_urls parse_url new_client ping complete (url # urls) w =
     (case parse_url url of
        Inl e \<Rightarrow> Panic
      | Inr opts \<Rightarrow>
          (case new_client (complete opts) w of (c, w1) \<Rightarrow>
             (case ping c w1 of ((result, e), w2) \<Rightarrow>
                (if e \<noteq> None then Panic
                 else if result \<noteq> ''PONG'' then Panic
                 else omap (\<lambda>(cs, w3). (c # cs, w3)) (connect_urls parse_url new_client ping complete urls w2)))))"

definition v3_MustConnect ::
    "(string \<Rightarrow> goerr + redis_options) \<Rightarrow> (redis_options \<Rightarrow> 'w \<Rightarrow> 'c \<times> 'w) \<Rightarrow> ('c \<Rightarrow> 'w \<Rightarrow> status_cmd \<times> 'w) \<Rightarrow>
     int \<Rightarrow> v3_config \<Rightarrow> string \<Rightarrow> int list \<Rightarrow> 'w \<Rightarrow> ('c lb3 \<times> 'w) outcome" where
  "v3_MustConnect parse_url new_client ping procs loaded key overridden w =
     (let cfg = complete_config loaded
      in if URLs cfg = [] then Panic
         else omap (\<lambda>(cs, w'). (\<lparr>v3_urls = URLs cfg, v3_instances = cs, v3_index = 0\<rparr>, w'))
                (connect_urls parse_url new_client ping (complete_options procs overridden key cfg) (URLs cfg) w))"

section \<open>Lemmas\<close>

lemma those_map_Some: "(\<And>x. x \<in> set xs \<Longrightarrow> f x = Some (g x)) \<Longrightarrow> those (map f xs) = Some (map g xs)"
  by (induction xs) auto

lemma map_of_zip_params:
  "distinct ps \<Longrightarrow> length vs = length ps \<Longrightarrow> map (\<lambda>x. the (map_of (zip ps vs) x)) ps = vs"
proof (induction ps vs rule: list_induct2')
  case (4 p ps v vs)
  have "map (\<lambda>x. the (map_of (zip (p # ps) (v # vs)) x)) ps = map (\<lambda>x. the (map_of (zip ps vs) x)) ps"
    using 4(2) by (intro map_cong) auto
  with 4 show ?case by simp
qed simp_all

text \<open>Arguments that are the parameters are the actual values.\<close>

lemma actual_args_ok:
  assumes "forwards_itself m" and "length vs = length (pm_params m)"
  shows "actual_args m vs = Some vs"
proof -
  have m: "distinct (pm_params m)" "pm_args m = pm_params m" using assms(1) by (simp_all add: forwards_itself_def)
  have "map_of (zip (pm_params m) vs) x = Some (the (map_of (zip (pm_params m) vs) x))"
    if "x \<in> set (pm_params m)" for x
  proof -
    have "x \<in> dom (map_of (zip (pm_params m) vs))" using that assms(2) by (simp add: dom_map_of_zip)
    then show ?thesis by auto
  qed
  then have "those (map (map_of (zip (pm_params m) vs)) (pm_params m)) =
      Some (map (\<lambda>x. the (map_of (zip (pm_params m) vs) x)) (pm_params m))"
    by (rule those_map_Some)
  then show ?thesis unfolding actual_args_def m(2) map_of_zip_params [OF m(1) assms(2)] .
qed

lemma proxy_call_ok:
  assumes "m \<in> set proxy_methods" and "length vs = length (pm_params m)" and "v3_instances l \<noteq> []"
  shows "proxy_call client m vs (l, w) =
    (case client (pm_name m) (v3_instances l ! (unat (v3_index l + 1) mod length (v3_instances l))) vs w of
       (r, w') \<Rightarrow> Ret (r, l\<lparr>v3_index := v3_index l + 1\<rparr>, w'))"
proof -
  have m: "forwards_itself m" using assms(1) proxy_methods_ok by (simp add: list_all_iff)
  then have "pm_calls m = pm_name m" by (simp add: forwards_itself_def)
  then show ?thesis
    using assms(3) actual_args_ok [OF m assms(2)] by (simp add: proxy_call_def v3_instance_def v3_pick_def)
qed

text \<open>A client that answers by \<open>f\<close> and records what it was asked.\<close>

definition recording :: "(string \<Rightarrow> 'c \<Rightarrow> 'v list \<Rightarrow> 'r) \<Rightarrow> string \<Rightarrow> 'c \<Rightarrow> 'v list \<Rightarrow> (string \<times> 'c \<times> 'v list) list \<Rightarrow>
    'r \<times> (string \<times> 'c \<times> 'v list) list" where
  "recording f name c vs log = (f name c vs, log @ [(name, c, vs)])"

lemma proxy_calls_run:
  assumes "\<And>m vs. (m, vs) \<in> set calls \<Longrightarrow> m \<in> set proxy_methods \<and> length vs = length (pm_params m)"
    and "v3_instances l \<noteq> []" and "unat (v3_index l) + length calls < 2 ^ 64"
  shows "\<exists>rs l'. proxy_calls (recording f) calls (l, log) = Ret (rs, l',
      log @ map (\<lambda>(k, m, vs). (pm_name m, v3_instances l ! ((unat (v3_index l) + 1 + k) mod length (v3_instances l)), vs))
              (enumerate 0 calls))"
  using assms
proof (induction calls arbitrary: l log)
  case Nil
  then show ?case by simp
next
  case (Cons a calls)
  obtain m vs where a: "a = (m, vs)" by (cases a)
  define l1 where "l1 = l\<lparr>v3_index := v3_index l + 1\<rparr>"
  define log1 where "log1 = log @ [(pm_name m, v3_instances l ! (unat (v3_index l + 1) mod length (v3_instances l)), vs)]"
  have i: "unat (v3_index l + 1) = unat (v3_index l) + 1" using Cons.prems(3) by (simp add: unat_word_ariths)
  have m: "m \<in> set proxy_methods" "length vs = length (pm_params m)" using Cons.prems(1) [of m vs] a by simp_all
  have call: "\<exists>r. proxy_call (recording f) m vs (l, log) = Ret (r, l1, log1)"
    unfolding proxy_call_ok [OF m Cons.prems(2)] by (simp add: recording_def l1_def log1_def)
  have "\<exists>rs l'. proxy_calls (recording f) calls (l1, log1) = Ret (rs, l',
      log1 @ map (\<lambda>(k, m, vs). (pm_name m, v3_instances l1 ! ((unat (v3_index l1) + 1 + k) mod length (v3_instances l1)), vs))
              (enumerate 0 calls))"
    by (rule Cons.IH) (use Cons.prems i in \<open>auto simp: l1_def\<close>)
  moreover have "map (\<lambda>(k, m, vs). (pm_name m, v3_instances l1 ! ((unat (v3_index l1) + 1 + k) mod length (v3_instances l1)), vs))
        (enumerate 0 calls) =
      map (\<lambda>(k, m, vs). (pm_name m, v3_instances l ! ((unat (v3_index l) + 1 + k) mod length (v3_instances l)), vs))
        (enumerate 1 calls)"
    by (simp add: l1_def i enumerate_Suc_eq o_def case_prod_unfold)
  ultimately show ?case using call by (auto simp: a log1_def i)
qed

section \<open>Properties\<close>

text \<open>
  C31. The load balancer is transparent: whatever methods of the Redis client's interface are called on it, the \<open>k\<close>-th call
  runs the method of the same name with exactly the caller's arguments, on the instance that is next in turn
  (as long as the 64-bit counter does not wrap).
\<close>

theorem proxy_is_transparent:
  assumes "\<And>m vs. (m, vs) \<in> set calls \<Longrightarrow> m \<in> set proxy_methods \<and> length vs = length (pm_params m)"
    and "v3_instances l \<noteq> []" and "unat (v3_index l) + length calls < 2 ^ 64"
  shows "\<exists>rs l'. proxy_calls (recording f) calls (l, []) = Ret (rs, l',
      map (\<lambda>(k, m, vs). (pm_name m, v3_instances l ! ((unat (v3_index l) + 1 + k) mod length (v3_instances l)), vs))
          (enumerate 0 calls))"
  using proxy_calls_run [OF assms, of f "[]"] by simp

definition echo_method :: proxy_method where
  "echo_method = Forward ''Echo'' [''ctx'', ''message''] ''Echo'' [''ctx'', ''message'']"

definition two_instances :: "nat lb3" where
  "two_instances = \<lparr>v3_urls = [''a'', ''b''], v3_instances = [7, 8], v3_index = 0\<rparr>"

theorem proxy_is_transparent_witness:
  "\<exists>rs l'. proxy_calls (recording (\<lambda>n c vs. c)) [(echo_method, [0 :: int, 5]), (echo_method, [0, 6])] (two_instances, []) =
    Ret (rs, l', [(''Echo'', 8, [0, 5]), (''Echo'', 7, [0, 6])])"
proof -
  have "echo_method \<in> set forward_Pipeline" by (simp add: forward_Pipeline_def echo_method_def)
  then have m: "echo_method \<in> set proxy_methods" by (simp add: proxy_methods_def)
  have two: "v3_instances two_instances = [7, 8]" "v3_index two_instances = 0" by (simp_all add: two_instances_def)
  have name: "pm_name echo_method = ''Echo''" "length (pm_params echo_method) = 2" by (simp_all add: echo_method_def)
  have "\<exists>rs l'. proxy_calls (recording (\<lambda>n c vs. c)) [(echo_method, [0 :: int, 5]), (echo_method, [0, 6])] (two_instances, []) =
      Ret (rs, l', map (\<lambda>(k, m, vs). (pm_name m, v3_instances two_instances !
          ((unat (v3_index two_instances) + 1 + k) mod length (v3_instances two_instances)), vs))
        (enumerate 0 [(echo_method, [0 :: int, 5]), (echo_method, [0, 6])]))"
    by (rule proxy_is_transparent) (use m name two in auto)
  then show ?thesis by (simp add: two name)
qed

lemma ping_replies_spec:
  "case ping_replies rs of ((failed, succeeded), errs) \<Rightarrow>
     (failed = None \<longleftrightarrow> (\<forall>r \<in> set rs. snd r = None)) \<and> (\<forall>r. failed = Some r \<longrightarrow> snd r \<noteq> None) \<and>
     (succeeded = None \<longleftrightarrow> (\<forall>r \<in> set rs. snd r \<noteq> None)) \<and> (\<forall>r. succeeded = Some r \<longrightarrow> snd r = None) \<and>
     (failed \<noteq> None \<longrightarrow> (\<exists>e \<in> set errs. e \<noteq> None))"
proof (induction rs)
  case Nil
  then show ?case by simp
next
  case (Cons r rs)
  obtain failed succeeded errs where p: "ping_replies rs = ((failed, succeeded), errs)" by (metis prod.exhaust)
  show ?case
  proof (cases "snd r = None")
    case True
    then show ?thesis using Cons p by (cases succeeded) auto
  next
    case False
    then show ?thesis using Cons p by (cases failed) (auto simp: wrap_err_def)
  qed
qed

lemma on_instances_length: "on_instances f l ord w = (rs, w') \<Longrightarrow> length rs = length ord"
  by (induction f l ord w arbitrary: rs w' rule: on_instances.induct) (auto split: prod.splits)

text \<open>
  \<open>Ping\<close> of the load balancer succeeds, with \<open>PONG\<close>, exactly when every instance answered without an error, in whatever
  order the answers came.
\<close>

theorem v3_Ping_reports_failures:
  assumes "ord \<noteq> []"
    and "on_instances (\<lambda>url c w. apfst (apfst (\<lambda>v. ''['' @ url @ '']'' @ v)) (ping c w)) l ord w = (rs, w')"
  shows "\<exists>r. v3_Ping ord ping l w = Ret (r, w') \<and> (snd r = None \<longleftrightarrow> (\<forall>x \<in> set rs. snd x = None)) \<and>
    (snd r = None \<longrightarrow> fst r = ''PONG'')"
proof -
  obtain failed succeeded errs where p: "ping_replies rs = ((failed, succeeded), errs)" by (metis prod.exhaust)
  note spec = ping_replies_spec [of rs, unfolded p prod.case]
  have "rs \<noteq> []" using on_instances_length [OF assms(2)] assms(1) by auto
  show ?thesis
  proof (cases failed)
    case (Some r)
    then have "join_errs errs \<noteq> None" using spec by (simp add: join_errs_None)
    then show ?thesis using Some spec p assms(2) by (auto simp: v3_Ping_def)
  next
    case None
    then have "succeeded \<noteq> None" using spec hd_in_set [OF \<open>rs \<noteq> []\<close>] by metis
    then obtain r where "succeeded = Some r" by blast
    then show ?thesis using None spec p assms(2) by (auto simp: v3_Ping_def)
  qed
qed

theorem v3_Ping_reports_failures_witness:
  "\<exists>r. v3_Ping [1, 0] (\<lambda>c w. ((''PONG'', if c = 8 then Some (Sentinel ''down'') else None), w)) two_instances () = Ret (r, ()) \<and>
    snd r \<noteq> None"
proof -
  let ?ping = "\<lambda>c w. ((''PONG'', if c = (8 :: nat) then Some (Sentinel ''down'') else None), w :: unit)"
  let ?rs = "[(''[b]PONG'', Some (Sentinel ''down'')), (''[a]PONG'', None)]"
  have "on_instances (\<lambda>url c w. apfst (apfst (\<lambda>v. ''['' @ url @ '']'' @ v)) (?ping c w)) two_instances [1, 0] () = (?rs, ())"
    by (simp add: two_instances_def)
  from v3_Ping_reports_failures [OF _ this] show ?thesis by auto
qed

text \<open>The pools of all instances together stay within the budget of connections, unless there are more instances than
  connections; then each gets one.\<close>

lemma pool_budget:
  assumes "URLs cfg \<noteq> []" and "0 \<le> ConnectionsPerCore cfg * procs"
  shows "1 \<le> pool_size procs [] cfg 0 \<and>
    (int (length (URLs cfg)) * pool_size procs [] cfg 0 \<le> ConnectionsPerCore cfg * procs \<or> pool_size procs [] cfg 0 = 1)"
proof -
  let ?p = "ConnectionsPerCore cfg * procs" and ?n = "int (length (URLs cfg))"
  have "0 < ?n" using assms(1) by simp
  then have "0 \<le> ?p div ?n" "?n * (?p div ?n) \<le> ?p"
    using assms(2) by (simp_all add: pos_imp_zdiv_nonneg_iff minus_mod_eq_mult_div [symmetric])
  then show ?thesis using assms(2) by (auto simp: pool_size_def go_div_def default_int_def)
qed

end
