(* ===== verification/Storage_V3_Values.thy ===== *)
theory Storage_V3_Values
  imports Go_Errors Decimal "HOL-Library.Multiset"
begin

text \<open>
  Storing Go structs as Redis hashes (\<open>connectors/storage/v3/storage.go\<close>): the fields of a struct type by their
  \<open>redis\<close> tags, turning a value into names and texts, scanning a hash back into a value, and the operations
  \<open>Set\<close>, \<open>Get\<close> and \<open>Bind\<close> over them. What the code learns by reflection is data here: \<open>gotype\<close> is a struct type and
  \<open>gostruct\<close> a struct value. The Redis client is a parameter.
\<close>

section \<open>Types and values seen by reflection\<close>

text \<open>\<open>TOther\<close>: a type that is not a struct, and whether its values can be a map key. An embedded field: whether it is
  exported, whether it is a pointer, and the (pointed-to) type. A plain field: its tag and whether its type can be a map key.\<close>

datatype gotype = TStruct "tfield list" | TOther bool
     and tfield = TEmbedded bool bool gotype | TPlain string bool

text \<open>The value of a plain field: its kind with what \<open>isEmptyValue\<close> looks at, whether it may be read
  (\<open>CanInterface\<close>), and the case of the type switch it falls in.\<close>

datatype kind_value = KLen nat | KBool bool | KInt int | KUint nat | KFloat bool | KNilable bool | KStruct bool | KNever | KOther bool

datatype typed_value = IMarshaler "goerr + string" | IDuration int | IString string | IOther string

record leaf =
  lf_kind :: kind_value
  lf_readable :: bool
  lf_typed :: typed_value

text \<open>Embedded fields: a struct, a nil pointer to a value of the type, a pointer to a struct, and one that is neither
  (with its exportedness, whether it is a pointer, and hashability).\<close>

datatype gostruct = GStruct "gofield list"
     and gofield = FEmbedded bool gostruct | FNilPtr bool gotype | FPtr bool gostruct | FEmbeddedOther bool bool bool
       | FPlain string bool leaf

section \<open>The fields of a type\<close>

definition tag_used :: "string \<Rightarrow> bool" where
  "tag_used tag \<longleftrightarrow> tag \<noteq> '''' \<and> tag \<noteq> ''-''"

primrec collectFields :: "gotype \<Rightarrow> string list" and collect_field :: "tfield \<Rightarrow> string list" where
  "collectFields (TStruct fs) = concat (map collect_field fs)"
| "collectFields (TOther h) = []"
| "collect_field (TEmbedded ex ptr t) = collectFields t"
| "collect_field (TPlain tag h) = (if tag_used tag then [fst (cut CHR '','' tag)] else [])"

primrec hashable :: "gotype \<Rightarrow> bool" and hashable_field :: "tfield \<Rightarrow> bool" where
  "hashable (TStruct fs) = list_all id (map hashable_field fs)"
| "hashable (TOther h) = h"
| "hashable_field (TEmbedded ex ptr t) = (ptr \<or> hashable t)"
| "hashable_field (TPlain tag h) = h"

text \<open>\<open>processRedisFieldTags\<close>: the cache is keyed by the zero value of the type, named here by the type's name. A type whose
  values cannot be a map key panics.\<close>

definition processRedisFieldTags ::
    "string \<Rightarrow> gotype \<Rightarrow> (string \<Rightarrow> string list option) \<Rightarrow> (string list \<times> (string \<Rightarrow> string list option)) outcome" where
  "processRedisFieldTags name t cache =
     (if \<not> hashable t then Panic
      else
        (let cache' = (if cache name = None then cache(name \<mapsto> collectFields t) else cache);
             tags = the (cache' name)
         in if tags = [] then Panic else Ret (tags, cache')))"

section \<open>From a value to names and texts\<close>

text \<open>\<open>omitEmpty\<close> reads the options of a tag, separated by commas.\<close>

lemma cut_shorter: "s \<noteq> [] \<Longrightarrow> length (snd (cut c s)) < length s"
proof (induction s)
  case (Cons x s)
  show ?case
  proof (cases "s = []")
    case True
    then show ?thesis by simp
  next
    case False
    then show ?thesis using Cons.IH by (auto split: prod.splits)
  qed
qed simp

function omitEmpty :: "string \<Rightarrow> bool" where
  "omitEmpty opt =
     (if opt = '''' then False
      else if fst (cut CHR '','' opt) = ''omitempty'' then True
      else omitEmpty (snd (cut CHR '','' opt)))"
  by pat_completeness auto
termination
  by (relation "measure length") (use cut_shorter in auto)

declare omitEmpty.simps [simp del]

definition isEmptyValue :: "kind_value \<Rightarrow> bool" where
  "isEmptyValue v = (case v of
     KLen n \<Rightarrow> n = 0 | KBool b \<Rightarrow> \<not> b | KInt i \<Rightarrow> i = 0 | KUint n \<Rightarrow> n = 0 | KFloat zero \<Rightarrow> zero
   | KNilable nil \<Rightarrow> nil | KStruct zero \<Rightarrow> zero | KNever \<Rightarrow> False | KOther zero \<Rightarrow> zero)"

definition int_text :: "int \<Rightarrow> string" where
  "int_text i = (if i < 0 then ''-'' @ dec_string (nat (- i)) else dec_string (nat i))"

fun oconcat :: "'a list outcome list \<Rightarrow> 'a list outcome" where
  "oconcat [] = Ret []"
| "oconcat (o1 # os) = obind o1 (\<lambda>xs. omap (\<lambda>ys. xs @ ys) (oconcat os))"

definition leaf_text :: "leaf \<Rightarrow> string outcome" where
  "leaf_text v = (case lf_typed v of
     IMarshaler (Inl e) \<Rightarrow> Panic
   | IMarshaler (Inr data) \<Rightarrow> Ret data
   | IDuration ns \<Rightarrow> Ret (int_text ns)
   | IString s \<Rightarrow> Ret s
   | IOther s \<Rightarrow> Ret s)"

text \<open>\<open>serializeStructFields\<close>, as pairs of a name and a text; the code puts them into one list alternately.\<close>

primrec serialize_struct :: "gostruct \<Rightarrow> (string \<times> string) list outcome" and
  serialize_field :: "gofield \<Rightarrow> (string \<times> string) list outcome" where
  "serialize_struct (GStruct fs) = oconcat (map serialize_field fs)"
| "serialize_field (FEmbedded ex s) = serialize_struct s"
| "serialize_field (FNilPtr ex t) = Ret []"
| "serialize_field (FPtr ex s) = serialize_struct s"
| "serialize_field (FEmbeddedOther ex ptr h) = Ret []"
| "serialize_field (FPlain tag h v) =
     (if \<not> tag_used tag then Ret []
      else
        (let name = fst (cut CHR '','' tag); opt = snd (cut CHR '','' tag) in
         if name = '''' then Ret []
         else if omitEmpty opt \<and> isEmptyValue (lf_kind v) then Ret []
         else if lf_readable v then omap (\<lambda>text. [(name, text)]) (leaf_text v)
         else Ret []))"

text \<open>What \<open>SerializeValue\<close> may get: a struct or a pointer to one, a nil pointer, something else.\<close>

datatype any_value = AStruct gostruct | ANilPointer | ANoStruct

definition SerializeValue :: "any_value \<Rightarrow> (string \<times> string) list outcome" where
  "SerializeValue v = (case v of AStruct s \<Rightarrow> serialize_struct s | ANilPointer \<Rightarrow> Panic | ANoStruct \<Rightarrow> Panic)"

section \<open>Scanning back\<close>

text \<open>\<open>scan path\<close> scans into the embedded struct at a path of field indices; it is the Redis client's.
  Fields are visited with their index.\<close>

fun run_fields :: "(nat list \<Rightarrow> 's \<Rightarrow> (err \<times> 's) outcome) list \<Rightarrow> nat list \<Rightarrow> nat \<Rightarrow> 's \<Rightarrow> (err \<times> 's) outcome" where
  "run_fields [] path ix s = Ret (None, s)"
| "run_fields (f # fs) path ix s =
     obind (f (path @ [ix]) s) (\<lambda>(e, s'). if e \<noteq> None then Ret (e, s') else run_fields fs path (Suc ix) s')"

fun is_struct :: "gotype \<Rightarrow> bool" where
  "is_struct (TStruct fs) = True"
| "is_struct (TOther h) = False"

primrec DeserializeValue :: "(nat list \<Rightarrow> 's \<Rightarrow> err \<times> 's) \<Rightarrow> gotype \<Rightarrow> nat list \<Rightarrow> 's \<Rightarrow> (err \<times> 's) outcome" and
  deserialize_field :: "(nat list \<Rightarrow> 's \<Rightarrow> err \<times> 's) \<Rightarrow> tfield \<Rightarrow> nat list \<Rightarrow> 's \<Rightarrow> (err \<times> 's) outcome" where
  "DeserializeValue scan (TStruct fs) = (\<lambda>path s. case scan path s of
      (Some e, s') \<Rightarrow> Ret (Some e, s')
    | (None, s') \<Rightarrow> run_fields (map (deserialize_field scan) fs) path 0 s')"
| "DeserializeValue scan (TOther h) = (\<lambda>path s. case scan path s of
      (Some e, s') \<Rightarrow> Ret (Some e, s')
    | (None, s') \<Rightarrow> Panic)"
| "deserialize_field scan (TEmbedded ex ptr t) = (\<lambda>path s.
      if ex \<and> (ptr \<or> is_struct t) then DeserializeValue scan t path s else Ret (None, s))"
| "deserialize_field scan (TPlain tag h) = (\<lambda>path s. Ret (None, s))"

section \<open>Set, Get and Bind\<close>

text \<open>The reply of \<open>HMGet\<close>: the words of the command, a value or nil per field, an error.\<close>

record slice_cmd =
  sc_args :: "string list"
  sc_val :: "string option list"
  sc_err :: err

text \<open>A database (a load balancer, or one connection). \<open>'p\<close> is a pipeline and \<open>Pipelined\<close> takes the function that fills it.\<close>

record ('p, 'w) redis_db =
  HSet :: "string \<Rightarrow> string list \<Rightarrow> 'w \<Rightarrow> err \<times> 'w"
  HMGet :: "string \<Rightarrow> string list \<Rightarrow> 'w \<Rightarrow> slice_cmd \<times> 'w"
  Pipelined :: "('p \<Rightarrow> (err \<times> 'p) outcome) \<Rightarrow> 'w \<Rightarrow> ((slice_cmd list \<times> err) \<times> 'w) outcome"
  p_HSet :: "string \<Rightarrow> string list \<Rightarrow> 'p \<Rightarrow> err \<times> 'p"
  p_HMGet :: "string \<Rightarrow> string list \<Rightarrow> 'p \<Rightarrow> err \<times> 'p"

text \<open>A value to store: its key and what is serialized.\<close>

type_synonym keyed_value = "string \<times> any_value"

definition flat :: "(string \<times> string) list \<Rightarrow> string list" where
  "flat ps = concat (map (\<lambda>(n, t). [n, t]) ps)"

fun fill_set :: "('p, 'w) redis_db \<Rightarrow> keyed_value option list \<Rightarrow> 'p \<Rightarrow> (err \<times> 'p) outcome" where
  "fill_set D [] p = Ret (None, p)"
| "fill_set D (None # vs) p = fill_set D vs p"
| "fill_set D (Some (key, v) # vs) p =
     obind (SerializeValue v) (\<lambda>ps. case p_HSet D key (flat ps) p of
       (Some e, p') \<Rightarrow> Ret (Some e, p')
     | (None, p') \<Rightarrow> fill_set D vs p')"

definition v3_Set :: "('p, 'w) redis_db \<Rightarrow> keyed_value option list \<Rightarrow> 'w \<Rightarrow> (err \<times> 'w) outcome" where
  "v3_Set D vs w =
     (case vs of
        [None] \<Rightarrow> Ret (None, w)
      | [Some (key, v)] \<Rightarrow> obind (SerializeValue v) (\<lambda>ps. Ret (HSet D key (flat ps) w))
      | _ \<Rightarrow> obind (Pipelined D (fill_set D vs) w) (\<lambda>((cmds, e), w').
          if e \<noteq> None then Ret (e, w') else Ret (join_errs (map sc_err cmds), w')))"

text \<open>A type of results: the struct type, its zero value, scanning a reply into the struct at a path, and its
  method \<open>SetKey\<close> if it has one.\<close>

record 'o result_type =
  rt_name :: string
  rt_type :: gotype
  rt_new :: 'o
  rt_scan :: "slice_cmd \<Rightarrow> nat list \<Rightarrow> 'o \<Rightarrow> err \<times> 'o"
  rt_SetKey :: "(string \<Rightarrow> 'o \<Rightarrow> 'o) option"

text \<open>One reply: the value, or nothing when the hash has none of the fields.\<close>

definition read_reply :: "'o result_type \<Rightarrow> slice_cmd \<Rightarrow> (goerr + 'o option) outcome" where
  "read_reply T cmd =
     obind (DeserializeValue (rt_scan T cmd) (rt_type T) [] (rt_new T)) (\<lambda>(e, resp). case e of
       Some er \<Rightarrow> Ret (Inl er)
     | None \<Rightarrow>
         (if \<exists>v \<in> set (sc_val cmd). v \<noteq> None
          then (case rt_SetKey T of
              None \<Rightarrow> Ret (Inr (Some resp))
            | Some f \<Rightarrow> (if length (sc_args cmd) < 2 then Panic else Ret (Inr (Some (f (sc_args cmd ! 1) resp)))))
          else Ret (Inr None)))"

fun read_replies :: "'o result_type \<Rightarrow> slice_cmd list \<Rightarrow> (goerr + 'o list) outcome" where
  "read_replies T [] = Ret (Inr [])"
| "read_replies T (cmd # cmds) =
     obind (read_reply T cmd) (\<lambda>r. case r of
       Inl e \<Rightarrow> Ret (Inl e)
     | Inr v \<Rightarrow> omap (\<lambda>rs. case rs of Inl e \<Rightarrow> Inl e | Inr vs \<Rightarrow> Inr (case v of None \<Rightarrow> vs | Some x \<Rightarrow> x # vs))
                  (read_replies T cmds))"

fun fill_get :: "('p, 'w) redis_db \<Rightarrow> string list \<Rightarrow> string list \<Rightarrow> 'p \<Rightarrow> (err \<times> 'p) outcome" where
  "fill_get D tags [] p = Ret (None, p)"
| "fill_get D tags (key # keys) p =
     (case p_HMGet D key tags p of (Some e, p') \<Rightarrow> Ret (Some e, p') | (None, p') \<Rightarrow> fill_get D tags keys p')"

type_synonym field_cache = "string \<Rightarrow> string list option"

definition v3_Get ::
    "('p, 'w) redis_db \<Rightarrow> 'o result_type \<Rightarrow> string list \<Rightarrow> field_cache \<times> 'w \<Rightarrow>
     ((goerr + 'o list) \<times> field_cache \<times> 'w) outcome" where
  "v3_Get D T keys = (\<lambda>(cache, w).
     obind (processRedisFieldTags (rt_name T) (rt_type T) cache) (\<lambda>(tags, cache').
       case keys of
         [key] \<Rightarrow> (case HMGet D key tags w of (cmd, w') \<Rightarrow>
            omap (\<lambda>r. (case r of Inl e \<Rightarrow> Inl e | Inr None \<Rightarrow> Inr [] | Inr (Some x) \<Rightarrow> Inr [x], cache', w')) (read_reply T cmd))
       | _ \<Rightarrow> obind (Pipelined D (fill_get D tags keys) w) (\<lambda>((cmds, e), w'). case e of
            Some er \<Rightarrow> Ret (Inl er, cache', w')
          | None \<Rightarrow> omap (\<lambda>r. (r, cache', w')) (read_replies T cmds))))"

text \<open>\<open>Bind\<close> appends to the caller's slice; on an error the slice is left as it was.\<close>

definition v3_Bind ::
    "('p, 'w) redis_db \<Rightarrow> 'o result_type \<Rightarrow> string list \<Rightarrow> 'o list \<Rightarrow> field_cache \<times> 'w \<Rightarrow>
     ((err \<times> 'o list) \<times> field_cache \<times> 'w) outcome" where
  "v3_Bind D T keys results = (\<lambda>(cache, w).
     obind (processRedisFieldTags (rt_name T) (rt_type T) cache) (\<lambda>(tags, cache').
       obind (Pipelined D (fill_get D tags keys) w) (\<lambda>((cmds, e), w'). case e of
           Some er \<Rightarrow> Ret ((Some er, results), cache', w')
         | None \<Rightarrow> omap (\<lambda>r. (case r of Inl er \<Rightarrow> (Some er, results) | Inr vs \<Rightarrow> (None, results @ vs), cache', w'))
                     (read_replies T cmds))))"

section \<open>What is written is what is asked for\<close>

text \<open>The type of a value.\<close>

primrec struct_type :: "gostruct \<Rightarrow> gotype" and field_type :: "gofield \<Rightarrow> tfield" where
  "struct_type (GStruct fs) = TStruct (map field_type fs)"
| "field_type (FEmbedded ex s) = TEmbedded ex False (struct_type s)"
| "field_type (FNilPtr ex t) = TEmbedded ex True t"
| "field_type (FPtr ex s) = TEmbedded ex True (struct_type s)"
| "field_type (FEmbeddedOther ex ptr h) = TEmbedded ex ptr (TOther h)"
| "field_type (FPlain tag h v) = TPlain tag h"

lemma oconcat_Ret: "oconcat os = Ret xs \<Longrightarrow> \<exists>xss. os = map Ret xss \<and> xs = concat xss"
proof (induction os arbitrary: xs)
  case Nil
  then show ?case by simp
next
  case (Cons o1 os)
  obtain ys zs where o: "o1 = Ret ys" "oconcat os = Ret zs" "xs = ys @ zs"
    using Cons.prems by (auto simp: obind_Ret_iff)
  obtain xss where "os = map Ret xss" "zs = concat xss" using Cons.IH [OF o(2)] by blast
  then show ?case using o by (intro exI [of _ "ys # xss"]) simp
qed

lemma mset_concat_mono:
  assumes "list_all2 (\<lambda>ps g. mset ps \<subseteq># mset g) xss yss"
  shows "mset (concat xss) \<subseteq># mset (concat yss)"
  using assms by (induction rule: list_all2_induct) (auto intro: subset_mset.add_mono)

text \<open>The names a value is written under are among those its type is read with.\<close>

lemma serialize_names:
  "serialize_struct s = Ret ps \<Longrightarrow> mset (map fst ps) \<subseteq># mset (collectFields (struct_type s))"
  "serialize_field f = Ret qs \<Longrightarrow> mset (map fst qs) \<subseteq># mset (collect_field (field_type f))"
proof (induction s and f arbitrary: ps and qs)
  case (GStruct fs)
  obtain xss where x: "map serialize_field fs = map Ret xss" "ps = concat xss"
    using oconcat_Ret GStruct.prems by (metis serialize_struct.simps)
  then have len: "length fs = length xss" by (metis length_map)
  have "list_all2 (\<lambda>ps g. mset ps \<subseteq># mset g) (map (map fst) xss) (map (collect_field \<circ> field_type) fs)"
    unfolding list_all2_conv_all_nth
  proof (intro conjI allI impI)
    fix i assume "i < length (map (map fst) xss)"
    then have i: "i < length fs" "i < length xss" using len by simp_all
    have "serialize_field (fs ! i) = Ret (xss ! i)" using x(1) i by (metis nth_map)
    then show "mset (map (map fst) xss ! i) \<subseteq># mset (map (collect_field \<circ> field_type) fs ! i)"
      using GStruct.IH [of "fs ! i" "xss ! i"] i by simp
  qed (simp add: len)
  from mset_concat_mono [OF this] show ?case by (simp add: x(2) map_concat)
next
  case (FPlain tag h v)
  then show ?case by (auto simp: Let_def split: if_splits)
qed auto

text \<open>What is relied on of Redis hashes: \<open>h w key name\<close> is the field of a hash. A later pair of \<open>HSet\<close> overwrites an earlier one.\<close>

definition hash_laws :: "('p, 'w) redis_db \<Rightarrow> ('w \<Rightarrow> string \<Rightarrow> string \<Rightarrow> string option) \<Rightarrow> bool" where
  "hash_laws D h \<longleftrightarrow>
     (\<forall>key ps w w'. HSet D key (flat ps) w = (None, w') \<longrightarrow>
        h w' = (\<lambda>k n. if k = key then (case map_of (rev ps) n of Some t \<Rightarrow> Some t | None \<Rightarrow> h w k n) else h w k n)) \<and>
     (\<forall>key ns w cmd w'. HMGet D key ns w = (cmd, w') \<longrightarrow> sc_err cmd = None \<longrightarrow> sc_val cmd = map (h w key) ns)"

lemma map_of_zip_map: "n \<in> set ns \<Longrightarrow> map_of (zip ns (map g ns)) n = Some (g n)"
  by (induction ns) auto

lemma Set_then_HMGet:
  assumes "hash_laws D h" and "v3_Set D [Some (key, AStruct s)] w = Ret (None, w1)"
    and "HMGet D key (collectFields (struct_type s)) w1 = (cmd, w2)" and "sc_err cmd = None"
  shows "\<exists>ps. SerializeValue (AStruct s) = Ret ps \<and>
    (\<forall>n \<in> set (collectFields (struct_type s)). map_of (zip (collectFields (struct_type s)) (sc_val cmd)) n =
       Some (case map_of (rev ps) n of Some t \<Rightarrow> Some t | None \<Rightarrow> h w key n)) \<and>
    fst ` set ps \<subseteq> set (collectFields (struct_type s))"
proof -
  obtain ps where ps: "serialize_struct s = Ret ps" "HSet D key (flat ps) w = (None, w1)"
    using assms(2) by (auto simp: v3_Set_def obind_Ret_iff SerializeValue_def)
  have hs: "HSet D key (flat ps) w = (None, w') \<longrightarrow>
      h w' = (\<lambda>k n. if k = key then (case map_of (rev ps) n of Some t \<Rightarrow> Some t | None \<Rightarrow> h w k n) else h w k n)" for w'
    using assms(1) unfolding hash_laws_def by blast
  have hg: "HMGet D key ns w1 = (cmd, w2) \<longrightarrow> sc_err cmd = None \<longrightarrow> sc_val cmd = map (h w1 key) ns" for ns
    using assms(1) unfolding hash_laws_def by blast
  have h1: "h w1 key n = (case map_of (rev ps) n of Some t \<Rightarrow> Some t | None \<Rightarrow> h w key n)" for n
    using hs [of w1] ps(2) by simp
  have val: "sc_val cmd = map (h w1 key) (collectFields (struct_type s))" using hg assms(3,4) by blast
  have "set (map fst ps) \<subseteq> set (collectFields (struct_type s))"
    using set_mset_mono [OF serialize_names(1) [OF ps(1)]] by simp
  moreover have "map_of (zip (collectFields (struct_type s)) (sc_val cmd)) n =
      Some (case map_of (rev ps) n of Some t \<Rightarrow> Some t | None \<Rightarrow> h w key n)"
    if "n \<in> set (collectFields (struct_type s))" for n
    unfolding val map_of_zip_map [OF that] h1 ..
  ultimately show ?thesis using ps(1) by (intro exI [of _ ps]) (simp add: SerializeValue_def)
qed


text \<open>A Redis with hashes only.\<close>

fun pairs_of :: "string list \<Rightarrow> (string \<times> string) list" where
  "pairs_of (n # t # rest) = (n, t) # pairs_of rest"
| "pairs_of _ = []"

definition toy_redis :: "(unit, string \<Rightarrow> string \<Rightarrow> string option) redis_db" where
  "toy_redis = \<lparr>HSet = (\<lambda>key ws h. (None, h(key := map_add (h key) (map_of (rev (pairs_of ws)))))),
     HMGet = (\<lambda>key ns h. (\<lparr>sc_args = ''hmget'' # key # ns, sc_val = map (h key) ns, sc_err = None\<rparr>, h)),
     Pipelined = (\<lambda>fn w. Ret (([], None), w)), p_HSet = (\<lambda>key ws p. (None, p)), p_HMGet = (\<lambda>key ns p. (None, p))\<rparr>"

lemma pairs_of_flat: "pairs_of (flat ps) = ps"
  by (induction ps) (auto simp: flat_def)

lemma toy_redis_laws: "hash_laws toy_redis (\<lambda>h. h)"
proof -
  have "HSet toy_redis key (flat ps) w = (None, w') \<longrightarrow>
      w' = (\<lambda>k n. if k = key then (case map_of (rev ps) n of Some t \<Rightarrow> Some t | None \<Rightarrow> w k n) else w k n)" for key ps w w'
    by (auto simp: toy_redis_def pairs_of_flat map_add_def fun_eq_iff split: option.splits)
  moreover have "HMGet toy_redis key ns w = (cmd, w') \<longrightarrow> sc_err cmd = None \<longrightarrow> sc_val cmd = map (w key) ns" for key ns w cmd w'
    by (auto simp: toy_redis_def)
  ultimately show ?thesis unfolding hash_laws_def by blast
qed

definition demo_struct :: gostruct where
  "demo_struct = GStruct [FEmbedded True (GStruct [FPlain ''name'' True \<lparr>lf_kind = KLen 1, lf_readable = True, lf_typed = IString ''x''\<rparr>]),
     FPlain ''age,omitempty'' True \<lparr>lf_kind = KInt 0, lf_readable = True, lf_typed = IOther ''0''\<rparr>]"


section \<open>What is asked for is what is scanned\<close>

text \<open>All embedded fields are exported, and embedded pointers point to structs.\<close>

primrec embeds_ok :: "gotype \<Rightarrow> bool" and embed_ok :: "tfield \<Rightarrow> bool" where
  "embeds_ok (TStruct fs) = list_all id (map embed_ok fs)"
| "embeds_ok (TOther h) = True"
| "embed_ok (TEmbedded ex ptr t) = (ex \<and> embeds_ok t \<and> (ptr \<longrightarrow> is_struct t))"
| "embed_ok (TPlain tag h) = True"

text \<open>The structs that are scanned, each with its path and its own tags.\<close>

definition own_tag :: "tfield \<Rightarrow> string list" where
  "own_tag f = (case f of TEmbedded ex ptr t \<Rightarrow> [] | TPlain tag h \<Rightarrow> if tag_used tag then [fst (cut CHR '','' tag)] else [])"

fun with_paths :: "(nat list \<Rightarrow> 'a list) list \<Rightarrow> nat list \<Rightarrow> nat \<Rightarrow> 'a list" where
  "with_paths [] path ix = []"
| "with_paths (f # fs) path ix = f (path @ [ix]) @ with_paths fs path (Suc ix)"

primrec scanned :: "gotype \<Rightarrow> nat list \<Rightarrow> (nat list \<times> string list) list" and
  scanned_field :: "tfield \<Rightarrow> nat list \<Rightarrow> (nat list \<times> string list) list" where
  "scanned (TStruct fs) = (\<lambda>path. (path, concat (map own_tag fs)) # with_paths (map scanned_field fs) path 0)"
| "scanned (TOther h) = (\<lambda>path. [])"
| "scanned_field (TEmbedded ex ptr t) = scanned t"
| "scanned_field (TPlain tag h) = (\<lambda>path. [])"

fun run_scans :: "(nat list \<Rightarrow> 's \<Rightarrow> err \<times> 's) \<Rightarrow> nat list list \<Rightarrow> 's \<Rightarrow> err \<times> 's" where
  "run_scans scan [] s = (None, s)"
| "run_scans scan (p # ps) s = (case scan p s of (Some e, s') \<Rightarrow> (Some e, s') | (None, s') \<Rightarrow> run_scans scan ps s')"

lemma run_scans_append:
  "run_scans scan (ps @ qs) s = (case run_scans scan ps s of (Some e, s') \<Rightarrow> (Some e, s') | (None, s') \<Rightarrow> run_scans scan qs s')"
  by (induction ps arbitrary: s) (auto split: prod.splits option.splits)

lemma run_fields_scans:
  assumes "\<And>f. f \<in> set fs \<Longrightarrow> \<forall>path s. deserialize_field scan f path s = Ret (run_scans scan (map fst (scanned_field f path)) s)"
  shows "run_fields (map (deserialize_field scan) fs) path ix s =
    Ret (run_scans scan (map fst (with_paths (map scanned_field fs) path ix)) s)"
  using assms
proof (induction fs arbitrary: ix s)
  case Nil
  then show ?case by simp
next
  case (Cons f fs)
  then show ?case
    by (auto simp: run_scans_append split: prod.splits option.splits)
qed

lemma deserialize_scans:
  "embeds_ok t \<Longrightarrow> is_struct t \<Longrightarrow> DeserializeValue scan t path s = Ret (run_scans scan (map fst (scanned t path)) s)"
  "embed_ok f \<Longrightarrow> deserialize_field scan f path2 s2 = Ret (run_scans scan (map fst (scanned_field f path2)) s2)"
proof (induction t and f arbitrary: path s and path2 s2)
  case (TStruct fs)
  have "\<forall>path s. deserialize_field scan f path s = Ret (run_scans scan (map fst (scanned_field f path)) s)" if "f \<in> set fs" for f
    using TStruct that by (simp add: list_all_iff)
  from run_fields_scans [OF this] show ?case by (simp split: prod.splits option.splits)
next
  case (TEmbedded ex ptr t)
  show ?case
  proof (cases "is_struct t")
    case True
    then show ?thesis using TEmbedded by simp
  next
    case False
    then have "scanned t path2 = []" by (cases t) simp_all
    then show ?thesis using TEmbedded.prems False by simp
  qed
qed simp_all

lemma with_paths_tags:
  assumes "\<And>f. f \<in> set fs \<Longrightarrow> \<forall>path. mset (own_tag f @ concat (map snd (scanned_field f path))) = mset (collect_field f)"
  shows "mset (concat (map own_tag fs)) + mset (concat (map snd (with_paths (map scanned_field fs) path ix))) =
    mset (concat (map collect_field fs))"
  using assms
proof (induction fs arbitrary: ix)
  case Nil
  then show ?case by simp
next
  case (Cons f fs)
  have f: "mset (own_tag f) + mset (concat (map snd (scanned_field f (path @ [ix])))) = mset (collect_field f)"
    using Cons.prems [of f] by simp
  have fs: "mset (concat (map own_tag fs)) + mset (concat (map snd (with_paths (map scanned_field fs) path (Suc ix)))) =
      mset (concat (map collect_field fs))"
    using Cons by simp
  show ?case by (simp flip: f fs)
qed

lemma scanned_tags:
  "mset (concat (map snd (scanned t path))) = mset (collectFields t)"
  "mset (own_tag f @ concat (map snd (scanned_field f path2))) = mset (collect_field f)"
proof (induction t and f arbitrary: path and path2)
  case (TStruct fs)
  then show ?case using with_paths_tags [of fs path 0] by simp
qed (simp_all add: own_tag_def)

text \<open>
  C36. For a type whose embedded fields are exported structs, \<open>DeserializeValue\<close> scans every embedded struct once, outermost
  first, until the first error, without panicking; and the tags of the structs it scans are exactly the fields that
  \<open>collectFields\<close> asks Redis for. (An unexported embedded struct is asked for but not scanned.)
\<close>

theorem all_asked_fields_are_scanned:
  assumes "embeds_ok t" and "is_struct t"
  shows "DeserializeValue scan t [] s = Ret (run_scans scan (map fst (scanned t [])) s) \<and>
    mset (concat (map snd (scanned t []))) = mset (collectFields t)"
  by (intro conjI deserialize_scans(1) [OF assms] scanned_tags(1))

theorem all_asked_fields_are_scanned_witness:
  "\<exists>r. DeserializeValue (\<lambda>path log. (None, log @ [path])) (struct_type demo_struct) [] [] = Ret r \<and> r = (None, [[], [0]])"
proof -
  have "embeds_ok (struct_type demo_struct)" "is_struct (struct_type demo_struct)" by (simp_all add: demo_struct_def)
  from all_asked_fields_are_scanned [OF this, of "\<lambda>path log. (None, log @ [path])" "[]"]
  show ?thesis by (simp add: demo_struct_def)
qed

end
