(* ===== verification/Storage_V3_Types.thy ===== *)
theory Storage_V3_Types
  imports Storage_V3_Values
begin

text \<open>
  Which struct types may be stored as Redis hashes (\<open>connectors/storage/v3/storage.go\<close>): the types that \<open>processRedisFieldTags\<close> lets pass, and that
  reading values of such a type does not panic, whatever Redis replies.
\<close>

text \<open>A type that can be a key of the cache, has a tagged field, and whose embedded fields are exported structs.\<close>

definition storable :: "gotype \<Rightarrow> bool" where
  "storable t \<longleftrightarrow> hashable t \<and> collectFields t \<noteq> []"

definition plain_embeds :: "gotype \<Rightarrow> bool" where
  "plain_embeds t \<longleftrightarrow> is_struct t \<and> embeds_ok t"

text \<open>The cache has the fields of the type under its name, or nothing.\<close>

definition cache_ok :: "'o result_type \<Rightarrow> field_cache \<Rightarrow> bool" where
  "cache_ok T cache \<longleftrightarrow> cache (rt_name T) = None \<or> cache (rt_name T) = Some (collectFields (rt_type T))"

text \<open>What is relied on of the client: a command that is answered carries its name and its key, and a pipeline panics only if the function that fills it
  does.\<close>

definition replies_ok :: "('p, 'w) redis_db \<Rightarrow> bool" where
  "replies_ok D \<longleftrightarrow>
     (\<forall>key ns w. 2 \<le> length (sc_args (fst (HMGet D key ns w)))) \<and>
     (\<forall>fn w. (\<forall>p. fn p \<noteq> Panic) \<longrightarrow>
        (\<exists>cmds e w'. Pipelined D fn w = Ret ((cmds, e), w') \<and> (\<forall>cmd \<in> set cmds. 2 \<le> length (sc_args cmd))))"

section \<open>Progress and preservation\<close>

lemma tags_of_type:
  assumes "cache_ok T cache"
  shows "processRedisFieldTags (rt_name T) (rt_type T) cache =
    (if storable (rt_type T) then Ret (collectFields (rt_type T), cache(rt_name T \<mapsto> collectFields (rt_type T))) else Panic)"
proof (cases "cache (rt_name T)")
  case (Some tags)
  then have "cache(rt_name T \<mapsto> collectFields (rt_type T)) = cache" "tags = collectFields (rt_type T)"
    using assms by (auto simp: cache_ok_def fun_upd_idem_iff)
  then show ?thesis using Some by (simp add: processRedisFieldTags_def storable_def)
qed (simp add: processRedisFieldTags_def storable_def Let_def)

lemma read_reply_progress:
  assumes "plain_embeds (rt_type T)" and "2 \<le> length (sc_args cmd)"
  shows "read_reply T cmd \<noteq> Panic"
proof -
  obtain e s where "DeserializeValue (rt_scan T cmd) (rt_type T) [] (rt_new T) = Ret (e, s)"
    using deserialize_scans(1) assms(1) unfolding plain_embeds_def by (metis prod.exhaust)
  then show ?thesis
    using assms(2) by (auto simp: read_reply_def split: option.splits)
qed

lemma read_replies_progress:
  assumes "plain_embeds (rt_type T)" and "\<forall>cmd \<in> set cmds. 2 \<le> length (sc_args cmd)"
  shows "\<exists>r. read_replies T cmds = Ret r"
  using assms(2)
proof (induction cmds)
  case (Cons cmd cmds)
  obtain r where r: "read_reply T cmd = Ret r"
    using read_reply_progress [OF assms(1)] Cons.prems by (cases "read_reply T cmd") auto
  obtain rs where "read_replies T cmds = Ret rs" using Cons by auto
  then show ?case using r by (cases r) simp_all
qed simp

lemma fill_get_progress: "fill_get D tags keys p \<noteq> Panic"
  by (induction D tags keys p rule: fill_get.induct) (auto split: prod.splits option.splits)

lemma pipeline_progress:
  assumes "replies_ok D" and "plain_embeds (rt_type T)"
  shows "\<exists>cmds e w' r. Pipelined D (fill_get D tags keys) w = Ret ((cmds, e), w') \<and> read_replies T cmds = Ret r"
proof -
  obtain cmds e w' where "Pipelined D (fill_get D tags keys) w = Ret ((cmds, e), w')" "\<forall>cmd \<in> set cmds. 2 \<le> length (sc_args cmd)"
    using assms(1) fill_get_progress [of D tags keys] unfolding replies_ok_def by blast
  then show ?thesis using read_replies_progress [OF assms(2)] by blast
qed

text \<open>
  C10. For struct types whose embedded fields are exported structs: reading values of a storable type, one or many, never panics, whatever Redis has
  under the keys and whatever the scanner reports; the cache then has exactly the type's fields; and \<open>Bind\<close> keeps what its
  slice had, as it was on an error. A type that is not storable panics at once, whatever the keys.
\<close>

theorem reading_storable_types_never_panics:
  assumes "plain_embeds (rt_type T)" and "replies_ok D" and "cache_ok T cache"
  shows "if storable (rt_type T)
    then (\<exists>r w'. v3_Get D T keys (cache, w) = Ret (r, cache(rt_name T \<mapsto> collectFields (rt_type T)), w')) \<and>
      (\<exists>e new w'. v3_Bind D T keys results (cache, w) =
         Ret ((e, results @ new), cache(rt_name T \<mapsto> collectFields (rt_type T)), w') \<and> (e = None \<or> new = []))
    else v3_Get D T keys (cache, w) = Panic \<and> v3_Bind D T keys results (cache, w) = Panic"
proof (cases "storable (rt_type T)")
  case True
  let ?tags = "collectFields (rt_type T)"
  note tags = tags_of_type [OF assms(3)]
  obtain cmds e w1 r where p: "Pipelined D (fill_get D ?tags keys) w = Ret ((cmds, e), w1)" "read_replies T cmds = Ret r"
    using pipeline_progress [OF assms(2,1)] by blast
  have bind: "\<exists>e new w'. v3_Bind D T keys results (cache, w) = Ret ((e, results @ new), cache(rt_name T \<mapsto> ?tags), w') \<and> (e = None \<or> new = [])"
    using tags True p by (cases e; cases r) (auto simp: v3_Bind_def)
  have get: "\<exists>r w'. v3_Get D T keys (cache, w) = Ret (r, cache(rt_name T \<mapsto> ?tags), w')"
  proof (cases "\<exists>key. keys = [key]")
    case True
    then obtain key where k: "keys = [key]" ..
    obtain cmd w' where cmd: "HMGet D key ?tags w = (cmd, w')" by fastforce
    then have "2 \<le> length (sc_args cmd)" using assms(2) unfolding replies_ok_def by (metis fst_conv)
    then obtain r where "read_reply T cmd = Ret r"
      using read_reply_progress [OF assms(1)] by (cases "read_reply T cmd") auto
    then show ?thesis using tags \<open>storable (rt_type T)\<close> cmd by (simp add: v3_Get_def k)
  next
    case False
    then have "v3_Get D T keys (cache, w) = obind (processRedisFieldTags (rt_name T) (rt_type T) cache) (\<lambda>(tags, cache').
       obind (Pipelined D (fill_get D tags keys) w) (\<lambda>((cmds, e), w'). case e of
            Some er \<Rightarrow> Ret (Inl er, cache', w')
          | None \<Rightarrow> omap (\<lambda>r. (r, cache', w')) (read_replies T cmds)))"
      by (auto simp: v3_Get_def split: list.split intro!: arg_cong2 [where f = obind])
    then show ?thesis using tags True p by (cases e) simp_all
  qed
  show ?thesis using True get bind by simp
next
  case False
  then show ?thesis
    using tags_of_type [OF assms(3)] by (simp add: v3_Get_def v3_Bind_def)
qed

definition demo_result :: "string list result_type" where
  "demo_result = \<lparr>rt_name = ''demo'', rt_type = struct_type demo_struct, rt_new = [],
     rt_scan = (\<lambda>cmd path o1. (None, o1 @ map (\<lambda>v. case v of None \<Rightarrow> '''' | Some s \<Rightarrow> s) (sc_val cmd))),
     rt_SetKey = Some (\<lambda>key o1. key # o1)\<rparr>"

theorem reading_storable_types_never_panics_witness:
  "\<exists>r w'. v3_Get toy_redis demo_result [''k''] (Map.empty, \<lambda>_. Map.empty) = Ret (r, [''demo'' \<mapsto> [''name'', ''age'']], w')"
proof -
  have ok: "plain_embeds (rt_type demo_result)" "replies_ok toy_redis" "cache_ok demo_result Map.empty"
    by (simp_all add: plain_embeds_def demo_result_def demo_struct_def replies_ok_def toy_redis_def cache_ok_def)
  have fields: "collectFields (rt_type demo_result) = [''name'', ''age'']" "storable (rt_type demo_result)" "rt_name demo_result = ''demo''"
    by (simp_all add: storable_def demo_result_def demo_struct_def tag_used_def)
  from reading_storable_types_never_panics [OF ok, of "[''k'']" "\<lambda>_. Map.empty" "[]"] fields show ?thesis by simp
qed

end
