(* ===== verification/Storage_Listener.thy ===== *)
theory Storage_Listener
  imports Go_Errors Decimal "HOL-Library.Sublist"
begin

text \<open>
  The \<open>LISTEN\<close> loop of \<open>connectors/storage/v2/api.go\<close>: one goroutine waits for notifications on a connection of the
  primary, puts them into a buffered channel, reconnects after connection errors and gives up after ten errors in a row.
  The driver, the context and the clock are the parameter \<open>listen_env\<close>. The lengths of the waits (the backoff) are
  not modelled, only that a wait may be cut short.
\<close>

section \<open>State\<close>

record notification =
  n_channel :: string
  n_payload :: string
  n_pid :: "32 word"

text \<open>The fields from \<open>l_result\<close> on are not in the Go struct: \<open>l_result\<close> is the error with which the goroutine ended
  (\<open>None\<close> while it runs), \<open>l_consecutive\<close> its local counter \<open>consecutiveErrors\<close>, \<open>l_held\<close> the connections acquired and not
  released, \<open>l_waited\<close> all notifications the driver returned, \<open>l_received\<close> those a reader took from the channel,
  \<open>l_dropped\<close> and \<open>l_stopped\<close> how many were dropped because the channel was full or the listener was stopping.\<close>

record 'c listener =
  l_channel :: string
  l_conn :: "'c option"
  l_notifs :: "notification list"
  l_lastErr :: err
  l_once :: bool
  l_result :: err
  l_closed :: bool
  l_consecutive :: nat
  l_held :: "'c list"
  l_waited :: "notification list"
  l_received :: "notification list"
  l_dropped :: nat
  l_stopped :: nat

definition maxConsecutiveListenerErrors :: nat where
  "maxConsecutiveListenerErrors = 10"

definition notificationChannelBufferSize :: nat where
  "notificationChannelBufferSize = 1000"

text \<open>What a \<open>select\<close> with a timer ends with.\<close>

datatype wait_result = CtxDone | DoneClosed | Elapsed

text \<open>\<open>env_ctx\<close> is \<open>ctx.Err()\<close>. \<open>env_select\<close> decides the \<open>select\<close> of \<open>sendNotification\<close>: True when it takes a stop
  signal (which it may do only if there is one).\<close>

record ('c, 'w) listen_env =
  env_ctx :: "'w \<Rightarrow> err"
  env_wait :: "'w \<Rightarrow> wait_result \<times> 'w"
  env_select :: "'w \<Rightarrow> bool \<times> 'w"
  env_Acquire :: "'w \<Rightarrow> (goerr + 'c) \<times> 'w"
  env_Exec :: "'c \<Rightarrow> string \<Rightarrow> 'w \<Rightarrow> err \<times> 'w"
  env_Wait :: "'c \<Rightarrow> 'w \<Rightarrow> (goerr + notification) \<times> 'w"
  env_Sanitize :: "string \<Rightarrow> string"
  env_PID :: "'c \<Rightarrow> 32 word"

section \<open>Operations\<close>

definition executeListenCommand :: "('c, 'w) listen_env \<Rightarrow> 'c \<Rightarrow> string \<Rightarrow> 'w \<Rightarrow> err \<times> 'w" where
  "executeListenCommand X conn channel w = env_Exec X conn (''LISTEN '' @ env_Sanitize X channel) w"

definition setLastError :: "err \<Rightarrow> 'c listener \<Rightarrow> 'c listener" where
  "setLastError e l = l\<lparr>l_lastErr := e\<rparr>"

definition release :: "'c \<Rightarrow> 'c listener \<Rightarrow> 'c listener" where
  "release c l = l\<lparr>l_held := remove1 c (l_held l)\<rparr>"

definition releaseCurrentConnection :: "'c listener \<Rightarrow> 'c listener" where
  "releaseCurrentConnection l = (case l_conn l of None \<Rightarrow> l | Some c \<Rightarrow> release c (l\<lparr>l_conn := None\<rparr>))"

definition cleanupConnection :: "'c listener \<Rightarrow> 'c listener" where
  "cleanupConnection l = (case l_conn l of None \<Rightarrow> l | Some c \<Rightarrow> release c (l\<lparr>l_conn := None\<rparr>))"

definition connect :: "('c, 'w) listen_env \<Rightarrow> 'c listener \<times> 'w \<Rightarrow> (bool \<times> bool) \<times> 'c listener \<times> 'w" where
  "connect X = (\<lambda>(l, w). case env_wait X w of
       (CtxDone, w1) \<Rightarrow> ((False, True), l, w1)
     | (DoneClosed, w1) \<Rightarrow> ((False, True), l, w1)
     | (Elapsed, w1) \<Rightarrow>
         (case env_Acquire X w1 of
            (Inl e, w2) \<Rightarrow> ((False, False), setLastError (Some e) l, w2)
          | (Inr c, w2) \<Rightarrow>
              (let l1 = l\<lparr>l_held := c # l_held l\<rparr> in
               case executeListenCommand X c (l_channel l) w2 of
                 (Some e, w3) \<Rightarrow> ((False, False), setLastError (Some e) (release c l1), w3)
               | (None, w3) \<Rightarrow> ((True, False), l1\<lparr>l_conn := Some c, l_consecutive := 0\<rparr>, w3))))"

definition max_text :: "string \<Rightarrow> string" where
  "max_text channel = ''max consecutive errors (10) reached during connection attempts for channel '' @ channel @ '', closing listener''"

definition maxErrorsReached :: "'c listener \<Rightarrow> goerr" where
  "maxErrorsReached l = (case l_lastErr l of
     Some e \<Rightarrow> Wrapped (max_text (l_channel l)) e
   | None \<Rightarrow> Sentinel (max_text (l_channel l)))"

definition checkCancellation :: "('c, 'w) listen_env \<Rightarrow> 'w \<Rightarrow> err" where
  "checkCancellation X w = env_ctx X w"

definition ensureConnection :: "('c, 'w) listen_env \<Rightarrow> 'c listener \<times> 'w \<Rightarrow> err \<times> 'c listener \<times> 'w" where
  "ensureConnection X = (\<lambda>(l, w).
     if l_conn l \<noteq> None then (None, l, w)
     else
       (case connect X (l, w) of ((connected, shouldStop), l1, w1) \<Rightarrow>
          (if shouldStop then (env_ctx X w1, l1, w1)
           else if \<not> connected
           then (let l2 = l1\<lparr>l_consecutive := l_consecutive l1 + 1\<rparr> in
                 if l_consecutive l2 \<ge> maxConsecutiveListenerErrors then (Some (maxErrorsReached l2), l2, w1)
                 else (None, l2, w1))
           else (None, l1, w1))))"

definition resetErrorState :: "'c listener \<Rightarrow> 'c listener" where
  "resetErrorState l = (if l_consecutive l > 0 then l\<lparr>l_consecutive := 0\<rparr> else l)"

definition sendNotification :: "('c, 'w) listen_env \<Rightarrow> notification \<Rightarrow> 'c listener \<times> 'w \<Rightarrow> 'c listener \<times> 'w" where
  "sendNotification X n = (\<lambda>(l, w). case env_select X w of (stopping, w1) \<Rightarrow>
     (if stopping then (l\<lparr>l_stopped := l_stopped l + 1\<rparr>, w1)
      else if length (l_notifs l) < notificationChannelBufferSize
      then (l\<lparr>l_notifs := l_notifs l @ [\<lparr>n_channel = n_channel n, n_payload = n_payload n, n_pid = n_pid n\<rparr>]\<rparr>, w1)
      else (l\<lparr>l_dropped := l_dropped l + 1\<rparr>, w1)))"

definition isConnectionError :: "err \<Rightarrow> bool" where
  "isConnectionError e \<longleftrightarrow>
     e \<noteq> None \<and>
     (as_err is_net_error e \<noteq> None \<or>
      (case as_err is_pg e of
         Some (Pg p) \<Rightarrow> sqlstate p \<in> {''08003'', ''08006'', ''57P01'', ''57P02'', ''57P03''}
       | _ \<Rightarrow> False))"

definition handleConnectionError :: "('c, 'w) listen_env \<Rightarrow> 'c listener \<times> 'w \<Rightarrow> err \<times> 'c listener \<times> 'w" where
  "handleConnectionError X = (\<lambda>(l, w).
     case connect X (releaseCurrentConnection l, w) of ((connected, shouldStop), l1, w1) \<Rightarrow>
       (if shouldStop then (env_ctx X w1, l1, w1) else (None, l1, w1)))"

definition handleTransientError :: "('c, 'w) listen_env \<Rightarrow> 'c listener \<times> 'w \<Rightarrow> err \<times> 'c listener \<times> 'w" where
  "handleTransientError X = (\<lambda>(l, w). case env_wait X w of
       (CtxDone, w1) \<Rightarrow> (env_ctx X w1, l, w1)
     | (DoneClosed, w1) \<Rightarrow> (None, l, w1)
     | (Elapsed, w1) \<Rightarrow> (None, l, w1))"

definition handleNotificationError :: "('c, 'w) listen_env \<Rightarrow> goerr \<Rightarrow> 'c listener \<times> 'w \<Rightarrow> err \<times> 'c listener \<times> 'w" where
  "handleNotificationError X e = (\<lambda>(l, w).
     if env_ctx X w \<noteq> None then (env_ctx X w, l, w)
     else
       (let l1 = (setLastError (Some e) l)\<lparr>l_consecutive := l_consecutive l + 1\<rparr> in
        if l_consecutive l1 \<ge> maxConsecutiveListenerErrors
        then (Some (Wrapped (''max consecutive errors (10) reached for channel '' @ l_channel l @ '', closing listener'') e), l1, w)
        else if isConnectionError (Some e) then handleConnectionError X (l1, w)
        else handleTransientError X (l1, w)))"

definition processNotification :: "('c, 'w) listen_env \<Rightarrow> 'c listener \<times> 'w \<Rightarrow> err \<times> 'c listener \<times> 'w" where
  "processNotification X = (\<lambda>(l, w). case l_conn l of
       None \<Rightarrow> (None, l, w)
     | Some c \<Rightarrow>
         (case env_Wait X c w of
            (Inl e, w1) \<Rightarrow> handleNotificationError X e (l, w1)
          | (Inr n, w1) \<Rightarrow> (None, sendNotification X n (resetErrorState (l\<lparr>l_waited := l_waited l @ [n]\<rparr>), w1))))"

text \<open>The end of the goroutine: its deferred calls, and its error for \<open>wg.Wait()\<close>.\<close>

definition finish :: "goerr \<Rightarrow> 'c listener \<Rightarrow> 'c listener" where
  "finish e l = (cleanupConnection l)\<lparr>l_closed := True, l_result := Some e\<rparr>"

text \<open>One iteration of the loop of \<open>receiveNotifications\<close>.\<close>

definition receive_iteration :: "('c, 'w) listen_env \<Rightarrow> 'c listener \<times> 'w \<Rightarrow> 'c listener \<times> 'w" where
  "receive_iteration X = (\<lambda>(l, w). case checkCancellation X w of
       Some e \<Rightarrow> (finish (Wrapped ''failed to check cancellation'' e) l, w)
     | None \<Rightarrow>
         (case ensureConnection X (l, w) of
            (Some e, l1, w1) \<Rightarrow> (finish (Wrapped ''failed to ensure connection'' e) l1, w1)
          | (None, l1, w1) \<Rightarrow>
              (case processNotification X (l1, w1) of
                 (Some e, l2, w2) \<Rightarrow> (finish (Wrapped ''failed to process notification'' e) l2, w2)
               | (None, l2, w2) \<Rightarrow> (l2, w2))))"

text \<open>At most \<open>fuel\<close> iterations.\<close>

fun receiveNotifications :: "('c, 'w) listen_env \<Rightarrow> nat \<Rightarrow> 'c listener \<times> 'w \<Rightarrow> 'c listener \<times> 'w" where
  "receiveNotifications X 0 s = s"
| "receiveNotifications X (Suc fuel) s =
     (if l_result (fst s) \<noteq> None then s else receiveNotifications X fuel (receive_iteration X s))"

definition new_listener :: "string \<Rightarrow> 'c \<Rightarrow> 'c listener" where
  "new_listener channel c = \<lparr>l_channel = channel, l_conn = Some c, l_notifs = [], l_lastErr = None, l_once = False,
     l_result = None, l_closed = False, l_consecutive = 0, l_held = [c], l_waited = [], l_received = [],
     l_dropped = 0, l_stopped = 0\<rparr>"

definition Listen :: "('c, 'w) listen_env \<Rightarrow> string \<Rightarrow> 'w \<Rightarrow> (goerr + 'c listener) \<times> 'c list \<times> 'w" where
  "Listen X channel w = (case env_Acquire X w of
       (Inl e, w1) \<Rightarrow> (Inl (Wrapped ''failed to acquire connection for LISTEN'' e), [], w1)
     | (Inr c, w1) \<Rightarrow>
         (case executeListenCommand X c channel w1 of
            (Some e, w2) \<Rightarrow> (Inl (Wrapped (''failed to execute LISTEN command for channel '' @ channel) e), remove1 c [c], w2)
          | (None, w2) \<Rightarrow> (Inr (new_listener channel c), [c], w2)))"

text \<open>The reader's side: the channel, \<open>BackendPID\<close>, \<open>Err\<close> and \<open>Close\<close>. \<open>Close\<close> gives the stop signals and waits for the
  goroutine, whose last state is \<open>final l\<close>.\<close>

definition receive :: "'c listener \<Rightarrow> notification option \<times> 'c listener" where
  "receive l = (case l_notifs l of
     [] \<Rightarrow> (None, l)
   | n # ns \<Rightarrow> (Some n, l\<lparr>l_notifs := ns, l_received := l_received l @ [n]\<rparr>))"

definition BackendPID :: "('c, 'w) listen_env \<Rightarrow> 'c listener \<Rightarrow> 32 word" where
  "BackendPID X l = (case l_conn l of None \<Rightarrow> 0 | Some c \<Rightarrow> env_PID X c)"

definition listener_Err :: "'c listener \<Rightarrow> err" where
  "listener_Err l = l_lastErr l"

definition listener_Close :: "('c listener \<Rightarrow> 'c listener) \<Rightarrow> 'c listener \<Rightarrow> err \<times> 'c listener" where
  "listener_Close final l = (if l_once l then (None, l) else (let l1 = final (l\<lparr>l_once := True\<rparr>) in (l_result l1, l1)))"

section \<open>Everything that can happen\<close>

text \<open>The goroutine makes an iteration, a reader receives, or the world changes by itself.\<close>

inductive listener_step :: "('c, 'w) listen_env \<Rightarrow> 'c listener \<times> 'w \<Rightarrow> 'c listener \<times> 'w \<Rightarrow> bool" for X where
  step_iterate: "l_result l = None \<Longrightarrow> listener_step X (l, w) (receive_iteration X (l, w))"
| step_receive: "listener_step X (l, w) (snd (receive l), w)"
| step_world: "listener_step X (l, w) (l, w')"

inductive_cases listener_stepE: "listener_step X s s'"

section \<open>Invariant\<close>

definition listener_core :: "'c listener \<Rightarrow> bool" where
  "listener_core l \<longleftrightarrow>
     subseq (l_received l @ l_notifs l) (l_waited l) \<and>
     length (l_waited l) = length (l_received l) + length (l_notifs l) + l_dropped l + l_stopped l \<and>
     length (l_notifs l) \<le> notificationChannelBufferSize \<and>
     l_held l = (case l_conn l of None \<Rightarrow> [] | Some c \<Rightarrow> [c])"

definition listener_inv :: "'c listener \<Rightarrow> bool" where
  "listener_inv l \<longleftrightarrow> listener_core l \<and>
     (if l_result l = None then l_consecutive l < maxConsecutiveListenerErrors \<and> \<not> l_closed l
      else l_conn l = None \<and> l_closed l)"

text \<open>What does not matter to \<open>listener_core\<close>.\<close>

lemma core_updates [simp]:
  "listener_core (l\<lparr>l_lastErr := e\<rparr>) = listener_core l"
  "listener_core (l\<lparr>l_consecutive := n\<rparr>) = listener_core l"
  "listener_core (l\<lparr>l_result := r\<rparr>) = listener_core l"
  "listener_core (l\<lparr>l_closed := b\<rparr>) = listener_core l"
  "listener_core (l\<lparr>l_once := b\<rparr>) = listener_core l"
  by (simp_all add: listener_core_def)

lemma release_current:
  assumes "listener_core l"
  shows "listener_core (releaseCurrentConnection l)" and "l_conn (releaseCurrentConnection l) = None"
    and "l_result (releaseCurrentConnection l) = l_result l" and "l_consecutive (releaseCurrentConnection l) = l_consecutive l"
    and "l_closed (releaseCurrentConnection l) = l_closed l"
  using assms by (simp_all add: releaseCurrentConnection_def release_def listener_core_def split: option.splits)

lemma cleanup_is_release: "cleanupConnection l = releaseCurrentConnection l"
  by (simp add: cleanupConnection_def releaseCurrentConnection_def)

lemma connect_facts:
  assumes "listener_core l" and "l_conn l = None" and "connect X (l, w) = ((connected, shouldStop), l1, w1)"
  shows "listener_core l1 \<and> l_result l1 = l_result l \<and> l_closed l1 = l_closed l \<and> l_waited l1 = l_waited l \<and>
    (if connected then l_consecutive l1 = 0 else l_consecutive l1 = l_consecutive l \<and> l_conn l1 = None)"
  using assms
  by (auto simp: connect_def setLastError_def release_def listener_core_def Let_def
      split: prod.splits wait_result.splits sum.splits option.splits)

lemma ensure_facts:
  assumes "listener_core l" and "ensureConnection X (l, w) = (e, l1, w1)"
  shows "listener_core l1 \<and> l_result l1 = l_result l \<and> l_closed l1 = l_closed l \<and>
    (l_consecutive l < maxConsecutiveListenerErrors \<longrightarrow> e = None \<longrightarrow> l_consecutive l1 < maxConsecutiveListenerErrors)"
proof (cases "l_conn l")
  case (Some c)
  then show ?thesis using assms by (auto simp: ensureConnection_def)
next
  case None
  obtain connected shouldStop l2 w2 where c: "connect X (l, w) = ((connected, shouldStop), l2, w2)" by (metis prod.exhaust)
  have "0 < maxConsecutiveListenerErrors" by (simp add: maxConsecutiveListenerErrors_def)
  then show ?thesis
    using connect_facts [OF assms(1) None c] assms(2) None c
    by (auto simp: ensureConnection_def Let_def split: if_splits)
qed

lemma send_facts:
  assumes "listener_core (l\<lparr>l_waited := ws\<rparr>)" and "sendNotification X n (l\<lparr>l_waited := ws @ [n]\<rparr>, w) = (l1, w1)"
  shows "listener_core l1 \<and> l_result l1 = l_result l \<and> l_closed l1 = l_closed l \<and> l_consecutive l1 = l_consecutive l"
  using assms
  by (auto simp: sendNotification_def listener_core_def list_emb_append_mono list_emb_append2
      split: prod.splits if_splits simp flip: append_assoc)

lemma handle_facts:
  assumes "listener_core l" and "handleNotificationError X er (l, w) = (e, l1, w1)"
  shows "listener_core l1 \<and> l_result l1 = l_result l \<and> l_closed l1 = l_closed l \<and>
    (l_consecutive l < maxConsecutiveListenerErrors \<longrightarrow> e = None \<longrightarrow> l_consecutive l1 < maxConsecutiveListenerErrors)"
proof -
  have pos: "0 < maxConsecutiveListenerErrors" by (simp add: maxConsecutiveListenerErrors_def)
  define l0 where "l0 = (setLastError (Some er) l)\<lparr>l_consecutive := l_consecutive l + 1\<rparr>"
  have l0: "listener_core l0" "l_result l0 = l_result l" "l_closed l0 = l_closed l" "l_consecutive l0 = l_consecutive l + 1"
    using assms(1) by (simp_all add: l0_def setLastError_def)
  consider "env_ctx X w \<noteq> None" | "env_ctx X w = None" "l_consecutive l0 \<ge> maxConsecutiveListenerErrors"
    | "env_ctx X w = None" "l_consecutive l0 < maxConsecutiveListenerErrors" "isConnectionError (Some er)"
    | "env_ctx X w = None" "l_consecutive l0 < maxConsecutiveListenerErrors" "\<not> isConnectionError (Some er)"
    by linarith
  then show ?thesis
  proof cases
    case 1
    then show ?thesis using assms by (auto simp: handleNotificationError_def)
  next
    case 2
    then show ?thesis using assms(2) l0 by (auto simp: handleNotificationError_def Let_def l0_def)
  next
    case 3
    then have h: "handleConnectionError X (l0, w) = (e, l1, w1)"
      using assms(2) by (simp add: handleNotificationError_def Let_def l0_def)
    obtain connected shouldStop l2 w2 where c: "connect X (releaseCurrentConnection l0, w) = ((connected, shouldStop), l2, w2)"
      by (metis prod.exhaust)
    note f = connect_facts [OF release_current(1,2) [OF l0(1)] c] release_current [OF l0(1)]
    then show ?thesis using h c l0 3(2) pos by (auto simp: handleConnectionError_def split: if_splits)
  next
    case 4
    then have "handleTransientError X (l0, w) = (e, l1, w1)"
      using assms(2) by (simp add: handleNotificationError_def Let_def l0_def)
    then have "l1 = l0" by (auto simp: handleTransientError_def split: prod.splits wait_result.splits)
    then show ?thesis using l0 4(2) by simp
  qed
qed

lemma process_facts:
  assumes "listener_core l" and "processNotification X (l, w) = (e, l1, w1)"
  shows "listener_core l1 \<and> l_result l1 = l_result l \<and> l_closed l1 = l_closed l \<and>
    (l_consecutive l < maxConsecutiveListenerErrors \<longrightarrow> e = None \<longrightarrow> l_consecutive l1 < maxConsecutiveListenerErrors)"
proof (cases "l_conn l")
  case None
  then show ?thesis using assms by (auto simp: processNotification_def)
next
  case (Some c)
  show ?thesis
  proof (cases "env_Wait X c w")
    case (Pair r w2)
    show ?thesis
    proof (cases r)
      case (Inl er)
      then have "handleNotificationError X er (l, w2) = (e, l1, w1)"
        using assms(2) Some Pair by (simp add: processNotification_def)
      then show ?thesis by (rule handle_facts [OF assms(1)])
    next
      case (Inr n)
      let ?l = "resetErrorState l"
      have reset: "resetErrorState (l\<lparr>l_waited := l_waited l @ [n]\<rparr>) = ?l\<lparr>l_waited := l_waited l @ [n]\<rparr>"
          "?l\<lparr>l_waited := l_waited l\<rparr> = ?l"
        by (simp_all add: resetErrorState_def)
      have "listener_core (?l\<lparr>l_waited := l_waited l\<rparr>)" using assms(1) unfolding reset(2) by (simp add: resetErrorState_def)
      moreover have "sendNotification X n (?l\<lparr>l_waited := l_waited l @ [n]\<rparr>, w2) = (l1, w1)"
        using assms(2) Some Pair Inr by (simp add: processNotification_def reset(1))
      ultimately have "listener_core l1 \<and> l_result l1 = l_result ?l \<and> l_closed l1 = l_closed ?l \<and> l_consecutive l1 = l_consecutive ?l"
        by (rule send_facts)
      then show ?thesis by (auto simp: resetErrorState_def)
    qed
  qed
qed

lemma receiver_finish_inv: "listener_core l \<Longrightarrow> listener_inv (finish e l)"
  using release_current [of l] by (simp add: finish_def listener_inv_def cleanup_is_release)

lemma iteration_inv:
  assumes "listener_inv l" and "l_result l = None"
  shows "listener_inv (fst (receive_iteration X (l, w)))"
proof -
  have l: "listener_core l" "l_consecutive l < maxConsecutiveListenerErrors" "\<not> l_closed l"
    using assms by (simp_all add: listener_inv_def)
  show ?thesis
  proof (cases "checkCancellation X w")
    case (Some e)
    then show ?thesis using receiver_finish_inv [OF l(1)] by (simp add: receive_iteration_def)
  next
    case None
    obtain e1 l1 w1 where e: "ensureConnection X (l, w) = (e1, l1, w1)" by (metis prod.exhaust)
    note f1 = ensure_facts [OF l(1) e]
    show ?thesis
    proof (cases e1)
      case (Some er)
      then show ?thesis using None e f1 receiver_finish_inv [of l1] by (simp add: receive_iteration_def)
    next
      case e1: None
      obtain e2 l2 w2 where p: "processNotification X (l1, w1) = (e2, l2, w2)" by (metis prod.exhaust)
      have l1: "listener_core l1" using f1 by simp
      note f2 = process_facts [OF l1 p]
      show ?thesis
      proof (cases e2)
        case (Some er)
        then show ?thesis using None e e1 p f2 receiver_finish_inv [of l2] by (simp add: receive_iteration_def)
      next
        case e2: None
        then show ?thesis using None e e1 p f1 f2 l assms(2) by (simp add: receive_iteration_def listener_inv_def)
      qed
    qed
  qed
qed

lemma receive_inv: "listener_inv l \<Longrightarrow> listener_inv (snd (receive l))"
  by (auto simp: receive_def listener_inv_def listener_core_def split: list.splits)

lemma listener_step_inv: "listener_step X s s' \<Longrightarrow> listener_inv (fst s) \<Longrightarrow> listener_inv (fst s')"
proof (induction rule: listener_step.induct)
  case (step_iterate l w)
  then show ?case using iteration_inv [of l X w] by (simp only: fst_conv)
next
  case (step_receive l w)
  then show ?case using receive_inv [of l] by (simp only: fst_conv)
next
  case (step_world l w w')
  then show ?case by (simp only: fst_conv)
qed

lemma listener_steps_inv: "(listener_step X)\<^sup>*\<^sup>* s s' \<Longrightarrow> listener_inv (fst s) \<Longrightarrow> listener_inv (fst s')"
  by (induction rule: rtranclp_induct) (blast intro: listener_step_inv)+

lemma Listen_inv: "Listen X channel w = (Inr l, held, w') \<Longrightarrow> listener_inv l \<and> held = l_held l"
  by (auto simp: Listen_def new_listener_def listener_inv_def listener_core_def maxConsecutiveListenerErrors_def
      split: prod.splits sum.splits option.splits)

section \<open>Properties\<close>


text \<open>An environment: the world counts the notifications still to come; after them waiting fails.\<close>

definition toy_env :: "(nat, nat) listen_env" where
  "toy_env = \<lparr>env_ctx = (\<lambda>w. None), env_wait = (\<lambda>w. (Elapsed, w)), env_select = (\<lambda>w. (False, w)),
     env_Acquire = (\<lambda>w. if w = 0 then (Inl (NetOp ''refused''), w) else (Inr 7, w)), env_Exec = (\<lambda>c sql w. (None, w)),
     env_Wait = (\<lambda>c w. if w = 0 then (Inl (NetOp ''closed''), w)
        else (Inr \<lparr>n_channel = ''ch'', n_payload = ''p'', n_pid = 1\<rparr>, w - 1)),
     env_Sanitize = (\<lambda>s. s), env_PID = (\<lambda>c. of_nat c)\<rparr>"

lemma toy_Listen: "Listen toy_env ''ch'' 1 = (Inr (new_listener ''ch'' 7), [7], 1)"
  by (simp add: Listen_def toy_env_def executeListenCommand_def)

lemmas listener_defs = receive_iteration_def checkCancellation_def ensureConnection_def processNotification_def
  resetErrorState_def sendNotification_def new_listener_def


text \<open>The database is gone: connecting and waiting fail, and nothing stops the listener.\<close>

definition database_gone :: "('c, 'w) listen_env \<Rightarrow> bool" where
  "database_gone X \<longleftrightarrow> (\<forall>w. env_ctx X w = None \<and> fst (env_wait X w) = Elapsed \<and> (\<exists>e. fst (env_Acquire X w) = Inl e) \<and>
     (\<forall>c. \<exists>e. fst (env_Wait X c w) = Inl e))"

lemma gone_connect:
  assumes "database_gone X"
  shows "\<exists>l1 w1. connect X (l, w) = ((False, False), l1, w1) \<and> l_consecutive l1 = l_consecutive l \<and> l_result l1 = l_result l \<and>
    l_conn l1 = l_conn l"
proof -
  obtain w1 where w1: "env_wait X w = (Elapsed, w1)" using assms by (metis database_gone_def prod.collapse)
  obtain e w2 where "env_Acquire X w1 = (Inl e, w2)" using assms by (metis database_gone_def prod.collapse)
  then show ?thesis using w1 by (simp add: connect_def setLastError_def)
qed

lemma gone_handle:
  assumes "database_gone X" and "l_consecutive l + 1 < maxConsecutiveListenerErrors"
  shows "\<exists>l1 w1. handleNotificationError X e (l, w) = (None, l1, w1) \<and> l_consecutive l1 = l_consecutive l + 1 \<and>
    l_result l1 = l_result l"
proof -
  have ctx: "env_ctx X w = None" using assms(1) by (simp add: database_gone_def)
  define l0 where "l0 = (setLastError (Some e) l)\<lparr>l_consecutive := l_consecutive l + 1\<rparr>"
  have l0: "l_consecutive l0 = l_consecutive l + 1" "l_result l0 = l_result l" by (simp_all add: l0_def setLastError_def)
  have h: "handleNotificationError X e (l, w) =
      (if isConnectionError (Some e) then handleConnectionError X (l0, w) else handleTransientError X (l0, w))"
    using ctx assms(2) by (simp add: handleNotificationError_def Let_def l0_def setLastError_def)
  show ?thesis
  proof (cases "isConnectionError (Some e)")
    case True
    obtain l1 w1 where "connect X (releaseCurrentConnection l0, w) = ((False, False), l1, w1)"
        "l_consecutive l1 = l_consecutive (releaseCurrentConnection l0)" "l_result l1 = l_result (releaseCurrentConnection l0)"
      using gone_connect [OF assms(1), of "releaseCurrentConnection l0" w] by blast
    moreover have "l_consecutive (releaseCurrentConnection l0) = l_consecutive l0" "l_result (releaseCurrentConnection l0) = l_result l0"
      by (simp_all add: releaseCurrentConnection_def release_def split: option.splits)
    ultimately show ?thesis using True h l0 by (simp add: handleConnectionError_def)
  next
    case False
    obtain w1 where "env_wait X w = (Elapsed, w1)" using assms(1) by (metis database_gone_def prod.collapse)
    then show ?thesis using False h l0 by (simp add: handleTransientError_def)
  qed
qed

lemma gone_iteration:
  assumes gone: "database_gone X" and n: "l_consecutive l < maxConsecutiveListenerErrors" and run: "l_result l = None"
  shows "l_result (fst (receive_iteration X (l, w))) \<noteq> None \<or>
    (l_result (fst (receive_iteration X (l, w))) = None \<and> l_consecutive l + 1 < maxConsecutiveListenerErrors \<and>
     l_consecutive (fst (receive_iteration X (l, w))) = l_consecutive l + 1)"
proof (cases "l_conn l")
  case None
  obtain l1 w1 where c: "connect X (l, w) = ((False, False), l1, w1)" "l_consecutive l1 = l_consecutive l"
      "l_result l1 = l_result l" "l_conn l1 = None"
    using gone_connect [OF gone, of l w] None by metis
  show ?thesis
    using gone None c run
    by (auto simp: receive_iteration_def checkCancellation_def database_gone_def ensureConnection_def Let_def
        processNotification_def finish_def)
next
  case (Some cn)
  obtain e w1 where w1: "env_Wait X cn w = (Inl e, w1)" using gone by (metis database_gone_def prod.collapse)
  have ctx: "env_ctx X w' = None" for w' using gone by (simp add: database_gone_def)
  have it: "receive_iteration X (l, w) = (case handleNotificationError X e (l, w1) of
      (Some e, l2, w2) \<Rightarrow> (finish (Wrapped ''failed to process notification'' e) l2, w2) | (None, l2, w2) \<Rightarrow> (l2, w2))"
    using Some w1 ctx by (simp add: receive_iteration_def checkCancellation_def ensureConnection_def processNotification_def)
  show ?thesis
  proof (cases "l_consecutive l + 1 < maxConsecutiveListenerErrors")
    case True
    then show ?thesis using gone_handle [OF gone True, of e w1] it run by auto
  next
    case False
    then show ?thesis using it ctx by (simp add: handleNotificationError_def Let_def setLastError_def finish_def)
  qed
qed

lemma gone_run:
  assumes gone: "database_gone X"
  shows "l_result l = None \<Longrightarrow> l_consecutive l < maxConsecutiveListenerErrors \<Longrightarrow>
    fuel = maxConsecutiveListenerErrors - l_consecutive l \<Longrightarrow>
    l_result (fst (receiveNotifications X fuel (l, w))) \<noteq> None"
proof (induction fuel arbitrary: l w)
  case 0
  then show ?case by simp
next
  case (Suc fuel)
  obtain l1 w1 where it: "receive_iteration X (l, w) = (l1, w1)" by (metis prod.exhaust)
  have eq: "receiveNotifications X (Suc fuel) (l, w) = receiveNotifications X fuel (l1, w1)" using Suc.prems(1) it by simp
  show ?case
  proof (cases "l_result l1")
    case None
    then have "l_consecutive l + 1 < maxConsecutiveListenerErrors" "l_consecutive l1 = l_consecutive l + 1"
      using gone_iteration [OF gone Suc.prems(2,1), of w] it by simp_all
    then have "l_result (fst (receiveNotifications X fuel (l1, w1))) \<noteq> None"
      using Suc.prems None by (intro Suc.IH) simp_all
    then show ?thesis unfolding eq .
  next
    case (Some e)
    then have "receiveNotifications X fuel (l1, w1) = (l1, w1)" by (cases fuel) simp_all
    then show ?thesis unfolding eq using Some by simp
  qed
qed

text \<open>
  C23. When the database is gone for good, a listener gives up: after at most ten further iterations, one for each error left of
  the ten, its goroutine has ended with an error.
\<close>

theorem listener_gives_up:
  assumes "database_gone X" and "l_result l = None" and "l_consecutive l < 10"
  shows "l_result (fst (receiveNotifications X (10 - l_consecutive l) (l, w))) \<noteq> None"
  using gone_run [OF assms(1,2)] assms(3) by (simp add: maxConsecutiveListenerErrors_def)

definition gone_env :: "(nat, nat) listen_env" where
  "gone_env = toy_env\<lparr>env_Acquire := (\<lambda>w. (Inl (NetOp ''refused''), w)), env_Wait := (\<lambda>c w. (Inl (NetOp ''closed''), w))\<rparr>"

theorem listener_gives_up_witness:
  "l_result (fst (receiveNotifications gone_env 10 (new_listener ''ch'' 7, 0))) \<noteq> None"
proof -
  have "database_gone gone_env" by (simp add: database_gone_def gone_env_def toy_env_def)
  from listener_gives_up [OF this, of "new_listener ''ch'' 7" 0] show ?thesis by (simp add: new_listener_def)
qed

end
