(* ===== verification/Riverqueue.thy ===== *)
theory Riverqueue
  imports Storage_Connect
begin

text \<open>
  Package \<open>riverqueue\<close>: a job-queue client over several primary databases (\<open>riverqueue/database.go\<close>) that
  switches to another primary when the active one fails and repeats the push (\<open>riverqueue/client.go\<close>).

  The job library (\<open>river\<close>, \<open>rivermigrate\<close>), the pools and the URL parser are parameters. A pool is named
  by a number, and so is a river client; \<^term>\<open>None\<close> is nil.
\<close>

section \<open>The database client\<close>

record databaseClient =
  dc_Closed :: bool
  dc_Active :: "nat option"
  dc_Masters :: "string list"
  dc_CurrentIndex :: nat

definition errNoActiveMaster :: goerr where
  "errNoActiveMaster = Sentinel ''no active master available''"

text \<open>The driver calls: configuring and starting pools, pinging and closing them.\<close>

record 'w rq_pools = "'w pool_lib" +
  rq_Ping :: "nat \<Rightarrow> 'w \<Rightarrow> err \<times> 'w"
  rq_Close :: "nat \<Rightarrow> 'w \<Rightarrow> 'w"

record 'u pg_url_lib = "'u url_lib" +
  url_Username :: "'u \<Rightarrow> string"
  url_set_UserPassword :: "string \<Rightarrow> string \<Rightarrow> 'u \<Rightarrow> 'u"

definition createPgURL :: "('u, 'm) pg_url_lib_scheme \<Rightarrow> string \<Rightarrow> string \<Rightarrow> string \<Rightarrow> goerr + string" where
  "createPgURL L username password target =
     (let target' = (if \<not> has_prefix target ''postgres://'' \<and> \<not> has_prefix target ''postgresql://''
                     then ''postgres://'' @ target else target) in
      case url_Parse L target' of
        Inl e \<Rightarrow> Inl e
      | Inr parsed \<Rightarrow>
          Inr (url_String L (if url_Username L parsed = [] then url_set_UserPassword L username password parsed
                             else parsed)))"

fun createPgURLs :: "('u, 'm) pg_url_lib_scheme \<Rightarrow> string \<Rightarrow> string \<Rightarrow> string list \<Rightarrow> goerr + string list" where
  "createPgURLs L username password [] = Inr []"
| "createPgURLs L username password (u # us) = (case createPgURL L username password u of
     Inl e \<Rightarrow> Inl (Wrapped ''invalid write URL at index'' e)
   | Inr m \<Rightarrow> (case createPgURLs L username password us of Inl e \<Rightarrow> Inl e | Inr ms \<Rightarrow> Inr (m # ms)))"

definition rq_configure :: "string \<Rightarrow> pool_config \<Rightarrow> pool_config" where
  "rq_configure connectionString c0 =
     (let low = to_lower connectionString;
          c1 = c0\<lparr>StatementCacheCapacity := 1024, DescriptionCacheCapacity := 1024, ConnectTimeout := 30 * second\<rparr>;
          c2 = (if contains low ''pool_max_conn_idle_time'' then c1 else c1\<lparr>MaxConnIdleTime := 60 * second\<rparr>);
          c3 = (if contains low ''pool_health_check_period'' then c2 else c2\<lparr>HealthCheckPeriod := 30 * second\<rparr>);
          c4 = c3\<lparr>MaxConnLifetimeJitter := 10 * 60 * second, MaxConnLifetime := 24 * 60 * 60 * second,
                  AfterConnect := Some ''30s''\<rparr>
      in if contains low ''pool_min_conns'' then c4 else c4\<lparr>MinConns := 1\<rparr>)"

definition poolConnect :: "('w, 'm) rq_pools_scheme \<Rightarrow> string \<Rightarrow> 'w \<Rightarrow> (goerr + nat) \<times> 'w" where
  "poolConnect P connectionString w = (case pool_ParseConfig P connectionString of
     Inl e \<Rightarrow> (Inl (Wrapped ''failed to parse connection string'' e), w)
   | Inr conf \<Rightarrow> pool_NewWithConfig P (rq_configure connectionString conf) w)"

text \<open>\<open>poolDoAfterConnect\<close> is \<open>doAfterConnect\<close> of \<open>storage/v2\<close> for the constant \<open>30s\<close>.\<close>

definition poolDoAfterConnect ::
    "((string \<times> string) list \<Rightarrow> (string \<times> string) list) \<Rightarrow> 'w conn_lib \<Rightarrow> 'w \<Rightarrow> err \<times> 'w" where
  "poolDoAfterConnect ord C w = doAfterConnect ord C ''30s'' w"

text \<open>The first primary that can be connected to, from index \<open>i\<close> on.\<close>

fun connect_first :: "('w, 'm) rq_pools_scheme \<Rightarrow> nat \<Rightarrow> string list \<Rightarrow> 'w \<Rightarrow> (nat \<times> nat) option \<times> 'w" where
  "connect_first P i [] w = (None, w)"
| "connect_first P i (m # ms) w = (case poolConnect P m w of
     (Inl e, w') \<Rightarrow> connect_first P (Suc i) ms w'
   | (Inr conn, w') \<Rightarrow> (Some (i, conn), w'))"

definition newDatabaseClient ::
    "('u, 'm) pg_url_lib_scheme \<Rightarrow> ('w, 'n) rq_pools_scheme \<Rightarrow> string \<Rightarrow> string \<Rightarrow> string list \<Rightarrow> 'w \<Rightarrow>
     (goerr + databaseClient) \<times> 'w" where
  "newDatabaseClient L P username password urls w =
     (if length urls = 0 then (Inl (Sentinel ''no write URLs provided''), w)
      else case createPgURLs L username password urls of
        Inl e \<Rightarrow> (Inl e, w)
      | Inr masters \<Rightarrow>
          (case connect_first P 0 masters w of
             (None, w') \<Rightarrow> (Inl (Wrapped ''failed to connect to any master'' errNoActiveMaster), w')
           | (Some (i, conn), w') \<Rightarrow>
               (Inr \<lparr>dc_Closed = False, dc_Active = Some conn, dc_Masters = masters, dc_CurrentIndex = i\<rparr>, w')))"

definition dc_Close :: "('w, 'm) rq_pools_scheme \<Rightarrow> databaseClient \<Rightarrow> 'w \<Rightarrow> databaseClient \<times> 'w" where
  "dc_Close P d w = (d\<lparr>dc_Closed := True, dc_Active := None\<rparr>,
     (case dc_Active d of Some p \<Rightarrow> rq_Close P p w | None \<Rightarrow> w))"

definition dc_Get :: "databaseClient \<Rightarrow> nat option" where
  "dc_Get d = (if length (dc_Masters d) = 0 then None else dc_Active d)"

definition dc_Ping :: "('w, 'm) rq_pools_scheme \<Rightarrow> databaseClient \<Rightarrow> 'w \<Rightarrow> err \<times> 'w" where
  "dc_Ping P d w = (case dc_Get d of
     None \<Rightarrow> (Some (Wrapped ''no active master to ping'' errNoActiveMaster), w)
   | Some i \<Rightarrow> (case rq_Ping P i w of (e, w') \<Rightarrow> (wrap_err ''ping to active master failed'' e, w')))"

section \<open>When to switch\<close>

text \<open>The classes of SQL states that \<open>github.com/jackc/pgerrcode\<close> recognises.\<close>

record pgerrcode =
  IsConnectionException :: "string \<Rightarrow> bool"
  IsSystemError :: "string \<Rightarrow> bool"
  IsInternalError :: "string \<Rightarrow> bool"
  IsConfigurationFileError :: "string \<Rightarrow> bool"
  IsOperatorIntervention :: "string \<Rightarrow> bool"

definition is_connect_error :: "goerr \<Rightarrow> bool" where
  "is_connect_error e = (case e of ConnectErr _ \<Rightarrow> True | _ \<Rightarrow> False)"

definition expectedErrors :: "goerr list" where
  "expectedErrors = [DeadlineExceeded, Sentinel ''closed pool'', Sentinel ''unexpected EOF'', Sentinel ''EOF'',
     Sentinel ''broken pipe'', Sentinel ''use of closed network connection'']"

definition shouldSwitchMaster :: "pgerrcode \<Rightarrow> err \<Rightarrow> bool" where
  "shouldSwitchMaster C e =
     (if e = None then False
      else if as_err is_netop e \<noteq> None \<or> as_err is_connect_error e \<noteq> None then True
      else case as_err is_pg e of
        Some (Pg p) \<Rightarrow>
          IsConnectionException C (sqlstate p) \<or> IsSystemError C (sqlstate p) \<or> IsInternalError C (sqlstate p) \<or>
          IsConfigurationFileError C (sqlstate p) \<or> IsOperatorIntervention C (sqlstate p)
      | _ \<Rightarrow> list_ex (\<lambda>x. is_err e (Some x)) expectedErrors)"

section \<open>Switching\<close>

text \<open>\<open>calculateConnectOrder\<close>; from three addresses on, an index outside the slice panics.\<close>

definition calculateConnectOrder :: "string list \<Rightarrow> nat \<Rightarrow> nat list outcome" where
  "calculateConnectOrder addresses curIx =
     (let n = length addresses in
      if n = 0 then Ret []
      else if n = 1 then Ret [0]
      else if n = 2 then Ret [(curIx + 1) mod 2, curIx]
      else
        (let all = [0..<n] in
         if n < curIx + 1 then Panic
         else Ret ((drop (curIx + 1) all @ take curIx all) @ [curIx])))"

text \<open>The loop of \<open>switchMaster\<close>: the first primary of the order that can be connected to and pinged;
  \<open>db.Masters[i]\<close> panics outside the slice.\<close>

fun switch_loop :: "('w, 'm) rq_pools_scheme \<Rightarrow> string list \<Rightarrow> nat list \<Rightarrow> 'w \<Rightarrow> (nat \<times> nat) option outcome \<times> 'w" where
  "switch_loop P masters [] w = (Ret None, w)"
| "switch_loop P masters (i # is) w =
     (if length masters \<le> i then (Panic, w)
      else case poolConnect P (masters ! i) w of
        (Inl e, w1) \<Rightarrow> switch_loop P masters is w1
      | (Inr conn, w1) \<Rightarrow>
          (case rq_Ping P conn w1 of
             (Some e, w2) \<Rightarrow> switch_loop P masters is (rq_Close P conn w2)
           | (None, w2) \<Rightarrow> (Ret (Some (i, conn)), w2)))"

text \<open>\<open>seen\<close> is \<open>currentMaster\<close>: the active pool as it was before \<open>SwitchMu\<close> was acquired, when another
  goroutine may have switched.\<close>

definition switchMaster ::
    "('w, 'm) rq_pools_scheme \<Rightarrow> nat option \<Rightarrow> databaseClient \<Rightarrow> 'w \<Rightarrow> err outcome \<times> databaseClient \<times> 'w" where
  "switchMaster P seen d w =
     (if seen \<noteq> None \<and> seen \<noteq> dc_Active d then (Ret None, d, w)
      else case calculateConnectOrder (dc_Masters d) (dc_CurrentIndex d) of
        Panic \<Rightarrow> (Panic, d, w)
      | Ret order \<Rightarrow>
          (case switch_loop P (dc_Masters d) order w of
             (Panic, w1) \<Rightarrow> (Panic, d, w1)
           | (Ret found, w1) \<Rightarrow>
               (let (oldMaster, d1) = (case found of
                      None \<Rightarrow> (None, d)
                    | Some (i, conn) \<Rightarrow> (dc_Active d, d\<lparr>dc_Active := Some conn, dc_CurrentIndex := i\<rparr>))
                in case oldMaster of
                     Some p \<Rightarrow> (Ret None, d1, rq_Close P p w1)
                   | None \<Rightarrow> (Ret (Some (Wrapped ''no active master was found'' errNoActiveMaster)), d1, w1))))"

section \<open>The queue client\<close>

record rq_config =
  rq_User :: string
  rq_Password :: string
  PrimaryURLs :: "string list"
  QueueName :: string
  rq_ID :: string
  MaxQueueWorkers :: int
  JobMaxTimeout :: int

text \<open>\<open>&Config{}\<close>\<close>

definition empty_config :: rq_config where
  "empty_config = \<lparr>rq_User = [], rq_Password = [], PrimaryURLs = [], QueueName = [], rq_ID = [],
     MaxQueueWorkers = 0, JobMaxTimeout = 0\<rparr>"

definition ErrNotConnected :: goerr where "ErrNotConnected = Sentinel ''not connected to job queue''"

definition ErrInvalidArguments :: goerr where "ErrInvalidArguments = Sentinel ''invalid arguments''"

definition defaultJobTimeout :: int where "defaultJobTimeout = 10 * 60 * second"

definition defaultWorkers :: int where "defaultWorkers = 95"

text \<open>An \<open>Option\<close> changes the configuration only.\<close>

type_synonym rq_option = "rq_config option \<Rightarrow> rq_config option"

definition WithConfig :: "rq_config \<Rightarrow> rq_option" where
  "WithConfig cfg q = Some cfg"

definition WithQueueName :: "string \<Rightarrow> rq_option" where
  "WithQueueName name q = Some ((case q of None \<Rightarrow> empty_config | Some c \<Rightarrow> c)\<lparr>QueueName := name\<rparr>)"

definition WithClientID :: "string \<Rightarrow> rq_option" where
  "WithClientID ident q = Some ((case q of None \<Rightarrow> empty_config | Some c \<Rightarrow> c)\<lparr>rq_ID := ident\<rparr>)"

text \<open>\<open>formatQueueName\<close> iterates over runes; the replaced ones are ASCII, so on valid UTF-8 the bytes can be
  taken one by one.\<close>

definition replaced_rune :: "char \<Rightarrow> bool" where
  "replaced_rune c \<longleftrightarrow> c \<in> {CHR '':'', CHR ''/'', CHR ''.'', CHR ''_''}"

fun format_name :: "nat \<Rightarrow> nat \<Rightarrow> bool \<Rightarrow> string \<Rightarrow> string" where
  "format_name n i lastReplaced [] = []"
| "format_name n i lastReplaced (r # rs) =
     (if replaced_rune r
      then (if \<not> lastReplaced \<and> i \<noteq> n - 1 \<and> i \<noteq> 0 then ''_'' else []) @ format_name n (Suc i) True rs
      else r # format_name n (Suc i) False rs)"

definition formatQueueName :: "string \<Rightarrow> string" where
  "formatQueueName name = ''rq_'' @ format_name (length name) 0 False name"

definition initOptions :: "rq_config \<Rightarrow> rq_option list \<Rightarrow> rq_config option \<Rightarrow> goerr + rq_config" where
  "initOptions yaml opts c0 =
     (let c = (case fold (\<lambda>opt q. opt q) opts c0 of None \<Rightarrow> yaml | Some c \<Rightarrow> c) in
      if QueueName c = [] \<and> rq_ID c = []
      then Inl (Wrapped ''either queue name or client ID must be provided'' ErrInvalidArguments)
      else
        (let c1 = (if MaxQueueWorkers c \<le> 0 then c\<lparr>MaxQueueWorkers := defaultWorkers\<rparr> else c);
             c2 = (if JobMaxTimeout c1 \<le> 0 then c1\<lparr>JobMaxTimeout := defaultJobTimeout\<rparr> else c1);
             c3 = (if QueueName c2 = [] then c2\<lparr>QueueName := formatQueueName (rq_ID c2)\<rparr> else c2)
         in Inr c3))"

record riverq =
  rq_DB :: databaseClient
  rq_Cfg :: rq_config
  rq_River :: "nat option"

text \<open>The job library; \<open>ctx_Err\<close> and \<open>rq_wait\<close> are the caller's context: its error, and waiting half a
  second or until it is done (True).\<close>

record ('j, 'w) river_lib =
  river_NewClient :: "nat option \<Rightarrow> rq_config \<Rightarrow> 'w \<Rightarrow> (goerr + nat) \<times> 'w"
  river_Start :: "nat \<Rightarrow> 'w \<Rightarrow> err \<times> 'w"
  river_Stop :: "nat \<Rightarrow> 'w \<Rightarrow> err \<times> 'w"
  river_StopAndCancel :: "nat \<Rightarrow> 'w \<Rightarrow> err \<times> 'w"
  river_Insert :: "nat \<Rightarrow> 'j \<Rightarrow> string \<Rightarrow> 'w \<Rightarrow> err \<times> 'w"
  river_InsertMany :: "nat \<Rightarrow> ('j \<times> string) list \<Rightarrow> 'w \<Rightarrow> err \<times> 'w"
  river_NewMigrator :: "nat option \<Rightarrow> err"
  river_Migrate :: "nat option \<Rightarrow> 'w \<Rightarrow> err \<times> 'w"
  ctx_Err :: "'w \<Rightarrow> err"
  rq_wait :: "'w \<Rightarrow> bool \<times> 'w"

definition initRiverClient :: "('j, 'w) river_lib \<Rightarrow> nat option \<Rightarrow> riverq \<Rightarrow> 'w \<Rightarrow> err \<times> riverq \<times> 'w" where
  "initRiverClient V pool q w = (case river_NewClient V pool (rq_Cfg q) w of
     (Inl e, w1) \<Rightarrow> (Some (Wrapped ''cannot create river client'' e), q, w1)
   | (Inr rClient, w1) \<Rightarrow>
       (None, q\<lparr>rq_River := Some rClient\<rparr>,
        (case rq_River q of Some old \<Rightarrow> snd (river_StopAndCancel V old w1) | None \<Rightarrow> w1)))"

definition initDatabaseClient :: "('j, 'w) river_lib \<Rightarrow> databaseClient \<Rightarrow> riverq \<Rightarrow> 'w \<Rightarrow> err \<times> riverq \<times> 'w" where
  "initDatabaseClient V d q w = (case river_NewMigrator V (dc_Get d) of
     Some e \<Rightarrow> (Some (Wrapped ''cannot create river migrator'' e), q, w)
   | None \<Rightarrow> (case river_Migrate V (dc_Get d) w of
       (Some e, w1) \<Rightarrow> (Some (Wrapped ''failed to migrate river'' e), q, w1)
     | (None, w1) \<Rightarrow> (None, q\<lparr>rq_DB := d\<rparr>, w1)))"

text \<open>\<open>newClient\<close>. The URLs are rewritten in place: \<open>Masters\<close> and \<open>Cfg.PrimaryURLs\<close> are the same slice.\<close>

definition newClient ::
    "('u, 'm) pg_url_lib_scheme \<Rightarrow> ('w, 'n) rq_pools_scheme \<Rightarrow> ('j, 'w) river_lib \<Rightarrow> rq_config \<Rightarrow> rq_option list \<Rightarrow> 'w \<Rightarrow>
     (goerr + riverq) \<times> 'w" where
  "newClient L P V yaml opts w = (case initOptions yaml opts None of
     Inl e \<Rightarrow> (Inl (Wrapped ''failed to configure client'' e), w)
   | Inr c \<Rightarrow> (case newDatabaseClient L P (rq_User c) (rq_Password c) (PrimaryURLs c) w of
       (Inl e, w1) \<Rightarrow> (Inl (Wrapped ''failed to create database client'' e), w1)
     | (Inr d, w1) \<Rightarrow>
         (case initDatabaseClient V d \<lparr>rq_DB = d, rq_Cfg = c\<lparr>PrimaryURLs := dc_Masters d\<rparr>, rq_River = None\<rparr> w1 of
            (Some e, q1, w2) \<Rightarrow> (Inl (Wrapped ''failed to initialize database client'' e), w2)
          | (None, q1, w2) \<Rightarrow> (case initRiverClient V (dc_Get d) q1 w2 of
              (Some e, q2, w3) \<Rightarrow> (Inl (Wrapped ''failed to initialize river client'' e), w3)
            | (None, q2, w3) \<Rightarrow> (Inr q2, w3)))))"

definition MustNewClient ::
    "('u, 'm) pg_url_lib_scheme \<Rightarrow> ('w, 'n) rq_pools_scheme \<Rightarrow> ('j, 'w) river_lib \<Rightarrow> rq_config \<Rightarrow> rq_option list \<Rightarrow> 'w \<Rightarrow>
     riverq outcome \<times> 'w" where
  "MustNewClient L P V yaml opts w = (case newClient L P V yaml opts w of
     (Inl e, w') \<Rightarrow> (Panic, w') | (Inr q, w') \<Rightarrow> (Ret q, w'))"

definition rq_Stop :: "('j, 'w) river_lib \<Rightarrow> riverq \<Rightarrow> 'w \<Rightarrow> err \<times> 'w" where
  "rq_Stop V q w = (case rq_River q of None \<Rightarrow> (None, w) | Some r \<Rightarrow> river_Stop V r w)"

definition rq_Start :: "('j, 'w) river_lib \<Rightarrow> riverq \<Rightarrow> 'w \<Rightarrow> err \<times> 'w" where
  "rq_Start V q w = (case rq_River q of None \<Rightarrow> (Some ErrNotConnected, w) | Some r \<Rightarrow> river_Start V r w)"

definition rq_Close_client ::
    "('w, 'm) rq_pools_scheme \<Rightarrow> ('j, 'w) river_lib \<Rightarrow> riverq \<Rightarrow> 'w \<Rightarrow> err \<times> riverq \<times> 'w" where
  "rq_Close_client P V q w = (case rq_Stop V q w of
     (e, w1) \<Rightarrow> (case dc_Close P (rq_DB q) w1 of (d, w2) \<Rightarrow> (join_errs [e, None], q\<lparr>rq_DB := d\<rparr>, w2)))"

definition HealthCheck :: "('w, 'm) rq_pools_scheme \<Rightarrow> riverq \<Rightarrow> 'w \<Rightarrow> err \<times> 'w" where
  "HealthCheck P q w = (case rq_River q of
     None \<Rightarrow> (Some ErrNotConnected, w) | Some r \<Rightarrow> dc_Ping P (rq_DB q) w)"

definition trySwitchMaster ::
    "('w, 'm) rq_pools_scheme \<Rightarrow> ('j, 'w) river_lib \<Rightarrow> nat option \<Rightarrow> riverq \<Rightarrow> 'w \<Rightarrow> err outcome \<times> riverq \<times> 'w" where
  "trySwitchMaster P V seen q w = (case switchMaster P seen (rq_DB q) w of
     (Panic, d, w1) \<Rightarrow> (Panic, q\<lparr>rq_DB := d\<rparr>, w1)
   | (Ret (Some e), d, w1) \<Rightarrow> (Ret (Some (Wrapped ''failed to switch master'' e)), q\<lparr>rq_DB := d\<rparr>, w1)
   | (Ret None, d, w1) \<Rightarrow>
       (case initDatabaseClient V d (q\<lparr>rq_DB := d\<rparr>) w1 of
          (Some e, q2, w2) \<Rightarrow>
            (Ret (Some (Wrapped ''failed to reinitialize database client after master switch'' e)), q2, w2)
        | (None, q2, w2) \<Rightarrow>
            (case initRiverClient V (dc_Get (rq_DB q2)) q2 w2 of
               (Some e, q3, w3) \<Rightarrow>
                 (Ret (Some (Wrapped ''failed to reinitialize river client after master switch'' e)), q3, w3)
             | (None, q3, w3) \<Rightarrow>
                 (case rq_Start V q3 w3 of
                    (e, w4) \<Rightarrow> (Ret (wrap_err ''failed to restart river client after master switch'' e), q3, w4)))))"

definition rq_push :: "('j, 'w) river_lib \<Rightarrow> 'j list \<Rightarrow> riverq \<Rightarrow> 'w \<Rightarrow> err \<times> 'w" where
  "rq_push V jobs q w =
     (if length jobs = 0 then (None, w)
      else case rq_River q of
        None \<Rightarrow> (Some ErrNotConnected, w)
      | Some r \<Rightarrow>
          (if length jobs = 1 then river_Insert V r (jobs ! 0) (QueueName (rq_Cfg q)) w
           else river_InsertMany V r (map (\<lambda>j. (j, QueueName (rq_Cfg q))) jobs) w))"

text \<open>One round of \<open>Push\<close>: a result, or the state to go on from. No other goroutine interferes here, so
  the active pool seen before the lock is the active pool.\<close>

definition push_round ::
    "pgerrcode \<Rightarrow> ('w, 'm) rq_pools_scheme \<Rightarrow> ('j, 'w) river_lib \<Rightarrow> 'j list \<Rightarrow> riverq \<times> 'w \<Rightarrow>
     err outcome option \<times> riverq \<times> 'w" where
  "push_round C P V jobs = (\<lambda>(q, w).
     if ctx_Err V w \<noteq> None then (Some (Ret (ctx_Err V w)), q, w)
     else case rq_push V jobs q w of
       (e, w1) \<Rightarrow>
         (if \<not> shouldSwitchMaster C e then (Some (Ret e), q, w1)
          else case rq_wait V w1 of
            (True, w2) \<Rightarrow> (Some (Ret (ctx_Err V w2)), q, w2)
          | (False, w2) \<Rightarrow>
              (case HealthCheck P q w2 of
                 (None, w3) \<Rightarrow> (None, q, w3)
               | (Some _, w3) \<Rightarrow>
                   (case trySwitchMaster P V (dc_Active (rq_DB q)) q w3 of
                      (Panic, q', w4) \<Rightarrow> (Some Panic, q', w4)
                    | (Ret _, q', w4) \<Rightarrow> (None, q', w4)))))"

partial_function (option) Push ::
    "pgerrcode \<Rightarrow> ('w, 'm) rq_pools_scheme \<Rightarrow> ('j, 'w) river_lib \<Rightarrow> 'j list \<Rightarrow> riverq \<times> 'w \<Rightarrow>
     (err outcome \<times> riverq \<times> 'w) option" where
  "Push C pools V jobs s = (case push_round C pools V jobs s of
     (Some r, s') \<Rightarrow> Some (r, s')
   | (None, s') \<Rightarrow> Push C pools V jobs s')"

section \<open>The order of the primaries\<close>

lemma rotate_order:
  assumes "cur < n"
  shows "drop (cur + 1) [0..<n] @ take cur [0..<n] @ [cur] = map (\<lambda>k. (cur + 1 + k) mod n) [0..<n]"
proof (rule nth_equalityI)
  show "length (drop (cur + 1) [0..<n] @ take cur [0..<n] @ [cur]) = length (map (\<lambda>k. (cur + 1 + k) mod n) [0..<n])"
    using assms by simp
next
  fix i assume "i < length (drop (cur + 1) [0..<n] @ take cur [0..<n] @ [cur])"
  then have i: "i < n" using assms by simp
  show "(drop (cur + 1) [0..<n] @ take cur [0..<n] @ [cur]) ! i = map (\<lambda>k. (cur + 1 + k) mod n) [0..<n] ! i"
  proof (cases "i < n - (cur + 1)")
    case True
    then show ?thesis using i assms by (simp add: nth_append)
  next
    case False
    then obtain j where j: "i = n - (cur + 1) + j" by (metis le_add_diff_inverse not_less)
    then have "cur + 1 + i = n + j" "j \<le> cur" using assms i by simp_all
    moreover from this have "(cur + 1 + i) mod n = j" using assms by simp
    ultimately show ?thesis using i assms j False by (auto simp: nth_append)
  qed
qed

lemma connect_order:
  assumes "cur < length ms"
  shows "calculateConnectOrder ms cur = Ret (map (\<lambda>k. (cur + 1 + k) mod length ms) [0..<length ms])"
proof -
  consider "length ms = 1" | "length ms = 2" | "3 \<le> length ms" using assms by linarith
  then show ?thesis
  proof cases
    case 1
    then show ?thesis by (simp add: calculateConnectOrder_def)
  next
    case 2
    then have "cur = 0 \<or> cur = 1" using assms by linarith
    then show ?thesis using 2 by (auto simp: calculateConnectOrder_def upt_rec)
  next
    case 3
    then show ?thesis using assms rotate_order [OF assms] by (simp add: calculateConnectOrder_def Let_def)
  qed
qed

text \<open>
  The order in which the primaries are tried, for any number of them: every primary once, starting
  with the one after the current primary, round the list, the current one last.
\<close>
theorem connect_order_rotates:
  assumes "cur < length ms"
  shows "\<exists>order. calculateConnectOrder ms cur = Ret order \<and> mset order = mset [0..<length ms] \<and>
    last order = cur \<and> (\<forall>k < length ms. order ! k = (cur + 1 + k) mod length ms)"
proof -
  let ?o = "map (\<lambda>k. (cur + 1 + k) mod length ms) [0..<length ms]"
  have n: "0 < length ms" using assms by linarith
  have "last ?o = (cur + 1 + (length ms - 1)) mod length ms"
    using n by (simp add: last_map)
  also have "cur + 1 + (length ms - 1) = cur + length ms" using n by linarith
  also have "(cur + length ms) mod length ms = cur" using assms by simp
  finally have "last ?o = cur" .
  then show ?thesis
    using connect_order [OF assms] mset_mod_window [OF n, of "cur + 1"] by auto
qed

theorem connect_order_rotates_witness:
  "\<exists>order. calculateConnectOrder [''a'', ''b'', ''c'', ''d''] 1 = Ret order \<and> last order = 1 \<and> order ! 0 = 2"
  using connect_order_rotates [of 1 "[''a'', ''b'', ''c'', ''d'']"] by fastforce

section \<open>Switching to another primary\<close>

lemma switch_loop_found:
  "(\<forall>i \<in> set is. i < length ms) \<Longrightarrow>
    \<exists>found w'. switch_loop P ms is w = (Ret found, w') \<and> (\<forall>i c. found = Some (i, c) \<longrightarrow> i \<in> set is)"
proof (induction "is" arbitrary: w)
  case Nil
  then show ?case by simp
next
  case (Cons i "is")
  have i: "i < length ms" using Cons.prems by simp
  have IH: "\<exists>found w'. switch_loop P ms is w = (Ret found, w') \<and> (\<forall>i c. found = Some (i, c) \<longrightarrow> i \<in> set is)" for w
    using Cons by simp
  obtain r w1 where p: "poolConnect P (ms ! i) w = (r, w1)" by (cases "poolConnect P (ms ! i) w")
  show ?case
  proof (cases r)
    case (Inl e)
    then show ?thesis using p i IH [of w1] by auto
  next
    case (Inr conn)
    obtain e w2 where q: "rq_Ping P conn w1 = (e, w2)" by (cases "rq_Ping P conn w1")
    show ?thesis
      using p i Inr q IH [of "rq_Close P conn w2"] by (cases e) auto
  qed
qed


definition default_pool :: pool_config where
  "default_pool = \<lparr>cfg_User = [], cfg_Password = [], StatementCacheCapacity = 0, DescriptionCacheCapacity = 0,
     ConnectTimeout = 0, MaxConnIdleTime = 0, HealthCheckPeriod = 0, MaxConnLifetimeJitter = 0,
     MaxConnLifetime = 0, AfterConnect = None, MinConns = 0\<rparr>"

text \<open>Pools that can always be started; the world counts them.\<close>

definition healthy_pools :: "nat rq_pools" where
  "healthy_pools = \<lparr>pool_ParseConfig = (\<lambda>u. Inr default_pool), pool_NewWithConfig = (\<lambda>c w. (Inr w, Suc w)),
     rq_Ping = (\<lambda>p w. (None, w)), rq_Close = (\<lambda>p w. w)\<rparr>"

definition closed_client :: databaseClient where
  "closed_client = \<lparr>dc_Closed = True, dc_Active = None, dc_Masters = [''a'', ''b''], dc_CurrentIndex = 0\<rparr>"


section \<open>Queue names\<close>

lemma format_name_clean: "c \<in> set (format_name n i lr rs) \<Longrightarrow> c = CHR ''_'' \<or> \<not> replaced_rune c"
  by (induction n i lr rs rule: format_name.induct) (auto split: if_splits)

lemma format_name_single:
  "(lr \<or> i = 0 \<longrightarrow> \<not> has_prefix (format_name n i lr rs) ''_'') \<and> \<not> contains (format_name n i lr rs) ''__''"
proof (induction n i lr rs rule: format_name.induct)
  case (1 n i lr)
  then show ?case by simp
next
  case (2 n i lr r rs)
  have u: "replaced_rune CHR ''_''" by (simp add: replaced_rune_def)
  show ?case
  proof (cases "replaced_rune r")
    case True
    then show ?thesis using 2(1) by (auto split: if_splits)
  next
    case False
    then show ?thesis using 2(2) u by auto
  qed
qed

lemma format_name_append_plain:
  "a \<noteq> [] \<Longrightarrow> \<not> replaced_rune (last a) \<Longrightarrow>
    format_name n i lr (a @ rs) = format_name n i lr a @ format_name n (i + length a) False rs"
proof (induction a arbitrary: i lr)
  case Nil
  then show ?case by simp
next
  case (Cons x a)
  then show ?case by (cases "a = []") auto
qed

text \<open>
  Queue names: the result starts with \<open>rq_\<close>, keeps none of the characters \<open>:\<close>, \<open>/\<close>, \<open>.\<close> and never has two
  underscores in a row. But a name that ends in two or more of the replaced characters ends in an
  underscore.
\<close>
theorem formatQueueName_shape:
  "has_prefix (formatQueueName name) ''rq_'' \<and>
   (\<forall>c \<in> set (formatQueueName name). c \<notin> {CHR '':'', CHR ''/'', CHR ''.''}) \<and>
   \<not> contains (formatQueueName name) ''__'' \<and>
   (a \<noteq> [] \<and> \<not> replaced_rune (last a) \<and> replaced_rune x \<and> replaced_rune y \<longrightarrow>
     formatQueueName (a @ [x, y]) = ''rq_'' @ format_name (length a + 2) 0 False a @ ''_'')"
proof -
  let ?f = "format_name (length name) 0 False name"
  have clean: "c \<notin> {CHR '':'', CHR ''/'', CHR ''.''}" if "c \<in> set (formatQueueName name)" for c
    using that format_name_clean [of c "length name" 0 False name]
    by (auto simp: formatQueueName_def replaced_rune_def)
  have single: "\<not> contains (formatQueueName name) ''__''"
    using format_name_single [of False 0 "length name" name] by (simp add: formatQueueName_def)
  have trail: "formatQueueName (a @ [x, y]) = ''rq_'' @ format_name (length a + 2) 0 False a @ ''_''"
    if "a \<noteq> [] \<and> \<not> replaced_rune (last a) \<and> replaced_rune x \<and> replaced_rune y"
    using that format_name_append_plain [of a "length a + 2" 0 False "[x, y]"]
    by (simp add: formatQueueName_def)
  show ?thesis using clean single trail by (auto simp: formatQueueName_def)
qed

theorem formatQueueName_shape_witness:
  "formatQueueName ''jobs::'' = ''rq_jobs_''"
proof -
  have "formatQueueName (''jobs'' @ ['':'' ! 0, '':'' ! 0]) = ''rq_'' @ format_name (length ''jobs'' + 2) 0 False ''jobs'' @ ''_''"
    using formatQueueName_shape [of _ "''jobs''" "'':'' ! 0" "'':'' ! 0"] by (simp add: replaced_rune_def)
  then show ?thesis by (simp add: replaced_rune_def)
qed

section \<open>Push\<close>

definition push_ok ::
    "('j, 'w) river_lib \<Rightarrow> 'j list \<Rightarrow> err outcome \<times> riverq \<times> 'w \<Rightarrow> bool" where
  "push_ok V jobs res = (case res of (r, q', w') \<Rightarrow> r = Ret None \<longrightarrow> (\<exists>w0. rq_push V jobs q' w0 = (None, w')))"

lemma push_round_ok:
  assumes ctx: "\<And>w w'. rq_wait V w = (True, w') \<Longrightarrow> ctx_Err V w' \<noteq> None"
    and r: "push_round C P V jobs (q, w) = (Some r, q', w')" and ok: "r = Ret None"
  shows "\<exists>w0. rq_push V jobs q' w0 = (None, w')"
proof (cases "ctx_Err V w")
  case (Some e)
  then show ?thesis using r ok by (simp add: push_round_def)
next
  case None
  obtain e w1 where p: "rq_push V jobs q w = (e, w1)" by (cases "rq_push V jobs q w")
  show ?thesis
  proof (cases "shouldSwitchMaster C e")
    case False
    then show ?thesis using r ok None p by (auto simp: push_round_def)
  next
    case True
    obtain b w2 where wt: "rq_wait V w1 = (b, w2)" by (cases "rq_wait V w1")
    obtain h w3 where h: "HealthCheck P q w2 = (h, w3)" by (cases "HealthCheck P q w2")
    obtain o1 q4 w4 where t: "trySwitchMaster P V (dc_Active (rq_DB q)) q w3 = (o1, q4, w4)"
      by (cases "trySwitchMaster P V (dc_Active (rq_DB q)) q w3")
    have "\<not> b" using r ok None p True ctx [of w1 w2] wt by (auto simp: push_round_def)
    then show ?thesis using r ok None p True wt h t
      by (cases h; cases o1) (simp_all add: push_round_def)
  qed
qed

text \<open>
  C29. \<open>Push\<close> never reports success by mistake: if it returns \<open>nil\<close>, its last step was an insert of exactly
  these jobs that returned \<open>nil\<close>, on the queue client it leaves behind, whatever switches of the primary
  happened before.
\<close>
theorem Push_success_inserted:
  fixes P :: "('w, 'm) rq_pools_scheme" and V :: "('j, 'w) river_lib"
  assumes "\<And>w w'. rq_wait V w = (True, w') \<Longrightarrow> ctx_Err V w' \<noteq> None"
    and "Push C P V jobs s = Some (Ret None, q', w')"
  shows "\<exists>w0. rq_push V jobs q' w0 = (None, w')"
proof -
  have "(\<forall>w w'. rq_wait V w = (True, w') \<longrightarrow> ctx_Err V w' \<noteq> None) \<longrightarrow> push_ok V jobs (Ret None, q', w')"
  proof (rule Push.raw_induct [where P = "\<lambda>C (P :: ('w, 'm) rq_pools_scheme) (V :: ('j, 'w) river_lib) jobs s res.
      (\<forall>w w'. rq_wait V w = (True, w') \<longrightarrow> ctx_Err V w' \<noteq> None) \<longrightarrow> push_ok V jobs res", OF _ assms(2)])
    fix rec C and P :: "('w, 'm) rq_pools_scheme" and V :: "('j, 'w) river_lib" and jobs s res
    assume IH: "\<And>C P V jobs s res. rec C P V jobs s = Some res \<Longrightarrow>
        (\<forall>w w'. rq_wait V w = (True, w') \<longrightarrow> ctx_Err V w' \<noteq> None) \<longrightarrow> push_ok V jobs res"
      and step: "(case push_round C P V jobs s of (Some r, s') \<Rightarrow> Some (r, s')
        | (None, s') \<Rightarrow> rec C P V jobs s') = Some res"
    show "(\<forall>w w'. rq_wait V w = (True, w') \<longrightarrow> ctx_Err V w' \<noteq> None) \<longrightarrow> push_ok V jobs res"
    proof
      assume ctx: "\<forall>w w'. rq_wait V w = (True, w') \<longrightarrow> ctx_Err V w' \<noteq> None"
      obtain r s' where r: "push_round C P V jobs s = (r, s')" by (cases "push_round C P V jobs s")
      show "push_ok V jobs res"
        using step IH [of C P V jobs s' res] ctx push_round_ok [of V C P jobs "fst s" "snd s" _ "fst s'" "snd s'"] r
        by (cases r) (auto simp: push_ok_def)
    qed
  qed
  then show ?thesis using assms(1) by (simp add: push_ok_def)
qed

definition idle_river :: "(string, nat) river_lib" where
  "idle_river = \<lparr>river_NewClient = (\<lambda>p c w. (Inr 1, w)), river_Start = (\<lambda>r w. (None, w)),
     river_Stop = (\<lambda>r w. (None, w)), river_StopAndCancel = (\<lambda>r w. (None, w)),
     river_Insert = (\<lambda>r j n w. (None, Suc w)), river_InsertMany = (\<lambda>r js w. (None, Suc w)),
     river_NewMigrator = (\<lambda>p. None), river_Migrate = (\<lambda>p w. (None, w)),
     ctx_Err = (\<lambda>w. None), rq_wait = (\<lambda>w. (False, w))\<rparr>"

definition no_codes :: pgerrcode where
  "no_codes = \<lparr>IsConnectionException = (\<lambda>s. False), IsSystemError = (\<lambda>s. False), IsInternalError = (\<lambda>s. False),
     IsConfigurationFileError = (\<lambda>s. False), IsOperatorIntervention = (\<lambda>s. False)\<rparr>"

definition connected_queue :: riverq where
  "connected_queue = \<lparr>rq_DB = closed_client, rq_Cfg = empty_config, rq_River = Some 1\<rparr>"

theorem Push_success_inserted_witness:
  "\<exists>w0. rq_push idle_river [''job''] connected_queue w0 = (None, 5)"
proof (rule Push_success_inserted)
  show "Push no_codes healthy_pools idle_river [''job''] (connected_queue, 4) = Some (Ret None, connected_queue, 5)"
    by (subst Push.simps) (simp add: push_round_def rq_push_def idle_river_def connected_queue_def shouldSwitchMaster_def)
qed (simp add: idle_river_def)

end
