(* ===== verification/Consumers.thy ===== *)
theory Consumers
  imports Go_Errors "HOL-Library.Multiset" "HOL-Library.AList"
begin

text \<open>
  Partition consumers of \<open>connectors/message_broker\<close> (\<open>consumer.go\<close>): one goroutine per assigned
  partition takes batches of records from a channel, groups each by key and processes the groups
  concurrently, the records of a group in order.

  Consumers are objects with shared mutable state, so they live in a store: \<open>heap ! i\<close> is the \<open>i\<close>-th
  \<open>partitionConsumer\<close> ever created, and the consumer map holds indices. What the goroutines do is the step
  relation \<open>consume_step\<close>; the callbacks of the broker client and the poll loop are functions that get
  the interleaving as an argument.
\<close>

section \<open>Data\<close>

record krecord =
  rec_key :: string
  rec_value :: string
  rec_time :: int
  rec_headers :: "(string \<times> string) list"

record message =
  m_time :: int
  m_headers :: "string \<Rightarrow> string option"
  m_key :: string
  m_topic :: string
  m_value :: string
  m_partition :: "32 word"
  m_count :: "32 word"

text \<open>\<open>groups\<close> is what the goroutines of the batch at hand have not processed yet. The fields from
  \<open>processed\<close> on do not exist in the code: the messages handed to the processor with their records, and
  the records ever sent to the channel.\<close>

record partitionConsumer =
  recordsChan :: "krecord list list"
  groups :: "krecord list list"
  pc_topic :: string
  pc_partition :: "32 word"
  partitionCount :: "32 word"
  pc_done :: bool
  closing :: bool
  processed :: "(krecord \<times> message) list"
  sent :: "krecord list"

record concurrentConsumer =
  heap :: "partitionConsumer list"
  consumers :: "string \<Rightarrow> (32 word \<Rightarrow> nat option) option"
  consumingWg :: int
  oneGoroutinePerPartition :: "string \<Rightarrow> bool"
  partitionCountPerTopic :: "string \<Rightarrow> 32 word option"
  cc_done :: bool

section \<open>The goroutine of a consumer\<close>

definition extractHeaders :: "krecord \<Rightarrow> string \<Rightarrow> string option" where
  "extractHeaders r = map_of (rev (rec_headers r))"

text \<open>The message \<open>processRecord\<close> hands to the processor.\<close>

definition message_of :: "partitionConsumer \<Rightarrow> krecord \<Rightarrow> message" where
  "message_of pc r = \<lparr>m_time = rec_time r, m_headers = extractHeaders r, m_key = rec_key r,
     m_topic = pc_topic pc, m_value = rec_value r, m_partition = pc_partition pc, m_count = partitionCount pc\<rparr>"

text \<open>\<open>groupedByKey\<close>, in the order in which the keys first occur.\<close>

fun add_to_group :: "krecord \<Rightarrow> (string \<times> krecord list) list \<Rightarrow> (string \<times> krecord list) list" where
  "add_to_group r [] = [(rec_key r, [r])]"
| "add_to_group r ((k, rs) # g) = (if k = rec_key r then (k, rs @ [r]) # g else (k, rs) # add_to_group r g)"

definition groupedByKey :: "krecord list \<Rightarrow> (string \<times> krecord list) list" where
  "groupedByKey records = fold add_to_group records []"

definition idle :: "partitionConsumer \<Rightarrow> bool" where
  "idle pc \<longleftrightarrow> (\<forall>g \<in> set (groups pc). g = [])"

text \<open>One iteration of \<open>for records := range pc.recordsChan\<close> begins when the goroutines of the last one
  are finished (\<open>wg.Wait()\<close>).\<close>

definition take_batch :: "bool \<Rightarrow> krecord list \<Rightarrow> partitionConsumer \<Rightarrow> partitionConsumer" where
  "take_batch one records pc = pc\<lparr>recordsChan := tl (recordsChan pc),
     groups := (if one then [records] else map snd (groupedByKey records))\<rparr>"

text \<open>\<open>processRecord\<close>: the processor is called, its error is only logged, and the wait group goes down.\<close>

definition processRecord :: "nat \<Rightarrow> krecord \<Rightarrow> krecord list \<Rightarrow> partitionConsumer \<Rightarrow> partitionConsumer" where
  "processRecord j r rs pc = pc\<lparr>groups := (groups pc)[j := rs], processed := processed pc @ [(r, message_of pc r)]\<rparr>"

definition finish_consumer :: "partitionConsumer \<Rightarrow> partitionConsumer" where
  "finish_consumer pc = pc\<lparr>pc_done := True\<rparr>"

definition upd :: "nat \<Rightarrow> (partitionConsumer \<Rightarrow> partitionConsumer) \<Rightarrow> concurrentConsumer \<Rightarrow> concurrentConsumer" where
  "upd i f c = c\<lparr>heap := (heap c)[i := f (heap c ! i)]\<rparr>"

inductive consume_step :: "concurrentConsumer \<Rightarrow> concurrentConsumer \<Rightarrow> bool" where
  step_take: "i < length (heap c) \<Longrightarrow> \<not> pc_done (heap c ! i) \<Longrightarrow> idle (heap c ! i) \<Longrightarrow>
    recordsChan (heap c ! i) = records # rest \<Longrightarrow>
    consume_step c (upd i (take_batch (oneGoroutinePerPartition c (pc_topic (heap c ! i))) records) c)"
| step_process: "i < length (heap c) \<Longrightarrow> j < length (groups (heap c ! i)) \<Longrightarrow>
    groups (heap c ! i) ! j = r # rs \<Longrightarrow>
    consume_step c ((upd i (processRecord j r rs) c)\<lparr>consumingWg := consumingWg c - 1\<rparr>)"
| step_finish: "i < length (heap c) \<Longrightarrow> \<not> pc_done (heap c ! i) \<Longrightarrow> idle (heap c ! i) \<Longrightarrow>
    recordsChan (heap c ! i) = [] \<Longrightarrow> closing (heap c ! i) \<Longrightarrow>
    consume_step c (upd i finish_consumer c)"

inductive_cases consume_stepE: "consume_step c c'"

abbreviation consume_steps :: "concurrentConsumer \<Rightarrow> concurrentConsumer \<Rightarrow> bool" where
  "consume_steps \<equiv> consume_step\<^sup>*\<^sup>*"

section \<open>Assigning and revoking partitions\<close>

text \<open>A new partition consumer.\<close>

definition new_consumer :: "concurrentConsumer \<Rightarrow> string \<Rightarrow> 32 word \<Rightarrow> partitionConsumer" where
  "new_consumer c topic p = \<lparr>recordsChan = [], groups = [], pc_topic = topic, pc_partition = p,
     partitionCount = (case partitionCountPerTopic c topic of Some n \<Rightarrow> n | None \<Rightarrow> 0),
     pc_done = False, closing = False, processed = [], sent = []\<rparr>"

text \<open>\<open>settle\<close> is what the goroutines do while the caller busy-waits; \<open>ctx\<close>: the context has ended.\<close>

definition waitForClosingConsumerToFinish ::
    "(concurrentConsumer \<Rightarrow> concurrentConsumer) \<Rightarrow> bool \<Rightarrow> nat \<Rightarrow> concurrentConsumer \<Rightarrow> concurrentConsumer" where
  "waitForClosingConsumerToFinish settle ctx i c =
     (if closing (heap c ! i) \<and> \<not> ctx \<and> \<not> pc_done (heap c ! i) then settle c else c)"

definition stop ::
    "(concurrentConsumer \<Rightarrow> concurrentConsumer) \<Rightarrow> bool \<Rightarrow> nat \<Rightarrow> concurrentConsumer \<Rightarrow> concurrentConsumer" where
  "stop settle ctx i c =
     (if \<not> closing (heap c ! i)
      then waitForClosingConsumerToFinish settle ctx i (upd i (\<lambda>pc. pc\<lparr>closing := True\<rparr>) c) else c)"

definition lookup_consumer :: "concurrentConsumer \<Rightarrow> string \<Rightarrow> 32 word \<Rightarrow> nat option" where
  "lookup_consumer c topic p = (case consumers c topic of None \<Rightarrow> None | Some m \<Rightarrow> m p)"

definition replaceConsumer ::
    "(concurrentConsumer \<Rightarrow> concurrentConsumer) \<Rightarrow> bool \<Rightarrow> string \<Rightarrow> 32 word \<Rightarrow> nat option \<Rightarrow>
     concurrentConsumer \<Rightarrow> concurrentConsumer" where
  "replaceConsumer settle ctx topic p pc c =
     (let c1 = (case pc of None \<Rightarrow> c
          | Some i \<Rightarrow> if \<not> pc_done (heap c ! i) then waitForClosingConsumerToFinish settle ctx i c else c)
      in c1\<lparr>heap := heap c1 @ [new_consumer c1 topic p],
            consumers := (consumers c1)(topic :=
              Some ((case consumers c1 topic of None \<Rightarrow> Map.empty | Some m \<Rightarrow> m)(p \<mapsto> length (heap c1))))\<rparr>)"

definition assign_partition ::
    "(concurrentConsumer \<Rightarrow> concurrentConsumer) \<Rightarrow> bool \<Rightarrow> string \<Rightarrow> 32 word \<Rightarrow> concurrentConsumer \<Rightarrow> concurrentConsumer" where
  "assign_partition settle ctx topic p c = (case lookup_consumer c topic p of
     None \<Rightarrow> replaceConsumer settle ctx topic p None c
   | Some i \<Rightarrow> if closing (heap c ! i) then replaceConsumer settle ctx topic p (Some i) c else c)"

text \<open>\<open>consumers.LoadOrStore(topic, &sync.Map{})\<close>\<close>

definition load_or_store :: "string \<Rightarrow> concurrentConsumer \<Rightarrow> concurrentConsumer" where
  "load_or_store topic c = (case consumers c topic of
     None \<Rightarrow> c\<lparr>consumers := (consumers c)(topic := Some Map.empty)\<rparr> | Some m \<Rightarrow> c)"

definition assignPartitions ::
    "(concurrentConsumer \<Rightarrow> concurrentConsumer) \<Rightarrow> bool \<Rightarrow> (string \<times> 32 word list) list \<Rightarrow>
     concurrentConsumer \<Rightarrow> concurrentConsumer" where
  "assignPartitions settle ctx assigned c =
     (if ctx then c
      else fold (\<lambda>(topic, partitions) c. fold (assign_partition settle ctx topic) partitions (load_or_store topic c))
             assigned c)"

definition OnPartitionsAssigned ::
    "(concurrentConsumer \<Rightarrow> concurrentConsumer) \<Rightarrow> bool \<Rightarrow> (string \<times> 32 word list) list \<Rightarrow>
     concurrentConsumer \<Rightarrow> concurrentConsumer" where
  "OnPartitionsAssigned = assignPartitions"

definition revoke_partition ::
    "(concurrentConsumer \<Rightarrow> concurrentConsumer) \<Rightarrow> bool \<Rightarrow> string \<Rightarrow> 32 word \<Rightarrow> concurrentConsumer \<Rightarrow> concurrentConsumer" where
  "revoke_partition settle ctx topic p c = (case lookup_consumer c topic p of
     Some i \<Rightarrow> stop settle ctx i c | None \<Rightarrow> c)"

definition revokePartitions ::
    "(concurrentConsumer \<Rightarrow> concurrentConsumer) \<Rightarrow> bool \<Rightarrow> (string \<times> 32 word list) list \<Rightarrow>
     concurrentConsumer \<Rightarrow> concurrentConsumer" where
  "revokePartitions settle ctx lost c =
     fold (\<lambda>(topic, partitions) c. fold (revoke_partition settle ctx topic) partitions c) lost c"

text \<open>Revoking, then committing offsets with the client, whose error is only logged.\<close>

definition OnPartitionsLost ::
    "(concurrentConsumer \<Rightarrow> concurrentConsumer) \<Rightarrow> bool \<Rightarrow> (string \<times> 32 word list) list \<Rightarrow>
     concurrentConsumer \<Rightarrow> concurrentConsumer" where
  "OnPartitionsLost = revokePartitions"

section \<open>Polling\<close>

record fetch_partition =
  fp_partition :: "32 word"
  fp_err :: err
  fp_records :: "krecord list"

record fetch_topic =
  ft_topic :: string
  ft_partitions :: "fetch_partition list"

text \<open>\<open>pc.recordsChan <- records\<close>: a send on a closed channel panics; a full buffer only delays it.\<close>

definition send_records :: "nat \<Rightarrow> krecord list \<Rightarrow> concurrentConsumer \<Rightarrow> concurrentConsumer outcome" where
  "send_records i records c =
     (if closing (heap c ! i) then Panic
      else Ret (upd i (\<lambda>pc. pc\<lparr>recordsChan := recordsChan pc @ [records], sent := sent pc @ records\<rparr>) c))"

definition wg_add :: "nat \<Rightarrow> concurrentConsumer \<Rightarrow> concurrentConsumer" where
  "wg_add n c = c\<lparr>consumingWg := consumingWg c + int n\<rparr>"

text \<open>\<open>records\<close>: the records per partition (a later partition of the same number replaces an earlier one)
  and the partitions, and the wait group goes up.\<close>

definition mb_records ::
    "fetch_partition list \<Rightarrow> concurrentConsumer \<Rightarrow> ((32 word \<times> krecord list) list \<times> 32 word list) \<times> concurrentConsumer" where
  "mb_records ps c =
     fold (\<lambda>fp ((recs, parts), c).
        if fp_err fp \<noteq> None then ((recs, parts), c)
        else ((AList.update (fp_partition fp) (fp_records fp) recs, parts @ [fp_partition fp]),
              wg_add (length (fp_records fp)) c))
       ps (([], []), c)"

fun send_all ::
    "string \<Rightarrow> (32 word \<times> krecord list) list \<Rightarrow> concurrentConsumer \<Rightarrow> concurrentConsumer outcome" where
  "send_all topic [] c = Ret c"
| "send_all topic ((p, records) # rs) c = (case lookup_consumer c topic p of
     None \<Rightarrow> Panic
   | Some i \<Rightarrow> obind (send_records i records (wg_add (length records) c)) (send_all topic rs))"

text \<open>\<open>processNotFoundPartitions\<close>; its argument list is the given partitions, or all of the topic when
  none is given.\<close>

definition processNotFoundPartitions ::
    "(concurrentConsumer \<Rightarrow> concurrentConsumer) \<Rightarrow> fetch_topic \<Rightarrow> fetch_partition list \<Rightarrow>
     concurrentConsumer \<Rightarrow> concurrentConsumer outcome" where
  "processNotFoundPartitions settle ft fps c =
     (case mb_records (if length fps \<noteq> 0 then fps else ft_partitions ft) c of
        ((partitionRecords, partitions), c1) \<Rightarrow>
          (if length partitionRecords = 0 then Ret c1
           else obind (send_all (ft_topic ft) partitionRecords
                        (assignPartitions settle False [(ft_topic ft, partitions)] c1))
                  (\<lambda>c3. Ret (revokePartitions settle False [(ft_topic ft, partitions)] c3))))"

text \<open>\<open>partitionConsumers\<close> and \<open>partitionConsumer\<close>: \<open>resync\<close> is what other goroutines that hold the mutex do
  while the caller waits for it.\<close>

definition find_consumers ::
    "(concurrentConsumer \<Rightarrow> concurrentConsumer) \<Rightarrow> (concurrentConsumer \<Rightarrow> concurrentConsumer) \<Rightarrow> fetch_topic \<Rightarrow>
     concurrentConsumer \<Rightarrow> (bool \<times> concurrentConsumer) outcome" where
  "find_consumers settle resync ft c =
     (if consumers c (ft_topic ft) \<noteq> None then Ret (True, c)
      else
        (let c1 = resync c in
         if consumers c1 (ft_topic ft) \<noteq> None then Ret (True, c1)
         else omap (\<lambda>c2. (False, c2)) (processNotFoundPartitions settle ft (ft_partitions ft) c1)))"

definition find_consumer ::
    "(concurrentConsumer \<Rightarrow> concurrentConsumer) \<Rightarrow> (concurrentConsumer \<Rightarrow> concurrentConsumer) \<Rightarrow> fetch_partition \<Rightarrow>
     fetch_topic \<Rightarrow> concurrentConsumer \<Rightarrow> (nat option \<times> concurrentConsumer) outcome" where
  "find_consumer settle resync fp ft c =
     (if fp_err fp \<noteq> None then Ret (None, c)
      else
        (let c1 = (if lookup_consumer c (ft_topic ft) (fp_partition fp) = None then resync c else c) in
         case lookup_consumer c1 (ft_topic ft) (fp_partition fp) of
           None \<Rightarrow> omap (\<lambda>c2. (None, c2)) (processNotFoundPartitions settle ft [fp] c1)
         | Some i \<Rightarrow>
             (if closing (heap c1 ! i)
              then omap (\<lambda>c2. (None, c2)) (processNotFoundPartitions settle ft [fp] (resync c1))
              else Ret (Some i, c1))))"

definition poll_partition ::
    "(concurrentConsumer \<Rightarrow> concurrentConsumer) \<Rightarrow> (concurrentConsumer \<Rightarrow> concurrentConsumer) \<Rightarrow> fetch_topic \<Rightarrow>
     concurrentConsumer \<Rightarrow> fetch_partition \<Rightarrow> concurrentConsumer outcome" where
  "poll_partition settle resync ft c fp =
     (if fp_err fp \<noteq> None then Ret c
      else obind (find_consumer settle resync fp ft c) (\<lambda>(pc, c1). case pc of
        None \<Rightarrow> Ret c1
      | Some i \<Rightarrow> send_records i (fp_records fp) (wg_add (length (fp_records fp)) c1)))"

definition poll_topic ::
    "(concurrentConsumer \<Rightarrow> concurrentConsumer) \<Rightarrow> (concurrentConsumer \<Rightarrow> concurrentConsumer) \<Rightarrow>
     concurrentConsumer \<Rightarrow> fetch_topic \<Rightarrow> concurrentConsumer outcome" where
  "poll_topic settle resync c ft =
     obind (find_consumers settle resync ft c) (\<lambda>(found, c1).
       if \<not> found then Ret c1
       else foldl (\<lambda>o1 fp. obind o1 (\<lambda>c. poll_partition settle resync ft c fp)) (Ret c1) (ft_partitions ft))"

text \<open>One poll up to \<open>consumingWg.Wait()\<close>: \<open>stopping\<close> says that the client reported the end of the context
  or that it is closed.\<close>

definition poll_fetches ::
    "(concurrentConsumer \<Rightarrow> concurrentConsumer) \<Rightarrow> (concurrentConsumer \<Rightarrow> concurrentConsumer) \<Rightarrow> bool \<Rightarrow>
     fetch_topic list \<Rightarrow> concurrentConsumer \<Rightarrow> (bool \<times> concurrentConsumer) outcome" where
  "poll_fetches settle resync stopping fetches c =
     (if stopping then Ret (True, c)
      else omap (\<lambda>c1. (False, c1)) (foldl (\<lambda>o1 ft. obind o1 (\<lambda>c. poll_topic settle resync c ft)) (Ret c) fetches))"

section \<open>Shutting down\<close>

text \<open>\<open>ord\<close> are the consumers of the map, in the order in which \<open>Range\<close> visits them.\<close>

definition all_done :: "nat list \<Rightarrow> concurrentConsumer \<Rightarrow> bool" where
  "all_done ord c \<longleftrightarrow> (\<forall>i \<in> set ord. pc_done (heap c ! i))"

text \<open>The waiting loop of \<open>shutdownConsumerGracefully\<close>: the list holds the states its iterations see until the
  deadline. The variable \<open>done\<close> is declared before the loop and only ever set to false. The result says
  whether the loop was left before the deadline.\<close>

fun shutdown_wait :: "nat list \<Rightarrow> bool \<Rightarrow> concurrentConsumer list \<Rightarrow> bool" where
  "shutdown_wait ord dn [] = False"
| "shutdown_wait ord dn (c # observed) =
     (let dn' = (if all_done ord c then dn else False) in if dn' then True else shutdown_wait ord dn' observed)"

definition shutdownConsumerGracefully ::
    "(concurrentConsumer \<Rightarrow> concurrentConsumer) \<Rightarrow> nat list \<Rightarrow> concurrentConsumer list \<Rightarrow>
     concurrentConsumer \<Rightarrow> bool \<times> concurrentConsumer" where
  "shutdownConsumerGracefully settle ord observed c =
     (if cc_done c then (True, c)
      else
        (let c1 = fold (stop settle False) ord c;
             last_seen = (if observed = [] then c1 else last observed)
         in (shutdown_wait ord True (c1 # observed), last_seen\<lparr>cc_done := True\<rparr>)))"

section \<open>Grouping by key\<close>

definition with_key :: "string \<Rightarrow> krecord list \<Rightarrow> krecord list" where
  "with_key k rs = filter (\<lambda>r. rec_key r = k) rs"

lemma with_key_simps [simp]:
  "with_key k [] = []" "with_key k (xs @ ys) = with_key k xs @ with_key k ys"
  "with_key k (r # rs) = (if rec_key r = k then r # with_key k rs else with_key k rs)"
  by (simp_all add: with_key_def)

definition keys_of :: "krecord list \<Rightarrow> string set" where
  "keys_of rs = rec_key ` set rs"

lemma with_key_absent: "k \<notin> keys_of rs \<Longrightarrow> with_key k rs = []"
  by (auto simp: with_key_def keys_of_def filter_empty_conv)

definition grouping :: "(string \<times> krecord list) list \<Rightarrow> bool" where
  "grouping g \<longleftrightarrow> distinct (map fst g) \<and> (\<forall>(k, rs) \<in> set g. \<forall>r \<in> set rs. rec_key r = k)"

lemma add_to_group_fst: "set (map fst (add_to_group r g)) = insert (rec_key r) (set (map fst g))"
  by (induction r g rule: add_to_group.induct) auto

lemma add_to_group_grouping: "grouping g \<Longrightarrow> grouping (add_to_group r g)"
proof (induction r g rule: add_to_group.induct)
  case (1 r)
  then show ?case by (simp add: grouping_def)
next
  case (2 r k rs g)
  then have "grouping (add_to_group r g)" if "k \<noteq> rec_key r"
    using that by (auto simp: grouping_def)
  moreover have "k \<notin> set (map fst g)" using 2 by (simp add: grouping_def)
  ultimately show ?case
    using 2(2) add_to_group_fst [of r g] by (fastforce simp: grouping_def)
qed

lemma add_to_group_keys:
  "grouping g \<Longrightarrow> with_key k (concat (map snd (add_to_group r g))) = with_key k (concat (map snd g)) @ with_key k [r]"
proof (induction r g rule: add_to_group.induct)
  case (1 r)
  then show ?case by simp
next
  case (2 r k' rs g)
  show ?case
  proof (cases "k' = rec_key r")
    case True
    have "with_key (rec_key r) (concat (map snd g)) = []"
      using 2(2) True by (intro with_key_absent) (force simp: grouping_def keys_of_def)
    then show ?thesis using True by (cases "rec_key r = k") simp_all
  next
    case False
    then show ?thesis using 2 by (simp add: grouping_def)
  qed
qed

lemma groupedByKey_spec:
  "grouping (groupedByKey rs) \<and> (\<forall>k. with_key k (concat (map snd (groupedByKey rs))) = with_key k rs)"
proof (induction rs rule: rev_induct)
  case Nil
  then show ?case by (simp add: groupedByKey_def grouping_def)
next
  case (snoc r rs)
  then show ?case
    using add_to_group_grouping [of "groupedByKey rs" r] add_to_group_keys [of "groupedByKey rs" _ r]
    by (simp add: groupedByKey_def)
qed

text \<open>No key occurs in two groups.\<close>

definition separate :: "krecord list list \<Rightarrow> bool" where
  "separate gs \<longleftrightarrow> (\<forall>i < length gs. \<forall>j < length gs. i \<noteq> j \<longrightarrow> keys_of (gs ! i) \<inter> keys_of (gs ! j) = {})"

lemma grouping_separate: "grouping g \<Longrightarrow> separate (map snd g)"
  unfolding separate_def
proof (intro allI impI)
  fix i j assume g: "grouping g" and ij: "i < length (map snd g)" "j < length (map snd g)" "i \<noteq> j"
  have k: "keys_of (snd (g ! i)) \<subseteq> {fst (g ! i)}" if "i < length g" for i
    using g nth_mem [OF that] by (cases "g ! i") (force simp: grouping_def keys_of_def)
  have "fst (g ! i) \<noteq> fst (g ! j)"
    using g ij by (auto simp: grouping_def distinct_conv_nth)
  then show "keys_of (map snd g ! i) \<inter> keys_of (map snd g ! j) = {}"
    using k [of i] k [of j] ij by auto
qed

lemma with_key_concat_update:
  assumes "separate gs" and "j < length gs" and "gs ! j = r # rs"
  shows "with_key k (concat gs) = (if rec_key r = k then r # with_key k (concat (gs[j := rs])) else with_key k (concat (gs[j := rs])))"
proof -
  have gs: "gs = take j gs @ (r # rs) # drop (Suc j) gs"
    using id_take_nth_drop [OF assms(2)] unfolding assms(3) .
  have up: "gs[j := rs] = take j gs @ rs # drop (Suc j) gs" using assms(2) by (simp add: upd_conv_take_nth_drop)
  have "with_key (rec_key r) (concat (take j gs)) = []"
  proof (rule with_key_absent)
    show "rec_key r \<notin> keys_of (concat (take j gs))"
    proof
      assume "rec_key r \<in> keys_of (concat (take j gs))"
      then obtain g where g: "g \<in> set (take j gs)" "rec_key r \<in> keys_of g" by (auto simp: keys_of_def)
      then obtain i where i: "i < j" "g = gs ! i" using assms(2) by (auto simp: in_set_conv_nth)
      have "rec_key r \<in> keys_of (gs ! j)" by (simp add: assms(3) keys_of_def)
      moreover have "keys_of (gs ! i) \<inter> keys_of (gs ! j) = {}"
        using assms(1,2) i by (simp add: separate_def)
      ultimately show False using i g by blast
    qed
  qed
  moreover have "concat gs = concat (take j gs) @ (r # rs) @ concat (drop (Suc j) gs)"
    by (subst gs) simp
  moreover have "concat (gs[j := rs]) = concat (take j gs) @ rs @ concat (drop (Suc j) gs)"
    by (simp add: up)
  ultimately show ?thesis by auto
qed

lemma separate_update:
  assumes "separate gs" and "j < length gs" and "gs ! j = r # rs"
  shows "separate (gs[j := rs])"
proof -
  have "keys_of (gs[j := rs] ! i) \<subseteq> keys_of (gs ! i)" if "i < length gs" for i
    using that assms(3) by (cases "i = j") (auto simp: keys_of_def)
  note sub = this
  show ?thesis
    unfolding separate_def
  proof (intro allI impI)
    fix i k assume ik: "i < length (gs[j := rs])" "k < length (gs[j := rs])" "i \<noteq> k"
    then have "keys_of (gs ! i) \<inter> keys_of (gs ! k) = {}" using assms(1) by (simp add: separate_def)
    then show "keys_of (gs[j := rs] ! i) \<inter> keys_of (gs[j := rs] ! k) = {}"
      using sub [of i] sub [of k] ik by auto
  qed
qed

section \<open>Every consumer is faithful to what it was sent\<close>

definition pc_inv :: "partitionConsumer \<Rightarrow> bool" where
  "pc_inv pc \<longleftrightarrow>
     (\<forall>k. with_key k (map fst (processed pc)) @ with_key k (concat (groups pc)) @ with_key k (concat (recordsChan pc)) =
        with_key k (sent pc)) \<and>
     separate (groups pc) \<and>
     (pc_done pc \<longrightarrow> closing pc \<and> idle pc \<and> recordsChan pc = []) \<and>
     (\<forall>(r, m) \<in> set (processed pc). m = message_of pc r)"

lemma idle_concat: "idle pc \<Longrightarrow> concat (groups pc) = []"
  by (simp add: idle_def)

lemma take_batch_inv:
  assumes "pc_inv pc" and "idle pc" and "recordsChan pc = records # rest" and "\<not> pc_done pc"
  shows "pc_inv (take_batch one records pc)"
proof -
  have g: "with_key k (concat (if one then [records] else map snd (groupedByKey records))) = with_key k records" for k
    using groupedByKey_spec [of records] by simp
  have sep: "separate (if one then [records] else map snd (groupedByKey records))"
    using grouping_separate groupedByKey_spec [of records] by (auto simp: separate_def)
  have p: "with_key k (map fst (processed pc)) @ with_key k records @ with_key k (concat rest) = with_key k (sent pc)" for k
    using assms(1) idle_concat [OF assms(2)] assms(3) by (simp add: pc_inv_def)
  show ?thesis
    using assms(1,3,4) g sep p by (auto simp: pc_inv_def take_batch_def message_of_def)
qed

lemma processRecord_inv:
  assumes "pc_inv pc" and "j < length (groups pc)" and "groups pc ! j = r # rs"
  shows "pc_inv (processRecord j r rs pc)"
proof -
  have sep: "separate (groups pc)" using assms(1) by (simp add: pc_inv_def)
  have "\<not> idle pc" using assms(2,3) nth_mem [of j "groups pc"] by (auto simp: idle_def)
  then have nd: "\<not> pc_done pc" using assms(1) by (auto simp: pc_inv_def)
  have "with_key k (map fst (processed pc) @ [r]) @ with_key k (concat ((groups pc)[j := rs])) @
      with_key k (concat (recordsChan pc)) = with_key k (sent pc)" for k
  proof -
    have "with_key k (map fst (processed pc)) @ with_key k (concat (groups pc)) @ with_key k (concat (recordsChan pc)) =
        with_key k (sent pc)"
      using assms(1) by (simp add: pc_inv_def)
    then show ?thesis using with_key_concat_update [OF sep assms(2,3), of k] by (cases "rec_key r = k") simp_all
  qed
  then show ?thesis
    using assms(1) separate_update [OF sep assms(2,3)] nd
    by (auto simp: pc_inv_def processRecord_def message_of_def)
qed

lemma finish_inv: "pc_inv pc \<Longrightarrow> closing pc \<Longrightarrow> idle pc \<Longrightarrow> recordsChan pc = [] \<Longrightarrow> pc_inv (finish_consumer pc)"
  by (simp add: pc_inv_def finish_consumer_def idle_def message_of_def)

lemma closing_inv: "pc_inv pc \<Longrightarrow> pc_inv (pc\<lparr>closing := True\<rparr>)"
  by (simp add: pc_inv_def idle_def message_of_def)

lemma send_inv:
  "pc_inv pc \<Longrightarrow> \<not> closing pc \<Longrightarrow>
    pc_inv (pc\<lparr>recordsChan := recordsChan pc @ [records], sent := sent pc @ records\<rparr>)"
  by (auto simp: pc_inv_def message_of_def simp flip: append_assoc)

lemma new_inv: "pc_inv (new_consumer c topic p)"
  by (simp add: pc_inv_def new_consumer_def separate_def)

section \<open>Invariants of all consumers\<close>

definition cc_inv :: "concurrentConsumer \<Rightarrow> bool" where
  "cc_inv c \<longleftrightarrow> (\<forall>pc \<in> set (heap c). pc_inv pc) \<and>
     (\<forall>topic p i. lookup_consumer c topic p = Some i \<longrightarrow>
       i < length (heap c) \<and> pc_topic (heap c ! i) = topic \<and> pc_partition (heap c ! i) = p)"

text \<open>Records that are with a consumer and not processed yet, and by how much the wait group exceeds them.\<close>

definition pending :: "partitionConsumer \<Rightarrow> int" where
  "pending pc = int (length (concat (groups pc)) + length (concat (recordsChan pc)))"

definition leak :: "concurrentConsumer \<Rightarrow> int" where
  "leak c = consumingWg c - sum_list (map pending (heap c))"

text \<open>What the goroutines leave alone.\<close>

definition frame :: "concurrentConsumer \<Rightarrow> concurrentConsumer \<Rightarrow> bool" where
  "frame c c' \<longleftrightarrow> consumers c' = consumers c \<and> length (heap c') = length (heap c) \<and>
     (\<forall>i < length (heap c). closing (heap c' ! i) = closing (heap c ! i) \<and>
        pc_topic (heap c' ! i) = pc_topic (heap c ! i) \<and> pc_partition (heap c' ! i) = pc_partition (heap c ! i))"

lemma frame_refl [simp]: "frame c c"
  by (simp add: frame_def)

lemma frame_trans: "frame a b \<Longrightarrow> frame b c \<Longrightarrow> frame a c"
  by (simp add: frame_def)

lemma frame_lookup: "frame c c' \<Longrightarrow> lookup_consumer c' t p = lookup_consumer c t p"
  by (simp add: frame_def lookup_consumer_def)

lemma upd_simps [simp]:
  "consumers (upd i f c) = consumers c" "length (heap (upd i f c)) = length (heap c)"
  "consumingWg (upd i f c) = consumingWg c"
  "i < length (heap c) \<Longrightarrow> heap (upd i f c) ! k = (if k = i then f (heap c ! i) else heap c ! k)"
  by (auto simp: upd_def nth_list_update)

lemma heap_upd: "heap (upd i f c) = (heap c)[i := f (heap c ! i)]"
  by (simp add: upd_def)

lemma frame_upd:
  assumes "i < length (heap c)" and "\<And>pc. closing (f pc) = closing pc \<and> pc_topic (f pc) = pc_topic pc \<and> pc_partition (f pc) = pc_partition pc"
  shows "frame c (upd i f c)"
  using assms by (simp add: frame_def)

lemma consume_step_frame: "consume_step c c' \<Longrightarrow> frame c c'"
proof (induction rule: consume_step.induct)
  case (step_take i c records rest)
  then show ?case by (intro frame_upd) (simp_all add: take_batch_def)
next
  case (step_process i c j r rs)
  then have "frame c (upd i (processRecord j r rs) c)" by (intro frame_upd) (simp_all add: processRecord_def)
  then show ?case by (simp add: frame_def)
next
  case (step_finish i c)
  then show ?case by (intro frame_upd) (simp_all add: finish_consumer_def)
qed

lemma upd_inv:
  assumes "cc_inv c" and "i < length (heap c)" and "pc_inv (f (heap c ! i))"
    and "pc_topic (f (heap c ! i)) = pc_topic (heap c ! i)" and "pc_partition (f (heap c ! i)) = pc_partition (heap c ! i)"
  shows "cc_inv (upd i f c)"
proof -
  have "set (heap (upd i f c)) \<subseteq> insert (f (heap c ! i)) (set (heap c))"
    unfolding heap_upd by (rule set_update_subset_insert)
  moreover have "lookup_consumer (upd i f c) t p = lookup_consumer c t p" for t p
    by (simp add: lookup_consumer_def)
  ultimately show ?thesis using assms by (auto simp: cc_inv_def)
qed

lemma wg_change [simp]: "cc_inv (c\<lparr>consumingWg := n\<rparr>) = cc_inv c"
  by (simp add: cc_inv_def lookup_consumer_def)

lemma consume_step_inv: "consume_step c c' \<Longrightarrow> cc_inv c \<Longrightarrow> cc_inv c'"
proof (induction rule: consume_step.induct)
  case (step_take i c records rest)
  then have "pc_inv (heap c ! i)" by (simp add: cc_inv_def)
  with step_take show ?case
    by (intro upd_inv take_batch_inv) (simp_all add: take_batch_def)
next
  case (step_process i c j r rs)
  then have "pc_inv (heap c ! i)" by (simp add: cc_inv_def)
  with step_process have "cc_inv (upd i (processRecord j r rs) c)"
    by (intro upd_inv processRecord_inv) (simp_all add: processRecord_def)
  then show ?case by simp
next
  case (step_finish i c)
  then have "pc_inv (heap c ! i)" by (simp add: cc_inv_def)
  with step_finish show ?case
    by (intro upd_inv finish_inv) (simp_all add: finish_consumer_def)
qed

lemma sum_list_update_int:
  "i < length xs \<Longrightarrow> sum_list (map f (xs[i := y])) = sum_list (map f xs) - f (xs ! i) + (f y :: int)"
  by (induction xs arbitrary: i) (auto split: nat.splits)

lemma leak_upd:
  "i < length (heap c) \<Longrightarrow> leak (upd i f c) = leak c + pending (heap c ! i) - pending (f (heap c ! i))"
  by (simp add: leak_def heap_upd sum_list_update_int)

lemma length_groups: "length (concat (map snd (groupedByKey rs))) = length rs"
proof (induction rs rule: rev_induct)
  case Nil
  then show ?case by (simp add: groupedByKey_def)
next
  case (snoc r rs)
  have "length (concat (map snd (add_to_group r g))) = Suc (length (concat (map snd g)))" for g
    by (induction r g rule: add_to_group.induct) auto
  with snoc show ?case by (simp add: groupedByKey_def)
qed

lemma pending_take:
  "idle pc \<Longrightarrow> recordsChan pc = records # rest \<Longrightarrow> pending (take_batch one records pc) = pending pc"
  using idle_concat [of pc] length_groups [of records] by (simp add: pending_def take_batch_def)

lemma length_concat_update:
  "j < length gs \<Longrightarrow> gs ! j = r # rs \<Longrightarrow> length (concat gs) = Suc (length (concat (gs[j := rs])))"
  by (induction gs arbitrary: j) (auto split: nat.splits simp: nth_Cons')

lemma pending_process:
  "j < length (groups pc) \<Longrightarrow> groups pc ! j = r # rs \<Longrightarrow> pending (processRecord j r rs pc) = pending pc - 1"
  using length_concat_update [of j "groups pc" r rs] by (simp add: pending_def processRecord_def)

lemma consume_step_leak: "consume_step c c' \<Longrightarrow> leak c' = leak c"
proof (induction rule: consume_step.induct)
  case (step_take i c records rest)
  then show ?case by (simp add: leak_upd pending_take)
next
  case (step_process i c j r rs)
  then have "leak (upd i (processRecord j r rs) c) = leak c + 1" by (simp add: leak_upd pending_process)
  then show ?case by (simp add: leak_def)
next
  case (step_finish i c)
  then show ?case by (simp add: leak_upd pending_def finish_consumer_def)
qed

definition sane :: "concurrentConsumer \<Rightarrow> concurrentConsumer \<Rightarrow> bool" where
  "sane c c' \<longleftrightarrow> (cc_inv c \<longrightarrow> cc_inv c') \<and> leak c' = leak c"

lemma sane_refl [simp]: "sane c c"
  by (simp add: sane_def)

lemma sane_trans: "sane a b \<Longrightarrow> sane b c \<Longrightarrow> sane a c"
  by (simp add: sane_def)

lemma consume_steps_sane: "consume_steps c c' \<Longrightarrow> sane c c' \<and> frame c c'"
proof (induction rule: rtranclp_induct)
  case base
  then show ?case by simp
next
  case (step y z)
  have "sane y z" using consume_step_inv [OF step.hyps(2)] consume_step_leak [OF step.hyps(2)] by (simp add: sane_def)
  then show ?case using step.IH sane_trans frame_trans consume_step_frame [OF step.hyps(2)] by blast
qed

text \<open>The goroutines may do anything while a caller waits.\<close>

definition settle_ok :: "(concurrentConsumer \<Rightarrow> concurrentConsumer) \<Rightarrow> bool" where
  "settle_ok settle \<longleftrightarrow> (\<forall>c. consume_steps c (settle c))"

lemma wait_sane:
  assumes "settle_ok settle"
  shows "sane c (waitForClosingConsumerToFinish settle ctx i c) \<and> frame c (waitForClosingConsumerToFinish settle ctx i c)"
  using assms consume_steps_sane by (simp add: waitForClosingConsumerToFinish_def settle_ok_def)

lemma stop_sane:
  assumes "settle_ok settle" and "i < length (heap c)"
  shows "sane c (stop settle ctx i c)" and "length (heap (stop settle ctx i c)) = length (heap c)"
    and "consumers (stop settle ctx i c) = consumers c"
proof -
  let ?u = "upd i (\<lambda>pc. pc\<lparr>closing := True\<rparr>) c"
  have inv: "cc_inv ?u" if c: "cc_inv c"
  proof (rule upd_inv [OF c assms(2)])
    have "pc_inv (heap c ! i)" using c assms(2) by (simp add: cc_inv_def)
    then show "pc_inv ((heap c ! i)\<lparr>closing := True\<rparr>)" by (rule closing_inv)
  qed simp_all
  have "leak ?u = leak c" using leak_upd [OF assms(2)] by (simp add: pending_def)
  with inv have u: "sane c ?u" by (simp add: sane_def)
  show "sane c (stop settle ctx i c)"
    using sane_trans [OF u] wait_sane [OF assms(1), of ?u ctx i] by (simp add: stop_def)
  show "length (heap (stop settle ctx i c)) = length (heap c)" "consumers (stop settle ctx i c) = consumers c"
    using wait_sane [OF assms(1), of ?u ctx i] by (simp_all add: stop_def frame_def)
qed

definition live :: "concurrentConsumer \<Rightarrow> string \<Rightarrow> 32 word \<Rightarrow> bool" where
  "live c t p \<longleftrightarrow> (\<exists>i. lookup_consumer c t p = Some i \<and> \<not> closing (heap c ! i))"

lemma replace_facts:
  assumes settle: "settle_ok settle" and "\<And>i. pc = Some i \<Longrightarrow> i < length (heap c)"
  shows "sane c (replaceConsumer settle ctx t p pc c)" and "cc_inv c \<Longrightarrow> live (replaceConsumer settle ctx t p pc c) t p"
    and "cc_inv c \<Longrightarrow> (t', p') \<noteq> (t, p) \<Longrightarrow> live (replaceConsumer settle ctx t p pc c) t' p' = live c t' p'"
proof -
  define c1 where "c1 = (case pc of None \<Rightarrow> c
     | Some i \<Rightarrow> if \<not> pc_done (heap c ! i) then waitForClosingConsumerToFinish settle ctx i c else c)"
  have c1: "sane c c1 \<and> frame c c1"
    using wait_sane [OF settle, of c] by (auto simp: c1_def split: option.splits)
  let ?m = "case consumers c1 t of None \<Rightarrow> Map.empty | Some m \<Rightarrow> m"
  let ?r = "c1\<lparr>heap := heap c1 @ [new_consumer c1 t p], consumers := (consumers c1)(t := Some (?m(p \<mapsto> length (heap c1))))\<rparr>"
  have r: "replaceConsumer settle ctx t p pc c = ?r" by (simp add: replaceConsumer_def c1_def Let_def)
  have look: "lookup_consumer ?r t' p' = (if (t', p') = (t, p) then Some (length (heap c1)) else lookup_consumer c1 t' p')" for t' p'
    by (auto simp: lookup_consumer_def split: option.splits)
  have inv: "cc_inv ?r" if i: "cc_inv c1"
  proof -
    have "pc_inv x" if "x \<in> set (heap ?r)" for x
      using that i new_inv by (auto simp: cc_inv_def)
    moreover have "i < length (heap ?r) \<and> pc_topic (heap ?r ! i) = t' \<and> pc_partition (heap ?r ! i) = p'"
      if "lookup_consumer ?r t' p' = Some i" for t' p' i
    proof (cases "(t', p') = (t, p)")
      case True
      then show ?thesis using that unfolding look by (auto simp: new_consumer_def)
    next
      case False
      then have "lookup_consumer c1 t' p' = Some i" using that unfolding look by (auto split: if_splits)
      then have "i < length (heap c1) \<and> pc_topic (heap c1 ! i) = t' \<and> pc_partition (heap c1 ! i) = p'"
        using i unfolding cc_inv_def by blast
      then show ?thesis by (simp add: nth_append)
    qed
    ultimately show ?thesis unfolding cc_inv_def by blast
  qed
  have lk: "leak ?r = leak c1" by (simp add: leak_def pending_def new_consumer_def)
  show "sane c (replaceConsumer settle ctx t p pc c)"
    unfolding r using c1 inv lk by (simp add: sane_def)
  show "live (replaceConsumer settle ctx t p pc c) t p"
    unfolding r live_def look by (simp add: new_consumer_def)
  show "live (replaceConsumer settle ctx t p pc c) t' p' = live c t' p'" if ci: "cc_inv c" and ne: "(t', p') \<noteq> (t, p)"
  proof -
    have same: "lookup_consumer c1 t' p' = lookup_consumer c t' p'" using c1 frame_lookup by blast
    have "i < length (heap c)" if "lookup_consumer c t' p' = Some i" for i using ci that unfolding cc_inv_def by blast
    then have "closing (heap ?r ! i) = closing (heap c ! i)" if "lookup_consumer c t' p' = Some i" for i
      using that c1 by (simp add: frame_def nth_append)
    then show ?thesis unfolding r live_def look using ne same by auto
  qed
qed

lemma assign_partition_facts:
  assumes "settle_ok settle" and "cc_inv c"
  shows "sane c (assign_partition settle ctx t p c)" and "live (assign_partition settle ctx t p c) t p"
    and "(t', p') \<noteq> (t, p) \<Longrightarrow> live (assign_partition settle ctx t p c) t' p' = live c t' p'"
proof -
  have len: "\<And>i. lookup_consumer c t p = Some i \<Longrightarrow> i < length (heap c)" using assms(2) unfolding cc_inv_def by blast
  show "sane c (assign_partition settle ctx t p c)"
    using replace_facts(1) [OF assms(1)] len by (simp add: assign_partition_def split: option.splits)
  show "live (assign_partition settle ctx t p c) t p"
    using replace_facts(2) [OF assms(1) _ assms(2)] len
    by (auto simp: assign_partition_def live_def split: option.splits)
  show "live (assign_partition settle ctx t p c) t' p' = live c t' p'" if "(t', p') \<noteq> (t, p)"
    using replace_facts(3) [OF assms(1) _ assms(2) that] len
    by (auto simp: assign_partition_def split: option.splits)
qed

lemma assign_partitions_facts:
  assumes settle: "settle_ok settle"
  shows "cc_inv c \<Longrightarrow> sane c (fold (assign_partition settle ctx t) ps c) \<and>
    (\<forall>t' p'. live (fold (assign_partition settle ctx t) ps c) t' p' \<longleftrightarrow> live c t' p' \<or> t' = t \<and> p' \<in> set ps)"
proof (induction ps arbitrary: c)
  case Nil
  then show ?case by simp
next
  case (Cons p ps)
  let ?c = "assign_partition settle ctx t p c"
  have f: "sane c ?c" "live ?c t p" "\<And>t' p'. (t', p') \<noteq> (t, p) \<Longrightarrow> live ?c t' p' = live c t' p'"
    using assign_partition_facts [OF settle Cons.prems] by blast+
  then have i: "cc_inv ?c" using Cons.prems by (simp add: sane_def)
  have "sane c (fold (assign_partition settle ctx t) ps ?c)" using Cons.IH [OF i] f(1) sane_trans by blast
  moreover have "live (fold (assign_partition settle ctx t) ps ?c) t' p' \<longleftrightarrow> live c t' p' \<or> t' = t \<and> p' \<in> set (p # ps)" for t' p'
    using Cons.IH [OF i] f(2,3) by (cases "(t', p') = (t, p)") auto
  ultimately show ?case by simp
qed

lemma load_or_store_facts:
  "sane c (load_or_store t c) \<and> (\<forall>t' p'. live (load_or_store t c) t' p' = live c t' p')"
proof -
  have "lookup_consumer (load_or_store t c) t' p' = lookup_consumer c t' p'" for t' p'
    by (auto simp: load_or_store_def lookup_consumer_def split: option.splits)
  moreover have "heap (load_or_store t c) = heap c" "consumingWg (load_or_store t c) = consumingWg c"
    by (simp_all add: load_or_store_def split: option.splits)
  ultimately show ?thesis by (simp add: sane_def cc_inv_def leak_def live_def)
qed

lemma assignPartitions_facts:
  assumes settle: "settle_ok settle" and "cc_inv c"
  shows "sane c (assignPartitions settle ctx assigned c) \<and>
    (\<forall>t p. live (assignPartitions settle ctx assigned c) t p \<longleftrightarrow>
      live c t p \<or> \<not> ctx \<and> (\<exists>ps. (t, ps) \<in> set assigned \<and> p \<in> set ps))"
proof (cases ctx)
  case True
  then show ?thesis by (simp add: assignPartitions_def)
next
  case False
  have "sane c (fold (\<lambda>(t, ps) c. fold (assign_partition settle ctx t) ps (load_or_store t c)) assigned c) \<and>
    (\<forall>t p. live (fold (\<lambda>(t, ps) c. fold (assign_partition settle ctx t) ps (load_or_store t c)) assigned c) t p \<longleftrightarrow>
      live c t p \<or> (\<exists>ps. (t, ps) \<in> set assigned \<and> p \<in> set ps))"
    using assms(2)
  proof (induction assigned arbitrary: c)
    case Nil
    then show ?case by simp
  next
    case (Cons a assigned)
    obtain t ps where a: "a = (t, ps)" by (cases a)
    let ?c1 = "load_or_store t c" and ?c2 = "fold (assign_partition settle ctx t) ps (load_or_store t c)"
    have c1: "sane c ?c1" "\<And>t' p'. live ?c1 t' p' = live c t' p'" using load_or_store_facts [of c t] by auto
    then have "cc_inv ?c1" using Cons.prems by (simp add: sane_def)
    note c2 = assign_partitions_facts [OF settle this, of ctx t ps]
    have i2: "cc_inv ?c2" using c2 \<open>cc_inv ?c1\<close> by (simp add: sane_def)
    have "sane c ?c2" using c1(1) c2 sane_trans by blast
    then show ?case
      using Cons.IH [OF i2] c2 c1(2) sane_trans by (auto simp: a)
  qed
  then show ?thesis using False by (simp add: assignPartitions_def)
qed

lemma revoke_partitions_sane:
  assumes settle: "settle_ok settle"
  shows "cc_inv c \<Longrightarrow> sane c (fold (revoke_partition settle ctx t) ps c)"
proof (induction ps arbitrary: c)
  case Nil
  then show ?case by simp
next
  case (Cons p ps)
  have "i < length (heap c)" if "lookup_consumer c t p = Some i" for i
    using Cons.prems that unfolding cc_inv_def by blast
  then have s: "sane c (revoke_partition settle ctx t p c)"
    using stop_sane(1) [OF settle] by (simp add: revoke_partition_def split: option.splits)
  then have "cc_inv (revoke_partition settle ctx t p c)" using Cons.prems by (simp add: sane_def)
  then show ?case using Cons.IH sane_trans [OF s] by simp
qed

lemma revokePartitions_sane:
  assumes settle: "settle_ok settle" and "cc_inv c"
  shows "sane c (revokePartitions settle ctx lost c)"
  using assms(2) unfolding revokePartitions_def
proof (induction lost arbitrary: c)
  case Nil
  then show ?case by simp
next
  case (Cons a lost)
  obtain t ps where a: "a = (t, ps)" by (cases a)
  have s: "sane c (fold (revoke_partition settle ctx t) ps c)" by (rule revoke_partitions_sane [OF settle Cons.prems])
  then have "cc_inv (fold (revoke_partition settle ctx t) ps c)" using Cons.prems by (simp add: sane_def)
  then show ?case using Cons.IH sane_trans [OF s] by (simp add: a)
qed

lemma send_records_facts:
  assumes "send_records i records c = Ret c'" and "i < length (heap c)"
  shows "cc_inv c \<longrightarrow> cc_inv c'" and "leak c' = leak c - int (length records)" and "frame c c'"
proof -
  let ?f = "\<lambda>pc. pc\<lparr>recordsChan := recordsChan pc @ [records], sent := sent pc @ records\<rparr>"
  have c': "c' = upd i ?f c" and cl: "\<not> closing (heap c ! i)"
    using assms(1) by (auto simp: send_records_def split: if_splits)
  show "cc_inv c \<longrightarrow> cc_inv c'"
  proof
    assume c: "cc_inv c"
    then have "pc_inv (heap c ! i)" using assms(2) by (simp add: cc_inv_def)
    then have "pc_inv (?f (heap c ! i))" using cl by (rule send_inv)
    then show "cc_inv c'" unfolding c' by (intro upd_inv [OF c assms(2)]) simp_all
  qed
  show "leak c' = leak c - int (length records)"
    unfolding c' leak_upd [OF assms(2)] by (simp add: pending_def)
  show "frame c c'" unfolding c' by (intro frame_upd [OF assms(2)]) simp
qed

lemma wg_add_simps [simp]:
  "cc_inv (wg_add n c) = cc_inv c" "leak (wg_add n c) = leak c + int n" "heap (wg_add n c) = heap c"
  "lookup_consumer (wg_add n c) t p = lookup_consumer c t p" "consumers (wg_add n c) = consumers c"
  "frame (wg_add n c) c' = frame c c'" "live (wg_add n c) t p = live c t p"
  by (simp_all add: wg_add_def leak_def lookup_consumer_def frame_def live_def)

lemma send_all_sane: "send_all t rs c = Ret c' \<Longrightarrow> cc_inv c \<Longrightarrow> cc_inv c' \<and> leak c' = leak c"
proof (induction t rs c rule: send_all.induct)
  case (1 t c)
  then show ?case by simp
next
  case (2 t p records rs c)
  obtain i where i: "lookup_consumer c t p = Some i" using 2(2) by (auto split: option.splits)
  then have len: "i < length (heap c)" using 2(3) unfolding cc_inv_def by blast
  obtain c1 where c1: "send_records i records (wg_add (length records) c) = Ret c1" "send_all t rs c1 = Ret c'"
    using 2(2) i by (auto simp: obind_Ret_iff)
  have f: "cc_inv c1" "leak c1 = leak c"
    using send_records_facts [OF c1(1)] len 2(3) by simp_all
  have "send_all t rs c1 = Ret c' \<Longrightarrow> cc_inv c1 \<Longrightarrow> cc_inv c' \<and> leak c' = leak c1"
    using 2(1) [OF i] by blast
  then show ?case using c1(2) f by simp
qed

definition ok_records :: "fetch_partition list \<Rightarrow> nat" where
  "ok_records fps = sum_list (map (\<lambda>fp. if fp_err fp = None then length (fp_records fp) else 0) fps)"

definition records_step ::
    "fetch_partition \<Rightarrow> ((32 word \<times> krecord list) list \<times> 32 word list) \<times> concurrentConsumer \<Rightarrow>
     ((32 word \<times> krecord list) list \<times> 32 word list) \<times> concurrentConsumer" where
  "records_step fp = (\<lambda>((recs, parts), c).
     if fp_err fp \<noteq> None then ((recs, parts), c)
     else ((AList.update (fp_partition fp) (fp_records fp) recs, parts @ [fp_partition fp]),
           wg_add (length (fp_records fp)) c))"

lemma mb_records_fold: "mb_records ps c = fold records_step ps (([], []), c)"
  by (simp add: mb_records_def records_step_def [abs_def])

lemma update_not_Nil: "AList.update k v al \<noteq> []"
  by (cases al) auto

lemma mb_records_facts:
  "mb_records ps c = ((recs, parts), c1) \<Longrightarrow>
     cc_inv c1 = cc_inv c \<and> leak c1 = leak c + int (ok_records ps) \<and>
     (recs = [] \<longleftrightarrow> (\<forall>fp \<in> set ps. fp_err fp \<noteq> None))"
proof (induction ps arbitrary: recs parts c1 rule: rev_induct)
  case Nil
  then show ?case by (simp add: ok_records_def mb_records_fold)
next
  case (snoc fp ps)
  obtain recs0 parts0 c0 where r: "mb_records ps c = ((recs0, parts0), c0)" by (metis prod.exhaust)
  note IH = snoc.IH [OF r]
  have st: "records_step fp ((recs0, parts0), c0) = ((recs, parts), c1)"
    using snoc.prems r by (simp add: mb_records_fold)
  show ?case
  proof (cases "fp_err fp = None")
    case True
    then have e: "recs = AList.update (fp_partition fp) (fp_records fp) recs0" "c1 = wg_add (length (fp_records fp)) c0"
      using st by (simp_all add: records_step_def)
    have "cc_inv c1 = cc_inv c" "leak c1 = leak c + int (ok_records (ps @ [fp]))"
      using IH True by (simp_all add: e(2) ok_records_def)
    moreover have "recs \<noteq> []" unfolding e(1) by (rule update_not_Nil)
    ultimately show ?thesis using True by simp
  next
    case False
    then have "recs = recs0" "c1 = c0" using st by (simp_all add: records_step_def)
    moreover have "ok_records (ps @ [fp]) = ok_records ps" using False by (auto simp: ok_records_def)
    ultimately show ?thesis using IH False by simp
  qed
qed

lemma processNotFound_facts:
  assumes settle: "settle_ok settle" and inv: "cc_inv c"
    and run: "processNotFoundPartitions settle ft fps c = Ret c'"
  shows "cc_inv c' \<and> leak c' = leak c + int (ok_records (if fps \<noteq> [] then fps else ft_partitions ft))"
proof -
  let ?ps = "if length fps \<noteq> 0 then fps else ft_partitions ft"
  obtain recs parts c1 where r: "mb_records ?ps c = ((recs, parts), c1)" by (metis prod.exhaust)
  then have c1: "cc_inv c1" "leak c1 = leak c + int (ok_records ?ps)"
    using mb_records_facts [OF r] inv by simp_all
  show ?thesis
  proof (cases "recs = []")
    case True
    then show ?thesis using run r c1 by (simp add: processNotFoundPartitions_def)
  next
    case False
    let ?c2 = "assignPartitions settle False [(ft_topic ft, parts)] c1"
    have c2: "cc_inv ?c2" "leak ?c2 = leak c1"
      using assignPartitions_facts [OF settle c1(1), of False "[(ft_topic ft, parts)]"] c1(1) by (simp_all add: sane_def)
    obtain c3 where c3: "send_all (ft_topic ft) recs ?c2 = Ret c3"
        "c' = revokePartitions settle False [(ft_topic ft, parts)] c3"
      using run r False by (auto simp: processNotFoundPartitions_def obind_Ret_iff)
    have "cc_inv c3" "leak c3 = leak c1" using send_all_sane [OF c3(1) c2(1)] c2(2) by simp_all
    then show ?thesis
      using revokePartitions_sane [OF settle, of c3 False "[(ft_topic ft, parts)]"] c1(2) c3(2) by (simp add: sane_def)
  qed
qed

section \<open>Everything that can happen\<close>

text \<open>What happens while a goroutine waits for the mutex: records are processed, partitions are assigned and
  revoked.\<close>

inductive mutex_step :: "concurrentConsumer \<Rightarrow> concurrentConsumer \<Rightarrow> bool" where
  mutex_consume: "consume_step c c' \<Longrightarrow> mutex_step c c'"
| mutex_assign: "settle_ok settle \<Longrightarrow> mutex_step c (OnPartitionsAssigned settle ctx assigned c)"
| mutex_lost: "settle_ok settle \<Longrightarrow> mutex_step c (OnPartitionsLost settle ctx lost c)"

definition resync_ok :: "(concurrentConsumer \<Rightarrow> concurrentConsumer) \<Rightarrow> bool" where
  "resync_ok resync \<longleftrightarrow> (\<forall>c. mutex_step\<^sup>*\<^sup>* c (resync c))"

inductive broker_step :: "concurrentConsumer \<Rightarrow> concurrentConsumer \<Rightarrow> bool" where
  broker_mutex: "mutex_step c c' \<Longrightarrow> broker_step c c'"
| broker_poll: "settle_ok settle \<Longrightarrow> resync_ok resync \<Longrightarrow>
    poll_fetches settle resync stopping fetches c = Ret (b, c') \<Longrightarrow> broker_step c c'"

definition start_consumers :: "(string \<Rightarrow> bool) \<Rightarrow> (string \<Rightarrow> 32 word option) \<Rightarrow> concurrentConsumer" where
  "start_consumers one counts = \<lparr>heap = [], consumers = Map.empty, consumingWg = 0,
     oneGoroutinePerPartition = one, partitionCountPerTopic = counts, cc_done = False\<rparr>"

lemma mutex_step_sane: "mutex_step c c' \<Longrightarrow> cc_inv c \<Longrightarrow> cc_inv c' \<and> leak c' = leak c"
proof (induction rule: mutex_step.induct)
  case (mutex_consume c c')
  then show ?case using consume_step_inv consume_step_leak by blast
next
  case (mutex_assign settle c ctx assigned)
  then show ?case using assignPartitions_facts [of settle c ctx assigned] by (simp add: OnPartitionsAssigned_def sane_def)
next
  case (mutex_lost settle c ctx lost)
  then show ?case using revokePartitions_sane [of settle c ctx lost] by (simp add: OnPartitionsLost_def sane_def)
qed

lemma mutex_steps_sane: "mutex_step\<^sup>*\<^sup>* c c' \<Longrightarrow> cc_inv c \<Longrightarrow> cc_inv c' \<and> leak c' = leak c"
proof (induction rule: rtranclp_induct)
  case base
  then show ?case by simp
next
  case (step y z)
  then show ?case using mutex_step_sane [OF step.hyps(2)] by simp
qed

definition good :: "concurrentConsumer \<Rightarrow> bool" where
  "good c \<longleftrightarrow> cc_inv c \<and> 0 \<le> leak c"

lemma mutex_steps_good: "mutex_step\<^sup>*\<^sup>* c c' \<Longrightarrow> good c \<Longrightarrow> good c'"
  using mutex_steps_sane by (simp add: good_def)

lemma resync_good: "resync_ok resync \<Longrightarrow> good c \<Longrightarrow> good (resync c)"
  using mutex_steps_good [of c "resync c"] by (simp add: resync_ok_def)

lemma processNotFound_good:
  "settle_ok settle \<Longrightarrow> good c \<Longrightarrow> processNotFoundPartitions settle ft fps c = Ret c' \<Longrightarrow> good c'"
  using processNotFound_facts [of settle c ft fps c'] by (simp add: good_def)

lemma send_good:
  "send_records i records (wg_add (length records) c) = Ret c' \<Longrightarrow> i < length (heap c) \<Longrightarrow> good c \<Longrightarrow> good c'"
  using send_records_facts [of i records "wg_add (length records) c" c'] by (simp add: good_def)

lemma find_consumer_good:
  assumes settle: "settle_ok settle" and resync: "resync_ok resync" and good: "good c"
    and fc: "find_consumer settle resync fp ft c = Ret (pc, c1)"
  shows "good c1 \<and> (\<forall>i. pc = Some i \<longrightarrow> i < length (heap c1))"
proof (cases "fp_err fp = None")
  case False
  then show ?thesis using fc good by (simp add: find_consumer_def)
next
  case True
  let ?c0 = "if lookup_consumer c (ft_topic ft) (fp_partition fp) = None then resync c else c"
  have c0: "good ?c0" using good resync_good [OF resync] by simp
  consider "lookup_consumer ?c0 (ft_topic ft) (fp_partition fp) = None"
    | i where "lookup_consumer ?c0 (ft_topic ft) (fp_partition fp) = Some i" by (cases "lookup_consumer ?c0 (ft_topic ft) (fp_partition fp)") auto
  then show ?thesis
  proof cases
    case 1
    then have "pc = None" "processNotFoundPartitions settle ft [fp] ?c0 = Ret c1"
      using fc True by (auto simp: find_consumer_def Let_def)
    then show ?thesis using processNotFound_good [OF settle c0] by simp
  next
    case (2 i)
    show ?thesis
    proof (cases "closing (heap ?c0 ! i)")
      case True
      then have "pc = None" "processNotFoundPartitions settle ft [fp] (resync ?c0) = Ret c1"
        using fc 2 \<open>fp_err fp = None\<close> by (auto simp: find_consumer_def Let_def)
      then show ?thesis using processNotFound_good [OF settle resync_good [OF resync c0]] by simp
    next
      case False
      then have "pc = Some i" "c1 = ?c0" using fc 2 \<open>fp_err fp = None\<close> by (auto simp: find_consumer_def Let_def)
      moreover have "i < length (heap ?c0)" using c0 2 unfolding good_def cc_inv_def by blast
      ultimately show ?thesis using c0 by simp
    qed
  qed
qed

lemma poll_partition_good:
  assumes "settle_ok settle" and "resync_ok resync" and "good c"
    and run: "poll_partition settle resync ft c fp = Ret c'"
  shows "good c'"
proof (cases "fp_err fp = None")
  case False
  then show ?thesis using run assms(3) by (simp add: poll_partition_def)
next
  case True
  obtain pc c1 where fc: "find_consumer settle resync fp ft c = Ret (pc, c1)"
    and rest: "(case pc of None \<Rightarrow> Ret c1 | Some i \<Rightarrow> send_records i (fp_records fp) (wg_add (length (fp_records fp)) c1)) = Ret c'"
    using run True by (auto simp: poll_partition_def obind_Ret_iff)
  note c1 = find_consumer_good [OF assms(1-3) fc]
  show ?thesis
  proof (cases pc)
    case None
    then show ?thesis using rest c1 by simp
  next
    case (Some i)
    then show ?thesis using send_good [of i "fp_records fp" c1 c'] rest c1 by simp
  qed
qed

lemma foldl_obind_Panic: "foldl (\<lambda>o1 x. obind o1 (\<lambda>c. f c x)) Panic xs = Panic"
  by (induction xs) auto

lemma foldl_obind_inv:
  assumes "\<And>c x c'. P c \<Longrightarrow> x \<in> set xs \<Longrightarrow> f c x = Ret c' \<Longrightarrow> P c'"
  shows "P c \<Longrightarrow> foldl (\<lambda>o1 x. obind o1 (\<lambda>c. f c x)) (Ret c) xs = Ret c' \<Longrightarrow> P c'"
  using assms
proof (induction xs arbitrary: c)
  case Nil
  then show ?case by simp
next
  case (Cons x xs)
  show ?case
  proof (cases "f c x")
    case (Ret d)
    have "P d" by (rule Cons.prems(3) [OF Cons.prems(1) _ Ret]) simp
    have "foldl (\<lambda>o1 x. obind o1 (\<lambda>c. f c x)) (Ret d) xs = Ret c'" using Cons.prems(2) Ret by simp
    show ?thesis
      by (rule Cons.IH [OF \<open>P d\<close> \<open>foldl _ (Ret d) xs = Ret c'\<close> Cons.prems(3)]) simp_all
  next
    case Panic
    then show ?thesis using Cons.prems(2) by (simp add: foldl_obind_Panic)
  qed
qed

lemma find_consumers_good:
  assumes "settle_ok settle" and "resync_ok resync" and "good c" and f: "find_consumers settle resync ft c = Ret (found, c1)"
  shows "good c1"
proof (cases "consumers c (ft_topic ft) = None")
  case False
  then show ?thesis using f assms(3) by (simp add: find_consumers_def)
next
  case topic: True
  note r = resync_good [OF assms(2,3)]
  show ?thesis
  proof (cases "consumers (resync c) (ft_topic ft) = None")
    case False
    then show ?thesis using f r topic by (simp add: find_consumers_def Let_def)
  next
    case True
    then have "processNotFoundPartitions settle ft (ft_partitions ft) (resync c) = Ret c1"
      using f topic by (simp add: find_consumers_def Let_def)
    then show ?thesis by (rule processNotFound_good [OF assms(1) r])
  qed
qed

lemma poll_topic_good:
  assumes "settle_ok settle" and "resync_ok resync" and "good c"
    and run: "poll_topic settle resync c ft = Ret c'"
  shows "good c'"
proof -
  obtain found c1 where f: "find_consumers settle resync ft c = Ret (found, c1)"
    and rest: "(if \<not> found then Ret c1 else foldl (\<lambda>o1 fp. obind o1 (\<lambda>c. poll_partition settle resync ft c fp)) (Ret c1) (ft_partitions ft)) = Ret c'"
    using run by (auto simp: poll_topic_def obind_Ret_iff)
  note c1 = find_consumers_good [OF assms(1-3) f]
  show ?thesis
  proof (cases found)
    case False
    then show ?thesis using rest c1 by simp
  next
    case True
    then have run: "foldl (\<lambda>o1 fp. obind o1 (\<lambda>c. poll_partition settle resync ft c fp)) (Ret c1) (ft_partitions ft) = Ret c'"
      using rest by simp
    show ?thesis
      by (rule foldl_obind_inv [where P = good, OF _ c1 run]) (rule poll_partition_good [OF assms(1,2)])
  qed
qed

lemma broker_step_good: "broker_step c c' \<Longrightarrow> good c \<Longrightarrow> good c'"
proof (induction rule: broker_step.induct)
  case (broker_mutex c c')
  then show ?case using mutex_step_sane by (simp add: good_def)
next
  case (broker_poll settle resync stopping fetches c b c')
  show ?case
  proof (cases stopping)
    case True
    then show ?thesis using broker_poll by (simp add: poll_fetches_def)
  next
    case False
    then have run: "foldl (\<lambda>o1 ft. obind o1 (\<lambda>c. poll_topic settle resync c ft)) (Ret c) fetches = Ret c'"
      using broker_poll.hyps by (auto simp: poll_fetches_def)
    show ?thesis
      by (rule foldl_obind_inv [where P = good, OF _ broker_poll.prems run])
        (rule poll_topic_good [OF broker_poll.hyps(1,2)])
  qed
qed

lemma reachable_good:
  assumes "broker_step\<^sup>*\<^sup>* (start_consumers one counts) c"
  shows "good c"
  using assms
proof (induction rule: rtranclp_induct)
  case base
  then show ?case by (simp add: good_def cc_inv_def start_consumers_def lookup_consumer_def leak_def)
next
  case (step y z)
  then show ?case using broker_step_good by blast
qed

section \<open>Properties\<close>

lemma same_keys_mset:
  assumes "\<And>k. with_key k xs = with_key k ys"
  shows "mset xs = mset ys"
proof (rule multiset_eqI)
  fix r
  have "count (mset zs) r = count (mset (with_key (rec_key r) zs)) r" for zs
    by (simp add: with_key_def mset_filter)
  then show "count (mset xs) r = count (mset ys) r" using assms by metis
qed

lemma pc_inv_order:
  assumes "pc_inv pc"
  shows "(\<exists>rest. with_key k (sent pc) = with_key k (map fst (processed pc)) @ rest) \<and>
    (pc_done pc \<longrightarrow> mset (map fst (processed pc)) = mset (sent pc)) \<and>
    (\<forall>(r, m) \<in> set (processed pc). m = message_of pc r)"
proof -
  have all: "with_key k (sent pc) = with_key k (map fst (processed pc)) @ with_key k (concat (groups pc)) @
      with_key k (concat (recordsChan pc))" for k
    using assms by (simp add: pc_inv_def)
  have "mset (map fst (processed pc)) = mset (sent pc)" if "pc_done pc"
  proof (rule same_keys_mset)
    fix k
    have "concat (groups pc) = []" "recordsChan pc = []"
      using assms that idle_concat unfolding pc_inv_def by blast+
    then show "with_key k (map fst (processed pc)) = with_key k (sent pc)" unfolding all by (simp del: concat_eq_Nil_conv)
  qed
  moreover have "\<forall>(r, m) \<in> set (processed pc). m = message_of pc r"
    using assms by (simp add: pc_inv_def)
  ultimately show ?thesis unfolding all [of k] by blast
qed

text \<open>
  C1. In every state the broker can reach, whatever the interleaving of polls, rebalances and processing, the
  records of one key that a partition consumer has processed are a prefix of the records of that key sent to it,
  so they are processed in order and none is skipped or repeated; when the consumer is done it has
  processed exactly the records it was sent; and every processed message carries its record's data.
\<close>

theorem records_processed_in_key_order:
  assumes "broker_step\<^sup>*\<^sup>* (start_consumers one counts) c" and "pc \<in> set (heap c)"
  shows "(\<exists>rest. with_key k (sent pc) = with_key k (map fst (processed pc)) @ rest) \<and>
    (pc_done pc \<longrightarrow> mset (map fst (processed pc)) = mset (sent pc)) \<and>
    (\<forall>(r, m) \<in> set (processed pc). m = message_of pc r)"
  using reachable_good [OF assms(1)] assms(2) pc_inv_order [of pc k] unfolding good_def cc_inv_def by blast


definition demo_record :: krecord where
  "demo_record = \<lparr>rec_key = ''k'', rec_value = ''v'', rec_time = 0, rec_headers = []\<rparr>"

definition demo_fetch :: fetch_topic where
  "demo_fetch = \<lparr>ft_topic = ''t'', ft_partitions = [\<lparr>fp_partition = 0, fp_err = None, fp_records = [demo_record]\<rparr>]\<rparr>"

text \<open>One partition is assigned and one record is polled.\<close>

definition demo_assigned :: concurrentConsumer where
  "demo_assigned = OnPartitionsAssigned id False [(''t'', [0])] (start_consumers (\<lambda>_. True) (\<lambda>_. None))"

definition demo_polled :: concurrentConsumer where
  "demo_polled = (case poll_fetches id id False [demo_fetch] demo_assigned of Ret (_, c) \<Rightarrow> c | Panic \<Rightarrow> demo_assigned)"

lemmas broker_defs = demo_record_def demo_fetch_def demo_assigned_def demo_polled_def OnPartitionsAssigned_def
  assignPartitions_def start_consumers_def load_or_store_def assign_partition_def lookup_consumer_def replaceConsumer_def
  new_consumer_def poll_fetches_def poll_topic_def find_consumers_def find_consumer_def poll_partition_def
  send_records_def wg_add_def upd_def Let_def

lemma id_ok: "settle_ok id" "resync_ok id"
  by (simp_all add: settle_ok_def resync_ok_def)

lemma demo_reachable: "broker_step\<^sup>*\<^sup>* (start_consumers (\<lambda>_. True) (\<lambda>_. None)) demo_assigned"
    "broker_step\<^sup>*\<^sup>* (start_consumers (\<lambda>_. True) (\<lambda>_. None)) demo_polled"
proof -
  have "mutex_step (start_consumers (\<lambda>_. True) (\<lambda>_. None)) demo_assigned"
    unfolding demo_assigned_def by (rule mutex_assign [OF id_ok(1)])
  then show a: "broker_step\<^sup>*\<^sup>* (start_consumers (\<lambda>_. True) (\<lambda>_. None)) demo_assigned"
    using broker_mutex by blast
  have "poll_fetches id id False [demo_fetch] demo_assigned = Ret (False, demo_polled)"
    by (simp add: broker_defs)
  then have "broker_step demo_assigned demo_polled" by (rule broker_poll [OF id_ok])
  with a show "broker_step\<^sup>*\<^sup>* (start_consumers (\<lambda>_. True) (\<lambda>_. None)) demo_polled" by simp
qed

theorem records_processed_in_key_order_witness:
  "\<exists>pc::partitionConsumer. sent pc = [demo_record] \<and> (\<exists>rest. with_key ''k'' (sent pc) = with_key ''k'' (map fst (processed pc)) @ rest)"
proof -
  have h: "heap demo_polled = [heap demo_polled ! 0]" "sent (heap demo_polled ! 0) = [demo_record]" by (simp_all add: broker_defs)
  then have "heap demo_polled ! 0 \<in> set (heap demo_polled)" by (metis list.set_intros(1))
  note r = records_processed_in_key_order [OF demo_reachable(2) this, of "''k''"]
  show ?thesis by (intro exI [of _ "heap demo_polled ! 0"] conjI h(2) conjunct1 [OF r])
qed

lemma pending_nonneg: "0 \<le> sum_list (map pending pcs)"
  by (intro sum_list_nonneg) (auto simp: pending_def)

lemma wg_bound:
  assumes "consume_steps c d" and "int n \<le> leak c"
  shows "int n \<le> consumingWg d"
proof -
  have "leak d = leak c" using consume_steps_sane [OF assms(1)] by (simp add: sane_def)
  then show ?thesis using assms(2) pending_nonneg [of "heap d"] by (simp add: leak_def)
qed

text \<open>
  C21. When records are fetched for a partition without a consumer, \<open>processNotFoundPartitions\<close> counts each of them twice
  in the wait group (once in \<open>records\<close>, once before the send) although each is processed once. So however far the
  goroutines get afterwards, the counter never returns to 0, and \<open>consumingWg.Wait()\<close> in \<open>pollRecords\<close> does
  not return.
\<close>

theorem not_found_partitions_block_polling:
  assumes "broker_step\<^sup>*\<^sup>* (start_consumers one counts) c" and "settle_ok settle"
    and "processNotFoundPartitions settle ft fps c = Ret c'"
    and "0 < ok_records (if fps \<noteq> [] then fps else ft_partitions ft)"
    and "consume_steps c' d"
  shows "0 < consumingWg d"
proof -
  let ?n = "ok_records (if fps \<noteq> [] then fps else ft_partitions ft)"
  have "int ?n \<le> leak c'"
    using processNotFound_facts [OF assms(2) _ assms(3)] reachable_good [OF assms(1)] by (simp add: good_def)
  then have "int ?n \<le> consumingWg d" by (rule wg_bound [OF assms(5)])
  with assms(4) show ?thesis by linarith
qed


definition demo_start :: concurrentConsumer where
  "demo_start = start_consumers (\<lambda>_. True) (\<lambda>_. None)"

definition demo_stuck :: concurrentConsumer where
  "demo_stuck = (case processNotFoundPartitions id demo_fetch [] demo_start of Ret c \<Rightarrow> c | Panic \<Rightarrow> demo_start)"

lemmas not_found_defs = demo_start_def demo_stuck_def processNotFoundPartitions_def mb_records_def revokePartitions_def
  revoke_partition_def stop_def waitForClosingConsumerToFinish_def

theorem not_found_partitions_block_polling_witness: "0 < consumingWg demo_stuck"
proof (rule not_found_partitions_block_polling)
  show "broker_step\<^sup>*\<^sup>* (start_consumers (\<lambda>_. True) (\<lambda>_. None)) demo_start" by (simp add: demo_start_def)
  show "settle_ok id" by (rule id_ok)
  show "processNotFoundPartitions id demo_fetch [] demo_start = Ret demo_stuck"
    by (simp add: broker_defs not_found_defs)
  show "0 < ok_records (if [] \<noteq> [] then [] else ft_partitions demo_fetch)"
    by (simp add: ok_records_def demo_fetch_def)
  show "consume_steps demo_stuck demo_stuck" by simp
qed

section \<open>Polling partitions that have a consumer\<close>

definition all_live :: "fetch_topic list \<Rightarrow> concurrentConsumer \<Rightarrow> bool" where
  "all_live fetches c \<longleftrightarrow> (\<forall>ft \<in> set fetches. consumers c (ft_topic ft) \<noteq> None \<and>
     (\<forall>fp \<in> set (ft_partitions ft). fp_err fp = None \<longrightarrow> live c (ft_topic ft) (fp_partition fp)))"

text \<open>What a poll that finds all consumers keeps.\<close>

definition polled_from :: "concurrentConsumer \<Rightarrow> concurrentConsumer \<Rightarrow> bool" where
  "polled_from c c' \<longleftrightarrow> cc_inv c' \<and> leak c' = leak c \<and> frame c c'"

lemma frame_live:
  assumes "frame c c'" and "cc_inv c"
  shows "live c' t p = live c t p"
proof -
  have "i < length (heap c)" if "lookup_consumer c t p = Some i" for i using assms(2) that unfolding cc_inv_def by blast
  then show ?thesis using assms(1) frame_lookup [OF assms(1)] by (auto simp: live_def frame_def)
qed

lemma poll_partition_live:
  assumes "cc_inv c" and "fp_err fp = None \<longrightarrow> live c (ft_topic ft) (fp_partition fp)"
  shows "\<exists>c'. poll_partition settle resync ft c fp = Ret c' \<and> polled_from c c'"
proof (cases "fp_err fp = None")
  case False
  then show ?thesis using assms(1) by (simp add: poll_partition_def polled_from_def)
next
  case True
  then obtain i where i: "lookup_consumer c (ft_topic ft) (fp_partition fp) = Some i" "\<not> closing (heap c ! i)"
    using assms(2) by (auto simp: live_def)
  have len: "i < length (heap c)" using i(1) assms(1) unfolding cc_inv_def by blast
  have fc: "find_consumer settle resync fp ft c = Ret (Some i, c)" using i True by (simp add: find_consumer_def)
  let ?w = "wg_add (length (fp_records fp)) c"
  obtain c' where c': "send_records i (fp_records fp) ?w = Ret c'" using i(2) by (simp add: send_records_def)
  have "cc_inv c'" "leak c' = leak c" "frame c c'"
    using send_records_facts [OF c'] len assms(1) by simp_all
  then show ?thesis using fc c' True by (simp add: poll_partition_def polled_from_def)
qed

lemma polled_from_refl: "cc_inv c \<Longrightarrow> polled_from c c"
  by (simp add: polled_from_def)

lemma polled_from_trans: "polled_from a b \<Longrightarrow> polled_from b c \<Longrightarrow> polled_from a c"
  using frame_trans by (auto simp: polled_from_def)

text \<open>A run of calls of which each succeeds as long as the state is framed by the first.\<close>

lemma foldl_polled:
  assumes step: "\<And>d x. polled_from c d \<Longrightarrow> x \<in> set xs \<Longrightarrow> \<exists>e. f d x = Ret e \<and> polled_from d e"
  shows "polled_from c d \<Longrightarrow> \<exists>e. foldl (\<lambda>o1 x. obind o1 (\<lambda>c. f c x)) (Ret d) xs = Ret e \<and> polled_from c e"
  using step
proof (induction xs arbitrary: d)
  case Nil
  then show ?case by simp
next
  case (Cons x xs)
  obtain e where e: "f d x = Ret e" "polled_from d e" using Cons.prems(2) [OF Cons.prems(1), of x] by auto
  have "polled_from c e" by (rule polled_from_trans [OF Cons.prems(1) e(2)])
  then have "\<exists>e'. foldl (\<lambda>o1 x. obind o1 (\<lambda>c. f c x)) (Ret e) xs = Ret e' \<and> polled_from c e'"
    by (rule Cons.IH) (rule Cons.prems(2), simp_all)
  then show ?case by (simp add: e(1))
qed

lemma all_live_framed:
  assumes "all_live fetches c" and "cc_inv c" and "polled_from c d"
  shows "all_live fetches d"
proof -
  have f: "frame c d" using assms(3) by (simp add: polled_from_def)
  then have "consumers d = consumers c" by (simp add: frame_def)
  then show ?thesis using assms(1) frame_live [OF f assms(2)] by (simp add: all_live_def)
qed

lemma poll_topic_live:
  assumes "cc_inv c" and "all_live [ft] c"
  shows "\<exists>c'. poll_topic settle resync c ft = Ret c' \<and> polled_from c c'"
proof -
  have fc: "find_consumers settle resync ft c = Ret (True, c)"
    using assms(2) by (simp add: find_consumers_def all_live_def)
  have "\<exists>e. foldl (\<lambda>o1 fp. obind o1 (\<lambda>c. poll_partition settle resync ft c fp)) (Ret c) (ft_partitions ft) = Ret e \<and> polled_from c e"
  proof (rule foldl_polled)
    fix d fp assume d: "polled_from c d" "fp \<in> set (ft_partitions ft)"
    have "all_live [ft] d" by (rule all_live_framed [OF assms(2,1) d(1)])
    then show "\<exists>e. poll_partition settle resync ft d fp = Ret e \<and> polled_from d e"
      using d by (intro poll_partition_live) (simp_all add: polled_from_def all_live_def)
  next
    show "polled_from c c" by (rule polled_from_refl [OF assms(1)])
  qed
  then show ?thesis using fc by (simp add: poll_topic_def)
qed

lemma poll_fetches_live:
  assumes "cc_inv c" and "all_live fetches c"
  shows "\<exists>c'. poll_fetches settle resync False fetches c = Ret (False, c') \<and> polled_from c c'"
proof -
  have "\<exists>e. foldl (\<lambda>o1 ft. obind o1 (\<lambda>c. poll_topic settle resync c ft)) (Ret c) fetches = Ret e \<and> polled_from c e"
  proof (rule foldl_polled)
    fix d ft assume d: "polled_from c d" "ft \<in> set fetches"
    have "all_live fetches d" by (rule all_live_framed [OF assms(2,1) d(1)])
    then have "all_live [ft] d" using d(2) by (simp add: all_live_def)
    then show "\<exists>e. poll_topic settle resync d ft = Ret e \<and> polled_from d e"
      using d(1) by (intro poll_topic_live) (simp_all add: polled_from_def)
  next
    show "polled_from c c" by (rule polled_from_refl [OF assms(1)])
  qed
  then show ?thesis by (auto simp: poll_fetches_def)
qed

text \<open>
  C33. When every fetched partition without an error has a consumer that is not closing, a poll never panics, and it keeps the
  wait group exact: if it counted the unprocessed records before, it does after every further step of the goroutines, so
  \<open>consumingWg.Wait()\<close> returns exactly when all records handed out have been processed.
\<close>

theorem poll_keeps_wait_group_exact:
  assumes "broker_step\<^sup>*\<^sup>* (start_consumers one counts) c" and "all_live fetches c"
    and "consumingWg c = sum_list (map pending (heap c))"
  shows "\<exists>c'. poll_fetches settle resync False fetches c = Ret (False, c') \<and>
    (\<forall>d. consume_steps c' d \<longrightarrow> consumingWg d = sum_list (map pending (heap d)))"
proof -
  have c: "cc_inv c" using reachable_good [OF assms(1)] by (simp add: good_def)
  obtain c' where c': "poll_fetches settle resync False fetches c = Ret (False, c')" "polled_from c c'"
    using poll_fetches_live [OF c assms(2)] by blast
  have "leak c' = 0" using c'(2) assms(3) by (simp add: polled_from_def leak_def)
  then have "consumingWg d = sum_list (map pending (heap d))" if "consume_steps c' d" for d
    using consume_steps_sane [OF that] by (simp add: sane_def leak_def)
  with c'(1) show ?thesis by blast
qed

theorem poll_keeps_wait_group_exact_witness:
  "\<exists>c'. poll_fetches id id False [demo_fetch] demo_assigned = Ret (False, c') \<and> consumingWg c' = sum_list (map pending (heap c'))"
proof -
  have "all_live [demo_fetch] demo_assigned" "consumingWg demo_assigned = sum_list (map pending (heap demo_assigned))"
    by (simp_all add: broker_defs all_live_def live_def pending_def)
  from poll_keeps_wait_group_exact [OF demo_reachable(1) this, of id id] show ?thesis by blast
qed

text \<open>
  C34. After \<open>OnPartitionsAssigned\<close> the partitions with a consumer that accepts records are those that had one and those
  assigned, and no two partitions share a consumer.
\<close>

theorem assigned_partitions_have_consumers:
  assumes "broker_step\<^sup>*\<^sup>* (start_consumers one counts) c" and "settle_ok settle"
  shows "(live (OnPartitionsAssigned settle False assigned c) t p \<longleftrightarrow>
      live c t p \<or> (\<exists>ps. (t, ps) \<in> set assigned \<and> p \<in> set ps)) \<and>
    (lookup_consumer (OnPartitionsAssigned settle False assigned c) t p = Some i \<and>
     lookup_consumer (OnPartitionsAssigned settle False assigned c) t' p' = Some i \<longrightarrow> t' = t \<and> p' = p)"
proof -
  let ?c = "OnPartitionsAssigned settle False assigned c"
  have c: "cc_inv c" using reachable_good [OF assms(1)] by (simp add: good_def)
  note f = assignPartitions_facts [OF assms(2) c, of False assigned]
  have "cc_inv ?c" using f c by (simp add: OnPartitionsAssigned_def sane_def)
  then have "t' = t \<and> p' = p" if "lookup_consumer ?c t p = Some i" "lookup_consumer ?c t' p' = Some i"
    using that unfolding cc_inv_def by metis
  then show ?thesis using f by (simp add: OnPartitionsAssigned_def)
qed

theorem assigned_partitions_have_consumers_witness:
  "live (OnPartitionsAssigned id False [(''t'', [1, 2])] demo_assigned) ''t'' 2"
  using assigned_partitions_have_consumers [OF demo_reachable(1) id_ok(1), of "[(''t'', [1, 2])]" "''t''" 2] by simp

section \<open>Shutting down\<close>

lemma shutdown_wait_False: "shutdown_wait ord False observed = False"
  by (induction observed) auto

text \<open>
  \<open>shutdownConsumerGracefully\<close> waits for the consumers only in name: the flag \<open>done\<close> is set before the loop and never
  reset, so the loop ends before its deadline exactly when all consumers are done at the first look, right after they were told
  to stop, whatever they do later.
\<close>

theorem shutdown_looks_once:
  "fst (shutdownConsumerGracefully settle ord observed c) \<longleftrightarrow>
     cc_done c \<or> all_done ord (fold (stop settle False) ord c)"
  by (simp add: shutdownConsumerGracefully_def Let_def shutdown_wait_False)

end
