(* ===== verification/Broker.thy ===== *)
theory Broker
  imports Consumers Decimal "HOL-Library.Word"
begin

text \<open>
  Connecting to the message broker and producing (\<open>connectors/message_broker/message_broker.go\<close>, \<open>producer.go\<close>): the options of the
  client, creating and validating the topics, which gives the consumers of \<open>Consumers\<close> their partition counts, sending
  messages, and closing. The Kafka client, its administration client and reading certificates are the parameter \<open>kafka\<close>.
\<close>

section \<open>Configuration\<close>

record topic_config =
  tc_Name :: string
  tc_CleanupPolicy :: string
  tc_Partitions :: "64 word"
  tc_ReplicationFactor :: "64 word"
  tc_Retention :: int

record consumer_topic =
  ct_Name :: string
  ct_OneGoroutinePerPartition :: bool

record broker_config =
  mb_ConsumerGroup :: string
  mb_CertPath :: string
  mb_AccessKeyPath :: string
  mb_AccessCertPath :: string
  mb_URLs :: "string list"
  mb_ConsumingTopics :: "consumer_topic list"
  mb_ProducingTopics :: "string list"
  mb_Topics :: "topic_config list"
  mb_CreateTopics :: bool
  mb_DisableIdempotence :: bool
  mb_MaxMessageBytes :: int

record tls_config =
  tls_accessCerts :: "(string \<times> string) list"
  tls_ca :: string

datatype kgo_opt =
    SeedBrokers "string list"
  | WithLogger
  | ProducerBatchCompression
  | ProducerOnDataLossDetected
  | ConsumeTopics "string list"
  | FetchReadUncommitted
  | ConsumerGroup string
  | CallOnPartitionsRevoked
  | CallOnPartitionsLost
  | CallOnPartitionsAssigned
  | BlockRebalanceOnPoll
  | DisableIdempotentWrite
  | DialTLSConfig tls_config
  | ProducerBatchMaxBytes "32 word"

record topic_detail =
  td_Topic :: string
  td_Partitions :: nat
  td_Err :: err

record produced =
  pr_Key :: string
  pr_Value :: string
  pr_Headers :: "(string \<times> string) list"
  pr_Topic :: string

text \<open>\<open>ka_ListTopics\<close> gives the details sorted by topic, \<open>ka_CreateTopics\<close> the error in the response for the one topic, or that of
  the request.\<close>

record 'w kafka =
  ka_NewClient :: "kgo_opt list \<Rightarrow> 'w \<Rightarrow> err \<times> 'w"
  ka_CloseClient :: "'w \<Rightarrow> 'w"
  ka_Flush :: "'w \<Rightarrow> err \<times> 'w"
  ka_CreateTopics :: "32 word \<Rightarrow> 16 word \<Rightarrow> (string \<times> string) list \<Rightarrow> string \<Rightarrow> 'w \<Rightarrow> (goerr + err) \<times> 'w"
  ka_ListTopics :: "string list \<Rightarrow> 'w \<Rightarrow> (goerr + topic_detail list) \<times> 'w"
  ka_DescribeTopicConfigs :: "string list \<Rightarrow> 'w \<Rightarrow> (goerr + err list) \<times> 'w"
  ka_Produce :: "produced \<Rightarrow> 'w \<Rightarrow> err \<times> 'w"
  ka_ReadFile :: "string \<Rightarrow> goerr + string"
  ka_AppendCertsFromPEM :: "string \<Rightarrow> bool"
  ka_LoadX509KeyPair :: "string \<Rightarrow> string \<Rightarrow> err"

text \<open>\<open>mb_cc\<close> is the embedded pointer to the consumers, nil in a client that only produces; the order of a map's keys is not
  defined, \<open>order\<close> is the one the runtime picks.\<close>

record broker =
  mb_cfg :: broker_config
  mb_cc :: "concurrentConsumer option"

section \<open>Connecting\<close>

definition buildMessageBrokerTLS :: "'w kafka \<Rightarrow> broker_config \<Rightarrow> (goerr + tls_config) outcome" where
  "buildMessageBrokerTLS K cfg = (case ka_ReadFile K (mb_CertPath cfg) of
     Inl e \<Rightarrow> Ret (Inl (Wrapped (''reading message broker TLS certificate '' @ mb_CertPath cfg) e))
   | Inr caCert \<Rightarrow>
       (if \<not> ka_AppendCertsFromPEM K caCert then Panic
        else if mb_AccessKeyPath cfg \<noteq> '''' \<and> mb_AccessCertPath cfg \<noteq> '''' then
          (case ka_LoadX509KeyPair K (mb_AccessCertPath cfg) (mb_AccessKeyPath cfg) of
             Some e \<Rightarrow> Panic
           | None \<Rightarrow> Ret (Inr \<lparr>tls_accessCerts = [(mb_AccessCertPath cfg, mb_AccessKeyPath cfg)], tls_ca = caCert\<rparr>))
        else Ret (Inr \<lparr>tls_accessCerts = [], tls_ca = caCert\<rparr>)))"

definition max_message_bytes :: "broker_config \<Rightarrow> broker_config" where
  "max_message_bytes cfg = (if mb_MaxMessageBytes cfg = 0 then cfg\<lparr>mb_MaxMessageBytes := 10485760\<rparr> else cfg)"

definition base_opts :: "broker_config \<Rightarrow> kgo_opt list" where
  "base_opts cfg = [SeedBrokers (mb_URLs cfg), WithLogger, ProducerBatchCompression, ProducerOnDataLossDetected]"

text \<open>The limit of a batch is converted to 32 bits.\<close>

definition connect_broker :: "'w kafka \<Rightarrow> kgo_opt list \<Rightarrow> broker \<Rightarrow> 'w \<Rightarrow> (err \<times> broker \<times> 'w) outcome" where
  "connect_broker K additional b w =
     (let cfg = mb_cfg b;
          opts = base_opts cfg @ additional @ (if mb_DisableIdempotence cfg then [DisableIdempotentWrite] else [])
      in obind (if mb_CertPath cfg = '''' then Ret (Inr [])
                else omap (\<lambda>r. case r of Inl e \<Rightarrow> Inl e | Inr t \<Rightarrow> Inr [DialTLSConfig t]) (buildMessageBrokerTLS K cfg)) (\<lambda>r. case r of
          Inl e \<Rightarrow> Ret (wrap_err ''could not build TLS for the message broker'' (Some e), b, w)
        | Inr tls \<Rightarrow>
            (let cfg' = max_message_bytes cfg;
                 (e, w1) = ka_NewClient K (opts @ tls @ [ProducerBatchMaxBytes (word_of_int (mb_MaxMessageBytes cfg'))]) w
             in Ret (wrap_err ''failed to connect to MessageBroker'' e, b\<lparr>mb_cfg := cfg'\<rparr>, w1))))"

definition consumerOpts :: "(string set \<Rightarrow> string list) \<Rightarrow> broker_config \<Rightarrow> string set \<Rightarrow> kgo_opt list" where
  "consumerOpts order cfg processors =
     [ConsumeTopics (order processors), FetchReadUncommitted, ConsumerGroup (mb_ConsumerGroup cfg),
      CallOnPartitionsRevoked, CallOnPartitionsLost, CallOnPartitionsAssigned, BlockRebalanceOnPoll]"

section \<open>Topics\<close>

definition TopicAlreadyExists :: goerr where
  "TopicAlreadyExists = Sentinel ''TOPIC_ALREADY_EXISTS''"

definition dec_of :: "int \<Rightarrow> string" where
  "dec_of i = (if i < 0 then ''-'' @ dec_string (nat (- i)) else dec_string (nat i))"

definition go_div :: "int \<Rightarrow> int \<Rightarrow> int" where
  "go_div a b = (if a < 0 then - ((- a) div b) else a div b)"

text \<open>The four settings; a retention is given in whole milliseconds.\<close>

definition topic_settings :: "topic_config \<Rightarrow> (string \<times> string) list" where
  "topic_settings t =
     (let ms = dec_of (go_div (tc_Retention t) 1000000) in
      [(''cleanup.policy'', if tc_CleanupPolicy t = '''' then ''compact'' else tc_CleanupPolicy t),
       (''retention.ms'', ms), (''delete.retention.ms'', ms), (''segment.ms'', ms)])"

text \<open>The number of partitions is cut to 32 bits, the replication factor to 16.\<close>

definition createTopic :: "'w kafka \<Rightarrow> topic_config \<Rightarrow> 'w \<Rightarrow> (unit \<times> 'w) outcome" where
  "createTopic K t w =
     (case ka_CreateTopics K (ucast (tc_Partitions t)) (ucast (tc_ReplicationFactor t)) (topic_settings t) (tc_Name t) w of
        (Inl e, w1) \<Rightarrow> Panic
      | (Inr None, w1) \<Rightarrow> Ret ((), w1)
      | (Inr (Some e), w1) \<Rightarrow> if errors_is e TopicAlreadyExists then Ret ((), w1) else Panic)"

fun create_topics :: "'w kafka \<Rightarrow> bool \<Rightarrow> topic_config list \<Rightarrow> 'w \<Rightarrow> (unit \<times> 'w) outcome" where
  "create_topics K create [] w = Ret ((), w)"
| "create_topics K create (t # ts) w =
     obind (if create then createTopic K t w else Ret ((), w)) (\<lambda>(u, w1). create_topics K create ts w1)"

definition all_topics :: "broker \<Rightarrow> string set" where
  "all_topics b = tc_Name ` set (mb_Topics (mb_cfg b)) \<union>
     (if mb_cc b \<noteq> None then ct_Name ` set (mb_ConsumingTopics (mb_cfg b)) else {}) \<union> set (mb_ProducingTopics (mb_cfg b))"

text \<open>\<open>consumerTopicConfigs\<close>, of which the consumers read one setting; a later topic of the same name replaces an earlier one.\<close>

definition consumer_topic_configs :: "broker \<Rightarrow> broker" where
  "consumer_topic_configs b = b\<lparr>mb_cc := map_option (\<lambda>c. c\<lparr>oneGoroutinePerPartition :=
     (\<lambda>topic. map_of (rev (map (\<lambda>t. (ct_Name t, ct_OneGoroutinePerPartition t)) (mb_ConsumingTopics (mb_cfg b)))) topic = Some True)\<rparr>) (mb_cc b)\<rparr>"

definition store_counts :: "topic_detail list \<Rightarrow> concurrentConsumer \<Rightarrow> concurrentConsumer" where
  "store_counts ds c =
     fold (\<lambda>d c. c\<lparr>partitionCountPerTopic := (partitionCountPerTopic c)(td_Topic d \<mapsto> of_nat (td_Partitions d))\<rparr>) ds c"

text \<open>Only the error of the first topic of the list is looked at.\<close>

definition validateTopicListing :: "'w kafka \<Rightarrow> string list \<Rightarrow> broker \<Rightarrow> 'w \<Rightarrow> (broker \<times> 'w) outcome" where
  "validateTopicListing K topics b w = (case ka_ListTopics K topics w of
     (Inl e, w1) \<Rightarrow> Panic
   | (Inr [], w1) \<Rightarrow> Panic
   | (Inr (d # ds), w1) \<Rightarrow>
       (if td_Err d \<noteq> None then Panic else Ret (b\<lparr>mb_cc := map_option (store_counts (d # ds)) (mb_cc b)\<rparr>, w1)))"

definition validateTopicConfigDescribing :: "'w kafka \<Rightarrow> string list \<Rightarrow> 'w \<Rightarrow> (unit \<times> 'w) outcome" where
  "validateTopicConfigDescribing K topics w = (case ka_DescribeTopicConfigs K topics w of
     (Inl e, w1) \<Rightarrow> Panic
   | (Inr [], w1) \<Rightarrow> Panic
   | (Inr (e # es), w1) \<Rightarrow> if e \<noteq> None then Panic else Ret ((), w1))"

definition createAndValidateTopics :: "'w kafka \<Rightarrow> (string set \<Rightarrow> string list) \<Rightarrow> broker \<Rightarrow> 'w \<Rightarrow> (broker \<times> 'w) outcome" where
  "createAndValidateTopics K order b w =
     obind (create_topics K (mb_CreateTopics (mb_cfg b)) (mb_Topics (mb_cfg b)) w) (\<lambda>(u, w1).
     let topics = order (all_topics b) in
     obind (validateTopicListing K topics (consumer_topic_configs b) w1) (\<lambda>(b1, w2).
     omap (\<lambda>(u, w3). (b1, w3)) (validateTopicConfigDescribing K topics w2)))"

definition connect_or_panic :: "'w kafka \<Rightarrow> kgo_opt list \<Rightarrow> broker \<Rightarrow> 'w \<Rightarrow> (broker \<times> 'w) outcome" where
  "connect_or_panic K opts b w = obind (connect_broker K opts b w) (\<lambda>(e, b1, w1). if e \<noteq> None then Panic else Ret (b1, w1))"

text \<open>Consuming begins with a second client: the first only creates and validates the topics.\<close>

definition connectCreateAndValidateTopics ::
    "'w kafka \<Rightarrow> (string set \<Rightarrow> string list) \<Rightarrow> kgo_opt list \<Rightarrow> broker \<Rightarrow> 'w \<Rightarrow> (broker \<times> 'w) outcome" where
  "connectCreateAndValidateTopics K order additional b w =
     obind (connect_or_panic K [] b w) (\<lambda>(b1, w1).
     obind (createAndValidateTopics K order b1 w1) (\<lambda>(b2, w2).
       if additional \<noteq> [] then connect_or_panic K additional b2 (ka_CloseClient K w2) else Ret (b2, w2)))"

definition MustConnect_broker :: "'w kafka \<Rightarrow> (string set \<Rightarrow> string list) \<Rightarrow> broker_config \<Rightarrow> 'w \<Rightarrow> (broker \<times> 'w) outcome" where
  "MustConnect_broker K order cfg w = connectCreateAndValidateTopics K order [] \<lparr>mb_cfg = cfg, mb_cc = None\<rparr> w"

definition no_consumers :: concurrentConsumer where
  "no_consumers = \<lparr>heap = [], consumers = Map.empty, consumingWg = 0, oneGoroutinePerPartition = (\<lambda>t. False),
     partitionCountPerTopic = Map.empty, cc_done = False\<rparr>"

text \<open>The processors are given to the first consuming topics; there must be one, and no more than there are topics. The result has the
  topic of each processor, by its index; polling starts with the given consumers.\<close>

definition processor_topics :: "broker_config \<Rightarrow> nat \<Rightarrow> (string \<Rightarrow> nat option) outcome" where
  "processor_topics cfg n = (if n > length (mb_ConsumingTopics cfg) then Panic
     else Ret (map_of (rev (zip (map ct_Name (take n (mb_ConsumingTopics cfg))) [0..<n]))))"

definition MustConnectAndStartConsuming ::
    "'w kafka \<Rightarrow> (string set \<Rightarrow> string list) \<Rightarrow> broker_config \<Rightarrow> nat \<Rightarrow> 'w \<Rightarrow> ((string \<Rightarrow> nat option) \<times> broker \<times> 'w) outcome" where
  "MustConnectAndStartConsuming K order cfg processors w =
     (if processors = 0 then Panic
      else obind (processor_topics cfg processors) (\<lambda>m.
        omap (\<lambda>r. (m, r)) (connectCreateAndValidateTopics K order (consumerOpts order cfg (dom m))
                              \<lparr>mb_cfg = cfg, mb_cc = Some no_consumers\<rparr> w)))"

section \<open>Consuming\<close>

text \<open>One iteration of the polling loop: what the other goroutines do while a callback or the mutex is waited for, what the client
  returned, and what happens until the wait group is at zero.\<close>

record poll_round =
  po_settle :: "concurrentConsumer \<Rightarrow> concurrentConsumer"
  po_resync :: "concurrentConsumer \<Rightarrow> concurrentConsumer"
  po_stopping :: bool
  po_fetches :: "fetch_topic list"
  po_drain :: "concurrentConsumer \<Rightarrow> concurrentConsumer"

text \<open>The loop ends with a poll that says so, or when the context is found ended after the given rounds.\<close>

fun poll_loop :: "poll_round list \<Rightarrow> concurrentConsumer \<Rightarrow> concurrentConsumer outcome" where
  "poll_loop [] c = Ret c"
| "poll_loop (r # rs) c = obind (poll_fetches (po_settle r) (po_resync r) (po_stopping r) (po_fetches r) c)
     (\<lambda>(stop, c1). if stop then Ret c1 else poll_loop rs (po_drain r c1))"

definition startConsuming ::
    "poll_round list \<Rightarrow> (concurrentConsumer \<Rightarrow> concurrentConsumer) \<Rightarrow> nat list \<Rightarrow> concurrentConsumer list \<Rightarrow>
     concurrentConsumer \<Rightarrow> concurrentConsumer outcome" where
  "startConsuming rounds settle ord observed c = omap (\<lambda>c1. snd (shutdownConsumerGracefully settle ord observed c1)) (poll_loop rounds c)"

text \<open>The states the loop goes through are states of the broker, so all that holds of those holds of it.\<close>

lemma poll_loop_reaches:
  assumes "\<forall>r \<in> set rounds. settle_ok (po_settle r) \<and> resync_ok (po_resync r) \<and> (\<forall>c. broker_step\<^sup>*\<^sup>* c (po_drain r c))"
    and "poll_loop rounds c = Ret c'"
  shows "broker_step\<^sup>*\<^sup>* c c'"
  using assms
proof (induction rounds arbitrary: c)
  case (Cons r rs)
  obtain stop c1 where p: "poll_fetches (po_settle r) (po_resync r) (po_stopping r) (po_fetches r) c = Ret (stop, c1)"
    using Cons.prems(2) by (auto simp: obind_Ret_iff)
  have one: "broker_step\<^sup>*\<^sup>* c c1"
    using broker_poll [OF _ _ p] Cons.prems(1) by simp
  show ?case
  proof (cases stop)
    case True
    then show ?thesis using one p Cons.prems(2) by simp
  next
    case False
    then have "broker_step\<^sup>*\<^sup>* (po_drain r c1) c'" using Cons p by simp
    moreover have "broker_step\<^sup>*\<^sup>* c1 (po_drain r c1)" using Cons.prems(1) by simp
    ultimately show ?thesis using one by (meson rtranclp_trans)
  qed
qed simp

section \<open>Producing and closing\<close>

definition produced_of :: "(string set \<Rightarrow> string list) \<Rightarrow> message \<Rightarrow> produced" where
  "produced_of order m = \<lparr>pr_Key = m_key m, pr_Value = m_value m,
     pr_Headers = map (\<lambda>k. (k, the (m_headers m k))) (order (dom (m_headers m))), pr_Topic = m_topic m\<rparr>"

text \<open>\<open>responder\<close>: what the caller's channel has received, if there is one. \<open>Produce\<close> calls back once, with its error.\<close>

definition SendMessage :: "'w kafka \<Rightarrow> (string set \<Rightarrow> string list) \<Rightarrow> message \<Rightarrow> err list option \<Rightarrow> 'w \<Rightarrow> err list option \<times> 'w" where
  "SendMessage K order m responder w = (case ka_Produce K (produced_of order m) w of
     (e, w1) \<Rightarrow> (map_option (\<lambda>es. es @ [e]) responder, w1))"

text \<open>\<open>Close\<close>. A consumer is told to stop by its context and waited for, \<open>settle\<close> being what its goroutines do meanwhile; the
  function \<open>cancel\<close> is nil until polling has begun.\<close>

definition Close_broker ::
    "'w kafka \<Rightarrow> (concurrentConsumer \<Rightarrow> concurrentConsumer) \<Rightarrow> bool \<Rightarrow> broker option \<Rightarrow> 'w \<Rightarrow> (err \<times> broker option \<times> 'w) outcome" where
  "Close_broker K settle started mb w = (case mb of
     None \<Rightarrow> Ret (None, None, w)
   | Some b \<Rightarrow> (case mb_cc b of
       Some c \<Rightarrow> if cc_done c then Ret (None, Some b, w)
                 else if \<not> started then Panic
                 else Ret (None, Some (b\<lparr>mb_cc := Some (settle c)\<rparr>), w)
     | None \<Rightarrow> (case ka_Flush K w of (e, w1) \<Rightarrow> Ret (None, Some b, ka_CloseClient K w1))))"

text \<open>The levels of the log, as the Kafka client names them.\<close>

datatype kgo_level = LogLevelNone | LogLevelError | LogLevelWarn | LogLevelInfo | LogLevelDebug

definition broker_Level :: "string \<Rightarrow> kgo_level" where
  "broker_Level l = (if l \<in> {''trace'', ''debug''} then LogLevelDebug else if l = ''info'' then LogLevelInfo
     else if l = ''warn'' then LogLevelWarn else if l \<in> {''error'', ''fatal'', ''panic''} then LogLevelError else LogLevelNone)"

text \<open>The function of the logger that is called, if any.\<close>

definition broker_Log :: "kgo_level \<Rightarrow> string option" where
  "broker_Log l = (case l of LogLevelError \<Rightarrow> Some ''Error'' | LogLevelWarn \<Rightarrow> Some ''Warn'' | LogLevelInfo \<Rightarrow> Some ''Info''
     | LogLevelDebug \<Rightarrow> Some ''Debug'' | LogLevelNone \<Rightarrow> None)"

section \<open>Properties\<close>

lemma create_topics_made:
  assumes "create_topics K True ts w = Ret (u, w')" and "t \<in> set ts"
  shows "\<exists>w1 r w2. ka_CreateTopics K (ucast (tc_Partitions t)) (ucast (tc_ReplicationFactor t)) (topic_settings t) (tc_Name t) w1 = (Inr r, w2) \<and>
    (r = None \<or> (\<exists>e. r = Some e \<and> errors_is e TopicAlreadyExists))"
  using assms
proof (induction ts arbitrary: w)
  case (Cons x ts)
  obtain r w1 where r: "ka_CreateTopics K (ucast (tc_Partitions x)) (ucast (tc_ReplicationFactor x)) (topic_settings x) (tc_Name x) w = (Inr r, w1)"
      "r = None \<or> (\<exists>e. r = Some e \<and> errors_is e TopicAlreadyExists)"
      "create_topics K True ts w1 = Ret (u, w')"
    using Cons.prems(1) by (auto simp: createTopic_def split: prod.splits sum.splits option.splits if_splits)
  then show ?case using Cons.IH [OF r(3)] Cons.prems(2) by (cases "t = x") auto
qed simp

definition counted :: "topic_detail list \<Rightarrow> string \<Rightarrow> 32 word option" where
  "counted ds = map_of (rev (map (\<lambda>d. (td_Topic d, of_nat (td_Partitions d))) ds))"

lemma store_counts_updates:
  "store_counts ds c = c\<lparr>partitionCountPerTopic := partitionCountPerTopic c ++ counted ds\<rparr>"
  unfolding store_counts_def
proof (induction ds arbitrary: c)
  case (Cons d ds)
  then show ?case
    by (simp add: counted_def map_add_def fun_eq_iff split: option.splits)
qed (simp add: counted_def)

lemma connected_keeps:
  assumes "connect_or_panic K opts b w = Ret (b', w')"
  shows "mb_cc b' = mb_cc b \<and> mb_cfg b' = max_message_bytes (mb_cfg b)"
proof -
  obtain e where "connect_broker K opts b w = Ret (e, b', w')" "e = None"
    using assms by (cases "connect_broker K opts b w") (auto simp: connect_or_panic_def split: if_splits)
  then have c: "connect_broker K opts b w = Ret (None, b', w')" by simp
  let ?t = "if mb_CertPath (mb_cfg b) = '''' then Ret (Inr [])
      else omap (\<lambda>r. case r of Inl e \<Rightarrow> Inl e | Inr t \<Rightarrow> Inr [DialTLSConfig t]) (buildMessageBrokerTLS K (mb_cfg b))"
  show ?thesis
  proof (cases ?t)
    case (Ret r)
    then show ?thesis
      using c unfolding connect_broker_def Let_def Ret by (cases r) (auto simp: wrap_err_def split: prod.splits)
  next
    case Panic
    then show ?thesis using c unfolding connect_broker_def Let_def Panic by simp
  qed
qed

lemma validated:
  assumes "createAndValidateTopics K order b w = Ret (b', w')"
  shows "\<exists>u w1 d ds w2. create_topics K (mb_CreateTopics (mb_cfg b)) (mb_Topics (mb_cfg b)) w = Ret (u, w1) \<and>
    ka_ListTopics K (order (all_topics b)) w1 = (Inr (d # ds), w2) \<and> td_Err d = None \<and>
    b' = consumer_topic_configs b\<lparr>mb_cc := map_option (store_counts (d # ds)) (mb_cc (consumer_topic_configs b))\<rparr>"
proof -
  obtain u w1 where c: "create_topics K (mb_CreateTopics (mb_cfg b)) (mb_Topics (mb_cfg b)) w = Ret (u, w1)"
    using assms by (auto simp: createAndValidateTopics_def obind_Ret_iff)
  obtain b1 w2 where v: "validateTopicListing K (order (all_topics b)) (consumer_topic_configs b) w1 = Ret (b1, w2)" "b' = b1"
    using assms c by (auto simp: createAndValidateTopics_def obind_Ret_iff omap_Ret_iff Let_def)
  then show ?thesis
    using c by (auto simp: validateTopicListing_def split: prod.splits sum.splits list.splits if_splits)
qed

text \<open>What has happened when starting succeeds.\<close>

lemma started:
  assumes "MustConnectAndStartConsuming K order cfg n w = Ret (ps, b, w')"
  shows "\<exists>u w0 w1 d ds w2 one. create_topics K (mb_CreateTopics cfg) (mb_Topics cfg) w0 = Ret (u, w1) \<and>
    ka_ListTopics K (order (all_topics \<lparr>mb_cfg = cfg, mb_cc = Some no_consumers\<rparr>)) w1 = (Inr (d # ds), w2) \<and>
    mb_cc b = Some (start_consumers one (counted (d # ds)))"
proof -
  let ?b0 = "\<lparr>mb_cfg = cfg, mb_cc = Some no_consumers\<rparr>"
  obtain b1 w1 b2 w2 w3 w4 where
      b1: "connect_or_panic K [] ?b0 w = Ret (b1, w1)" and b2: "createAndValidateTopics K order b1 w1 = Ret (b2, w2)" and
      b3: "connect_or_panic K (consumerOpts order cfg (dom ps)) b2 w3 = Ret (b, w4)"
    using assms
    by (auto simp: MustConnectAndStartConsuming_def connectCreateAndValidateTopics_def consumerOpts_def obind_Ret_iff omap_Ret_iff split: if_splits)
  note k1 = connected_keeps [OF b1] and k3 = connected_keeps [OF b3]
  have cfgs: "mb_CreateTopics (mb_cfg b1) = mb_CreateTopics cfg" "mb_Topics (mb_cfg b1) = mb_Topics cfg" "all_topics b1 = all_topics ?b0"
    using k1 by (simp_all add: max_message_bytes_def all_topics_def)
  obtain u wa d ds wb where v: "create_topics K (mb_CreateTopics cfg) (mb_Topics cfg) w1 = Ret (u, wa)"
      "ka_ListTopics K (order (all_topics ?b0)) wa = (Inr (d # ds), wb)"
      "b2 = consumer_topic_configs b1\<lparr>mb_cc := map_option (store_counts (d # ds)) (mb_cc (consumer_topic_configs b1))\<rparr>"
    using validated [OF b2] unfolding cfgs by blast
  have "\<exists>one. mb_cc b = Some (start_consumers one (counted (d # ds)))"
    using k1 k3 v(3) by (auto simp: consumer_topic_configs_def store_counts_updates no_consumers_def start_consumers_def)
  with v(1,2) show ?thesis by blast
qed


text \<open>A Kafka that lists two topics of which the second is missing, which is not noticed.\<close>

definition toy_kafka :: "unit kafka" where
  "toy_kafka = \<lparr>ka_NewClient = (\<lambda>opts w. (None, w)), ka_CloseClient = id, ka_Flush = (\<lambda>w. (None, w)),
     ka_CreateTopics = (\<lambda>n r s t w. (Inr (Some TopicAlreadyExists), w)),
     ka_ListTopics = (\<lambda>ts w. (Inr [\<lparr>td_Topic = ''a'', td_Partitions = 3, td_Err = None\<rparr>,
        \<lparr>td_Topic = ''b'', td_Partitions = 0, td_Err = Some (Sentinel ''UNKNOWN_TOPIC_OR_PARTITION'')\<rparr>], w)),
     ka_DescribeTopicConfigs = (\<lambda>ts w. (Inr [None], w)), ka_Produce = (\<lambda>r w. (None, w)),
     ka_ReadFile = (\<lambda>f. Inr ''''), ka_AppendCertsFromPEM = (\<lambda>c. True), ka_LoadX509KeyPair = (\<lambda>c k. None)\<rparr>"

definition toy_broker_config :: broker_config where
  "toy_broker_config = \<lparr>mb_ConsumerGroup = ''g'', mb_CertPath = '''', mb_AccessKeyPath = '''', mb_AccessCertPath = '''', mb_URLs = [''u''],
     mb_ConsumingTopics = [\<lparr>ct_Name = ''a'', ct_OneGoroutinePerPartition = False\<rparr>], mb_ProducingTopics = [''b''],
     mb_Topics = [\<lparr>tc_Name = ''a'', tc_CleanupPolicy = '''', tc_Partitions = 3, tc_ReplicationFactor = 1, tc_Retention = 0\<rparr>],
     mb_CreateTopics = True, mb_DisableIdempotence = False, mb_MaxMessageBytes = 0\<rparr>"

lemma toy_starts: "\<exists>ps b. MustConnectAndStartConsuming toy_kafka (\<lambda>s. [''a'', ''b'']) toy_broker_config 1 () = Ret (ps, b, ())"
  by (simp add: MustConnectAndStartConsuming_def processor_topics_def toy_broker_config_def connectCreateAndValidateTopics_def
      connect_or_panic_def connect_broker_def Let_def toy_kafka_def max_message_bytes_def createAndValidateTopics_def createTopic_def
      validateTopicListing_def consumer_topic_configs_def validateTopicConfigDescribing_def consumerOpts_def)


end
