(* ===== verification/Delivery.thy ===== *)
theory Delivery
  imports Broker
begin

text \<open>
  From the listing of the topics to the processor (\<open>connectors/message_broker\<close>): the partition counts that \<open>Broker\<close> reads when it connects are
  the ones that the consumers of \<open>Consumers\<close> hand over with every message, whatever happens in between.
\<close>

section \<open>Counts\<close>

definition count_of :: "(string \<Rightarrow> 32 word option) \<Rightarrow> string \<Rightarrow> 32 word" where
  "count_of counts topic = (case counts topic of Some n \<Rightarrow> n | None \<Rightarrow> 0)"

definition counts_right :: "concurrentConsumer \<Rightarrow> bool" where
  "counts_right c \<longleftrightarrow> (\<forall>pc \<in> set (heap c). partitionCount pc = count_of (partitionCountPerTopic c) (pc_topic pc))"

text \<open>What every operation does with them: the counts of the topics stay, and consumers that have theirs keep them.\<close>

definition keeps_counts :: "concurrentConsumer \<Rightarrow> concurrentConsumer \<Rightarrow> bool" where
  "keeps_counts c c' \<longleftrightarrow> partitionCountPerTopic c' = partitionCountPerTopic c \<and> (counts_right c \<longrightarrow> counts_right c')"

lemma keeps_refl [simp]: "keeps_counts c c"
  by (simp add: keeps_counts_def)

lemma keeps_trans [trans]: "keeps_counts a b \<Longrightarrow> keeps_counts b c \<Longrightarrow> keeps_counts a c"
  by (simp add: keeps_counts_def)

lemma keeps_fold: "(\<And>x c. keeps_counts c (f x c)) \<Longrightarrow> keeps_counts c (fold f xs c)"
proof (induction xs arbitrary: c)
  case (Cons x xs)
  have "keeps_counts c (f x c)" by (rule Cons.prems)
  also have "keeps_counts (f x c) (fold f xs (f x c))" by (rule Cons.IH [OF Cons.prems])
  finally show ?case by simp
qed simp

lemma keeps_rtrancl: "R\<^sup>*\<^sup>* c c' \<Longrightarrow> (\<And>a b. R a b \<Longrightarrow> keeps_counts a b) \<Longrightarrow> keeps_counts c c'"
  by (induction rule: rtranclp_induct) (auto intro: keeps_trans)

text \<open>The three elementary changes.\<close>

lemma keeps_upd:
  assumes "\<And>pc. partitionCount (f pc) = partitionCount pc \<and> pc_topic (f pc) = pc_topic pc"
  shows "keeps_counts c (upd i f c)"
proof -
  have "counts_right (upd i f c)" if "counts_right c"
  proof (cases "i < length (heap c)")
    case True
    then show ?thesis
      using that assms set_update_subset_insert [of "heap c" i "f (heap c ! i)"] nth_mem [OF True]
      by (auto simp: counts_right_def upd_def)
  qed (use that in \<open>simp add: counts_right_def upd_def list_update_beyond\<close>)
  then show ?thesis by (simp add: keeps_counts_def upd_def)
qed

lemma keeps_wg [simp]: "keeps_counts c (c\<lparr>consumingWg := n\<rparr>)" "keeps_counts c (wg_add k c)"
  "keeps_counts (wg_add k c) c' = keeps_counts c c'"
  "keeps_counts c (c'\<lparr>consumingWg := n\<rparr>) = keeps_counts c c'" "keeps_counts c (wg_add k c') = keeps_counts c c'"
  by (simp_all add: keeps_counts_def counts_right_def wg_add_def)

lemma keeps_new:
  "keeps_counts c (c\<lparr>heap := heap c @ [new_consumer c topic p], consumers := m\<rparr>)"
  by (auto simp: keeps_counts_def counts_right_def new_consumer_def count_of_def)

section \<open>Every operation\<close>

lemma keeps_consume: "consume_step c c' \<Longrightarrow> keeps_counts c c'"
  by (induction rule: consume_step.induct)
    (auto intro!: keeps_upd simp: take_batch_def processRecord_def finish_consumer_def)

lemma keeps_settle: "settle_ok settle \<Longrightarrow> keeps_counts c (settle c)"
  unfolding settle_ok_def using keeps_rtrancl keeps_consume by blast

lemma keeps_wait: "settle_ok settle \<Longrightarrow> keeps_counts c (waitForClosingConsumerToFinish settle ctx i c)"
  by (simp add: waitForClosingConsumerToFinish_def keeps_settle)

lemma keeps_stop: "settle_ok settle \<Longrightarrow> keeps_counts c (stop settle ctx i c)"
proof -
  assume s: "settle_ok settle"
  have "keeps_counts c (upd i (\<lambda>pc. pc\<lparr>closing := True\<rparr>) c)" by (rule keeps_upd) simp
  then show ?thesis using keeps_trans keeps_wait [OF s] by (simp add: stop_def)
qed

lemma keeps_replace: "settle_ok settle \<Longrightarrow> keeps_counts c (replaceConsumer settle ctx topic p pc c)"
proof -
  assume s: "settle_ok settle"
  let ?c1 = "case pc of None \<Rightarrow> c | Some i \<Rightarrow> if \<not> pc_done (heap c ! i) then waitForClosingConsumerToFinish settle ctx i c else c"
  have "keeps_counts c ?c1" using keeps_wait [OF s] by (simp split: option.split)
  then show ?thesis
    unfolding replaceConsumer_def Let_def by (rule keeps_trans) (rule keeps_new)
qed

lemma keeps_assign_partition: "settle_ok settle \<Longrightarrow> keeps_counts c (assign_partition settle ctx topic p c)"
  by (simp add: assign_partition_def keeps_replace split: option.split)

lemma keeps_load_or_store: "keeps_counts c (load_or_store topic c)"
  by (simp add: load_or_store_def keeps_counts_def counts_right_def split: option.split)

lemma keeps_assign:
  assumes "settle_ok settle"
  shows "keeps_counts c (assignPartitions settle ctx assigned c)"
proof -
  have "keeps_counts c (fold (assign_partition settle ctx t) ps (load_or_store t c))" for t ps c
    using keeps_load_or_store keeps_fold [of "assign_partition settle ctx t", OF keeps_assign_partition [OF assms]] by (rule keeps_trans)
  then show ?thesis
    unfolding assignPartitions_def by (auto intro!: keeps_fold split: prod.split)
qed

lemma keeps_revoke:
  assumes "settle_ok settle"
  shows "keeps_counts c (revokePartitions settle ctx lost c)"
proof -
  have "keeps_counts c (revoke_partition settle ctx t p c)" for t p c
    using keeps_stop [OF assms] by (simp add: revoke_partition_def split: option.split)
  then show ?thesis
    unfolding revokePartitions_def by (auto intro!: keeps_fold split: prod.split)
qed

lemma keeps_mutex: "mutex_step c c' \<Longrightarrow> keeps_counts c c'"
  by (induction rule: mutex_step.induct)
    (simp_all add: keeps_consume keeps_assign keeps_revoke OnPartitionsAssigned_def OnPartitionsLost_def)

lemma keeps_resync: "resync_ok resync \<Longrightarrow> keeps_counts c (resync c)"
  unfolding resync_ok_def using keeps_rtrancl keeps_mutex by blast

lemma keeps_send: "send_records i records c = Ret c' \<Longrightarrow> keeps_counts c c'"
  by (auto simp: send_records_def intro!: keeps_upd split: if_splits)

lemma keeps_send_all: "send_all t rs c = Ret c' \<Longrightarrow> keeps_counts c c'"
proof (induction t rs c rule: send_all.induct)
  case (2 t p records rs c)
  then obtain i where i: "lookup_consumer c t p = Some i" by (auto split: option.splits)
  then obtain c1 where c1: "send_records i records (wg_add (length records) c) = Ret c1" "send_all t rs c1 = Ret c'"
    using 2(2) by (auto simp: obind_Ret_iff)
  have "keeps_counts c (wg_add (length records) c)" by simp
  also have "keeps_counts (wg_add (length records) c) c1" by (rule keeps_send [OF c1(1)])
  also have "keeps_counts c1 c'" using 2(1) [OF i] c1(2) by blast
  finally show ?case .
qed simp

lemma keeps_mb_records: "mb_records ps c = (r, c') \<Longrightarrow> keeps_counts c c'"
  unfolding mb_records_fold
proof (induction ps arbitrary: r c' rule: rev_induct)
  case (snoc fp ps)
  obtain r0 c0 where f: "fold records_step ps (([], []), c) = (r0, c0)" by fastforce
  have "records_step fp (r0, c0) = (r, c')" using snoc.prems f by simp
  then have "keeps_counts c0 c'" by (cases r0) (auto simp: records_step_def split: if_splits)
  with snoc.IH [OF f] show ?case by (rule keeps_trans)
qed simp

lemma keeps_not_found:
  assumes "settle_ok settle" and "processNotFoundPartitions settle ft fps c = Ret c'"
  shows "keeps_counts c c'"
proof -
  let ?ps = "if length fps \<noteq> 0 then fps else ft_partitions ft"
  obtain recs parts c1 where r: "mb_records ?ps c = ((recs, parts), c1)" by (metis prod.exhaust)
  note k1 = keeps_mb_records [OF r]
  show ?thesis
  proof (cases "recs = []")
    case True
    then show ?thesis using assms(2) r k1 by (simp add: processNotFoundPartitions_def)
  next
    case False
    then obtain c3 where c3: "send_all (ft_topic ft) recs (assignPartitions settle False [(ft_topic ft, parts)] c1) = Ret c3"
        "c' = revokePartitions settle False [(ft_topic ft, parts)] c3"
      using assms(2) r by (auto simp: processNotFoundPartitions_def obind_Ret_iff)
    note k1
    also have "keeps_counts c1 (assignPartitions settle False [(ft_topic ft, parts)] c1)" by (rule keeps_assign [OF assms(1)])
    also have "keeps_counts \<dots> c3" by (rule keeps_send_all [OF c3(1)])
    also have "keeps_counts c3 c'" unfolding c3(2) by (rule keeps_revoke [OF assms(1)])
    finally show ?thesis .
  qed
qed

lemma keeps_find_consumers:
  assumes "settle_ok settle" and "resync_ok resync" and "find_consumers settle resync ft c = Ret (found, c1)"
  shows "keeps_counts c c1"
  using assms keeps_resync [OF assms(2), of c] keeps_not_found [OF assms(1)] keeps_trans
  by (fastforce simp: find_consumers_def Let_def omap_Ret_iff split: if_splits)

lemma keeps_find_consumer:
  assumes "settle_ok settle" and "resync_ok resync" and "find_consumer settle resync fp ft c = Ret (pc, c1)"
  shows "keeps_counts c c1"
proof (cases "fp_err fp = None")
  case False
  then show ?thesis using assms(3) by (simp add: find_consumer_def)
next
  case True
  define c0 where "c0 = (if lookup_consumer c (ft_topic ft) (fp_partition fp) = None then resync c else c)"
  have k0: "keeps_counts c c0" using keeps_resync [OF assms(2)] by (simp add: c0_def)
  have "keeps_counts c0 c1"
    using assms(3) True keeps_not_found [OF assms(1)] keeps_resync [OF assms(2), of c0] keeps_trans
    unfolding find_consumer_def Let_def c0_def [symmetric]
    by (fastforce simp: omap_Ret_iff split: option.splits if_splits)
  with k0 show ?thesis by (rule keeps_trans)
qed

lemma keeps_poll_partition:
  assumes "settle_ok settle" and "resync_ok resync" and "poll_partition settle resync ft c fp = Ret c'"
  shows "keeps_counts c c'"
proof (cases "fp_err fp = None")
  case False
  then show ?thesis using assms(3) by (simp add: poll_partition_def)
next
  case True
  then obtain pc c1 where f: "find_consumer settle resync fp ft c = Ret (pc, c1)"
    and rest: "(case pc of None \<Rightarrow> Ret c1 | Some i \<Rightarrow> send_records i (fp_records fp) (wg_add (length (fp_records fp)) c1)) = Ret c'"
    using assms(3) by (auto simp: poll_partition_def obind_Ret_iff)
  have "keeps_counts c1 c'"
  proof (cases pc)
    case (Some i)
    then show ?thesis using rest keeps_send [of i _ "wg_add (length (fp_records fp)) c1" c'] by simp
  qed (use rest in simp)
  with keeps_find_consumer [OF assms(1,2) f] show ?thesis by (rule keeps_trans)
qed

lemma keeps_foldl:
  assumes "\<And>c x c'. f c x = Ret c' \<Longrightarrow> keeps_counts c c'"
    and "foldl (\<lambda>o1 x. obind o1 (\<lambda>c. f c x)) (Ret c) xs = Ret c'"
  shows "keeps_counts c c'"
  by (rule foldl_obind_inv [where P = "keeps_counts c", OF _ keeps_refl assms(2)]) (rule keeps_trans, assumption, rule assms(1))

lemma keeps_poll_topic:
  assumes "settle_ok settle" and "resync_ok resync" and "poll_topic settle resync c ft = Ret c'"
  shows "keeps_counts c c'"
proof -
  obtain found c1 where f: "find_consumers settle resync ft c = Ret (found, c1)"
    and rest: "(if \<not> found then Ret c1 else foldl (\<lambda>o1 fp. obind o1 (\<lambda>c. poll_partition settle resync ft c fp)) (Ret c1) (ft_partitions ft)) = Ret c'"
    using assms(3) by (auto simp: poll_topic_def obind_Ret_iff)
  have "keeps_counts c1 c'"
    using rest keeps_foldl [OF keeps_poll_partition [OF assms(1,2)]] by (auto split: if_splits)
  with keeps_find_consumers [OF assms(1,2) f] show ?thesis by (rule keeps_trans)
qed

lemma keeps_broker: "broker_step c c' \<Longrightarrow> keeps_counts c c'"
proof (induction rule: broker_step.induct)
  case (broker_poll settle resync stopping fetches c b c')
  then show ?case
    using keeps_foldl [OF keeps_poll_topic [OF broker_poll.hyps(1,2)], where c = c and xs = fetches and c' = c']
    by (auto simp: poll_fetches_def omap_Ret_iff split: if_splits)
qed (rule keeps_mutex)

lemma keeps_poll_loop:
  assumes "\<forall>r \<in> set rounds. settle_ok (po_settle r) \<and> resync_ok (po_resync r) \<and> (\<forall>c. broker_step\<^sup>*\<^sup>* c (po_drain r c))"
    and "poll_loop rounds c = Ret c'"
  shows "keeps_counts c c'"
  using poll_loop_reaches [OF assms] keeps_broker by (rule keeps_rtrancl)

section \<open>From the listing to the processor\<close>

text \<open>
  C4. A client that has started and polls for any number of rounds, whatever the goroutines, the rebalances and the fetches do meanwhile: each
  message that reached the processor carries the topic and partition of its consumer, and as the number of partitions the one
  that the broker listed for that topic when the client connected (zero for a topic it did not list); and the messages of its key
  that were processed are the first of those that were sent, in their order.
\<close>

theorem listed_counts_are_delivered:
  assumes "MustConnectAndStartConsuming K order cfg n w = Ret (ps, b, w')" and "mb_cc b = Some c0"
    and "\<forall>r \<in> set rounds. settle_ok (po_settle r) \<and> resync_ok (po_resync r) \<and> (\<forall>c. broker_step\<^sup>*\<^sup>* c (po_drain r c))"
    and "poll_loop rounds c0 = Ret c" and "pc \<in> set (heap c)" and "(r, m) \<in> set (processed pc)"
  shows "\<exists>ds w1 w2. ka_ListTopics K (order (all_topics \<lparr>mb_cfg = cfg, mb_cc = Some no_consumers\<rparr>)) w1 = (Inr ds, w2) \<and>
    m_topic m = pc_topic pc \<and> m_partition m = pc_partition pc \<and> m_count m = count_of (counted ds) (m_topic m) \<and>
    m_key m = rec_key r \<and> m_value m = rec_value r \<and>
    (\<exists>rest. with_key (m_key m) (sent pc) = with_key (m_key m) (map fst (processed pc)) @ rest)"
proof -
  obtain w1 ds w2 one where list: "ka_ListTopics K (order (all_topics \<lparr>mb_cfg = cfg, mb_cc = Some no_consumers\<rparr>)) w1 = (Inr ds, w2)"
    and c0: "c0 = start_consumers one (counted ds)"
    using started [OF assms(1)] assms(2) by (metis option.inject)
  have "counts_right c0" by (simp add: c0 counts_right_def start_consumers_def)
  then have "counts_right c" "partitionCountPerTopic c = counted ds"
    using keeps_poll_loop [OF assms(3,4)] by (simp_all add: keeps_counts_def c0 start_consumers_def)
  then have count: "partitionCount pc = count_of (counted ds) (pc_topic pc)"
    using assms(5) by (simp add: counts_right_def)
  have "pc_inv pc"
    using reachable_good [OF poll_loop_reaches [OF assms(3,4), unfolded c0]] assms(5) by (simp add: good_def cc_inv_def)
  note order = pc_inv_order [OF this]
  then have "m = message_of pc r" using assms(6) by blast
  then show ?thesis
    using list count order by (auto simp: message_of_def)
qed

text \<open>One round in which a record of a topic without consumers is fetched, and then processed.\<close>

definition drain_one :: "krecord \<Rightarrow> concurrentConsumer \<Rightarrow> concurrentConsumer" where
  "drain_one r c =
     (if 0 < length (heap c) \<and> \<not> pc_done (heap c ! 0) \<and> idle (heap c ! 0) \<and> recordsChan (heap c ! 0) = [[r]]
      then (let c1 = upd 0 (take_batch (oneGoroutinePerPartition c (pc_topic (heap c ! 0))) [r]) c in
        (upd 0 (processRecord 0 r []) c1)\<lparr>consumingWg := consumingWg c1 - 1\<rparr>)
      else c)"

lemma drain_one_steps: "broker_step\<^sup>*\<^sup>* c (drain_one r c)"
proof (cases "0 < length (heap c) \<and> \<not> pc_done (heap c ! 0) \<and> idle (heap c ! 0) \<and> recordsChan (heap c ! 0) = [[r]]")
  case True
  define c1 where "c1 = upd 0 (take_batch (oneGoroutinePerPartition c (pc_topic (heap c ! 0))) [r]) c"
  have "consume_step c c1"
    unfolding c1_def by (rule step_take [where rest = "[]"]) (use True in simp_all)
  moreover have "consume_step c1 ((upd 0 (processRecord 0 r []) c1)\<lparr>consumingWg := consumingWg c1 - 1\<rparr>)"
    by (rule step_process) (use True in \<open>simp_all add: c1_def take_batch_def groupedByKey_def\<close>)
  moreover have "drain_one r c = (upd 0 (processRecord 0 r []) c1)\<lparr>consumingWg := consumingWg c1 - 1\<rparr>"
    unfolding drain_one_def c1_def Let_def by (rule if_P [OF True])
  ultimately show ?thesis
    by (metis broker_mutex converse_rtranclp_into_rtranclp mutex_consume r_into_rtranclp)
next
  case False
  then have "drain_one r c = c" unfolding drain_one_def by (rule if_not_P)
  then show ?thesis by simp
qed

definition demo_round :: poll_round where
  "demo_round = \<lparr>po_settle = id, po_resync = id, po_stopping = False,
     po_fetches = [\<lparr>ft_topic = ''a'', ft_partitions = [\<lparr>fp_partition = 0, fp_err = None, fp_records = [demo_record]\<rparr>]\<rparr>],
     po_drain = drain_one demo_record\<rparr>"

lemma demo_run:
  "\<exists>c pc m. poll_loop [demo_round] (start_consumers one counts) = Ret c \<and> pc \<in> set (heap c) \<and> (demo_record, m) \<in> set (processed pc) \<and> m_topic m = ''a''"
  by (simp add: demo_round_def poll_fetches_def poll_topic_def find_consumers_def processNotFoundPartitions_def mb_records_fold records_step_def
      wg_add_def start_consumers_def Let_def assignPartitions_def load_or_store_def assign_partition_def lookup_consumer_def replaceConsumer_def
      new_consumer_def send_records_def upd_def revokePartitions_def revoke_partition_def stop_def waitForClosingConsumerToFinish_def
      drain_one_def idle_def take_batch_def groupedByKey_def processRecord_def message_of_def)

theorem listed_counts_are_delivered_witness:
  "\<exists>ps b c0 c pc m. MustConnectAndStartConsuming toy_kafka (\<lambda>s. [''a'', ''b'']) toy_broker_config 1 () = Ret (ps, b, ()) \<and>
    mb_cc b = Some c0 \<and> poll_loop [demo_round] c0 = Ret c \<and> pc \<in> set (heap c) \<and> (demo_record, m) \<in> set (processed pc) \<and> m_count m = 3"
proof -
  obtain ps b where r: "MustConnectAndStartConsuming toy_kafka (\<lambda>s. [''a'', ''b'']) toy_broker_config 1 () = Ret (ps, b, ())"
    using toy_starts by blast
  obtain one counts where b: "mb_cc b = Some (start_consumers one counts)" using started [OF r] by blast
  obtain c pc m where run: "poll_loop [demo_round] (start_consumers one counts) = Ret c" "pc \<in> set (heap c)" "(demo_record, m) \<in> set (processed pc)"
      "m_topic m = ''a''"
    using demo_run by blast
  have "\<forall>r \<in> set [demo_round]. settle_ok (po_settle r) \<and> resync_ok (po_resync r) \<and> (\<forall>c. broker_step\<^sup>*\<^sup>* c (po_drain r c))"
    using drain_one_steps id_ok by (simp add: demo_round_def)
  from listed_counts_are_delivered [OF r b this run(1-3)] run(4)
  have "m_count m = 3" by (auto simp: toy_kafka_def counted_def count_of_def)
  with r b run show ?thesis by blast
qed

end
