(* ===== verification/Push_Batch.thy ===== *)
theory Push_Batch
  imports Backoff
begin

text \<open>
  A batch of push notifications (\<open>notifications/push/batch.go\<close>): sent with one FCM request, retried for the devices
  that were not notified yet, and answered device by device. The FCM client is the parameter \<open>fcm\<close>. Error texts leave out the printed notification.
\<close>

section \<open>Data\<close>

record 't push_notification =
  pn_Data :: "string \<Rightarrow> string option"
  pn_Target :: 't
  pn_Title :: string
  pn_Body :: string
  pn_ImageURL :: string

text \<open>A queued notification, with the channel its sender waits on (if any), named by a number.\<close>

record queued =
  q_notification :: "string push_notification"
  q_responder :: "nat option"

record fcm_message =
  fm_Data :: "string \<Rightarrow> string option"
  fm_Token :: string
  fm_Topic :: string
  fm_Title :: string
  fm_Body :: string
  fm_ImageURL :: string

record fcm_response =
  fr_Success :: bool
  fr_Error :: err

record 'w fcm =
  SendAll :: "fcm_message list \<Rightarrow> 'w \<Rightarrow> (goerr + fcm_response list) \<times> 'w"
  fcm_Send :: "fcm_message \<Rightarrow> 'w \<Rightarrow> err \<times> 'w"
  IsInvalidArgument :: "goerr \<Rightarrow> bool"
  IsUnregistered :: "goerr \<Rightarrow> bool"
  IsSenderIDMismatch :: "goerr \<Rightarrow> bool"
  ctx_Err :: "'w \<Rightarrow> err"

definition ErrInvalidDeviceToken :: goerr where
  "ErrInvalidDeviceToken = Sentinel ''device token is invalid''"

text \<open>\<open>b_acks\<close> is not in the code: the devices FCM has accepted a message for, in order.\<close>

record notificationBatch =
  b_notifications :: "queued list"
  devicesWithInvalidTokens :: "nat set"
  devicesNotified :: "nat set"
  devicesFailed :: "nat \<Rightarrow> goerr option"
  b_acks :: "nat list"

definition newNotificationBatch :: "queued list \<Rightarrow> notificationBatch" where
  "newNotificationBatch ns = \<lparr>b_notifications = ns, devicesWithInvalidTokens = {}, devicesNotified = {},
     devicesFailed = Map.empty, b_acks = []\<rparr>"

section \<open>Sending\<close>

definition device_message :: "string push_notification \<Rightarrow> fcm_message" where
  "device_message n = \<lparr>fm_Data = pn_Data n, fm_Token = pn_Target n, fm_Topic = [], fm_Title = pn_Title n,
     fm_Body = pn_Body n, fm_ImageURL = pn_ImageURL n\<rparr>"

fun buildFCMMessages_from :: "nat \<Rightarrow> queued list \<Rightarrow> nat set list \<Rightarrow> fcm_message list \<times> nat list" where
  "buildFCMMessages_from idx [] excluded = ([], [])"
| "buildFCMMessages_from idx (dn # dns) excluded =
     (case buildFCMMessages_from (Suc idx) dns excluded of (messages, indices) \<Rightarrow>
        (if \<exists>s \<in> set excluded. idx \<in> s then (messages, indices)
         else (device_message (q_notification dn) # messages, idx # indices)))"

definition buildFCMMessages :: "queued list \<Rightarrow> nat set list \<Rightarrow> fcm_message list \<times> nat list" where
  "buildFCMMessages dns excluded = buildFCMMessages_from 0 dns excluded"

definition bad_token :: "'w fcm \<Rightarrow> goerr \<Rightarrow> bool" where
  "bad_token X e \<longleftrightarrow> IsInvalidArgument X e \<or> IsUnregistered X e \<or> IsSenderIDMismatch X e"

text \<open>One response, for the device \<open>d\<close>.\<close>

definition take_response :: "'w fcm \<Rightarrow> string \<Rightarrow> nat \<Rightarrow> fcm_response \<Rightarrow> notificationBatch \<Rightarrow> notificationBatch" where
  "take_response X key d resp b =
     (case fr_Error resp of
        Some e \<Rightarrow>
          (if \<not> fr_Success resp
           then (if bad_token X e
                 then b\<lparr>devicesWithInvalidTokens := insert d (devicesWithInvalidTokens b),
                        devicesFailed := (devicesFailed b)(d \<mapsto> ErrInvalidDeviceToken)\<rparr>
                 else b\<lparr>devicesFailed := (devicesFailed b)(d \<mapsto> Wrapped (''['' @ key @ '']fcm send failed'') e)\<rparr>)
           else b\<lparr>devicesFailed := (devicesFailed b)(d := None), devicesNotified := insert d (devicesNotified b),
                  b_acks := b_acks b @ [d]\<rparr>)
      | None \<Rightarrow> b\<lparr>devicesFailed := (devicesFailed b)(d := None), devicesNotified := insert d (devicesNotified b),
                  b_acks := b_acks b @ [d]\<rparr>)"

text \<open>More responses than messages would index out of range.\<close>

fun take_responses :: "'w fcm \<Rightarrow> string \<Rightarrow> nat list \<Rightarrow> fcm_response list \<Rightarrow> notificationBatch \<Rightarrow> notificationBatch outcome" where
  "take_responses X key ds [] b = Ret b"
| "take_responses X key [] (r # rs) b = Panic"
| "take_responses X key (d # ds) (r # rs) b = take_responses X key ds rs (take_response X key d r b)"

definition fcmSendAll :: "'w fcm \<Rightarrow> string \<Rightarrow> (notificationBatch \<times> 'w) retried" where
  "fcmSendAll X key = (\<lambda>(b, w).
     case buildFCMMessages (b_notifications b) [devicesWithInvalidTokens b, devicesNotified b] of (messages, deviceIndices) \<Rightarrow>
       (case SendAll X messages w of
          (Inl e, w1) \<Rightarrow>
            (if is_err (Some e) (ctx_Err X w1) then (permanent (ctx_Err X w1), (b, w1)) else (OpTransient e, (b, w1)))
        | (Inr responses, w1) \<Rightarrow>
            (case take_responses X key deviceIndices responses b of
               Panic \<Rightarrow> (OpPanic, (b, w1))
             | Ret b1 \<Rightarrow>
                 (if length (b_notifications b1) = card (devicesWithInvalidTokens b1) + card (devicesNotified b1)
                  then (OpDone, (b1, w1))
                  else (OpTransient (Sentinel (''['' @ key @ ''] at least one token has failed, retrying'')), (b1, w1))))))"

section \<open>Answering\<close>

definition not_attempted :: goerr where
  "not_attempted = Sentinel ''sending push notification to device token was not attempted due to deadline exhaustion''"

definition fill_failed :: "notificationBatch \<Rightarrow> notificationBatch" where
  "fill_failed b =
     (if length (b_notifications b) \<noteq> card (devicesNotified b) + card (dom (devicesFailed b))
      then b\<lparr>devicesFailed := (\<lambda>i. if i < length (b_notifications b) \<and> i \<notin> devicesNotified b then Some not_attempted
                                     else devicesFailed b i)\<rparr>
      else b)"

text \<open>What each responder is sent (notifications without one are only logged); the goroutines' order is immaterial.\<close>

definition respond :: "notificationBatch \<Rightarrow> (nat option \<times> err) list" where
  "respond b = map (\<lambda>ix. (q_responder (b_notifications b ! ix),
       wrap_err ''sending push notification to device token failed permanently'' (devicesFailed b ix)))
     [0..<length (b_notifications b)]"

definition process :: "(notificationBatch \<times> 'w) retrier \<Rightarrow> 'w fcm \<Rightarrow> string \<Rightarrow> queued list \<Rightarrow> 'w \<Rightarrow>
    ((nat option \<times> err) list \<times> notificationBatch \<times> 'w) outcome" where
  "process R X key ns w =
     (case R (fcmSendAll X key) (newNotificationBatch ns, w) of
        (Panic, s) \<Rightarrow> Panic
      | (Ret e, (b, w1)) \<Rightarrow> (let b1 = fill_failed b in Ret (respond b1, b1, w1)))"

text \<open>The recovered value of a panic in a responder goroutine, as an error: a text, an error, or something else.\<close>

datatype recovered = RecNil | RecString string | RecError goerr | RecOther string

fun mapErr :: "recovered \<Rightarrow> err" where
  "mapErr RecNil = None"
| "mapErr (RecString s) = Some (Sentinel s)"
| "mapErr (RecError e) = Some e"
| "mapErr (RecOther s) = Some (Sentinel (''unexpected error: '' @ s))"

section \<open>Invariant of a batch\<close>

definition batch_inv :: "notificationBatch \<Rightarrow> bool" where
  "batch_inv b \<longleftrightarrow>
     devicesNotified b = set (b_acks b) \<and> distinct (b_acks b) \<and>
     dom (devicesFailed b) \<inter> devicesNotified b = {} \<and>
     (\<forall>d \<in> devicesWithInvalidTokens b. devicesFailed b d = Some ErrInvalidDeviceToken) \<and>
     dom (devicesFailed b) \<union> devicesNotified b \<subseteq> {..<length (b_notifications b)}"

text \<open>No device has an answer yet, or every device has one.\<close>

definition all_or_none :: "notificationBatch \<Rightarrow> bool" where
  "all_or_none b \<longleftrightarrow> (devicesFailed b = Map.empty \<and> devicesNotified b = {} \<and> devicesWithInvalidTokens b = {}) \<or>
     dom (devicesFailed b) \<union> devicesNotified b = {..<length (b_notifications b)}"

lemma build_spec:
  "buildFCMMessages_from i dns excluded = (messages, indices) \<Longrightarrow>
     length messages = length indices \<and> distinct indices \<and>
     set indices = {d. i \<le> d \<and> d < i + length dns \<and> (\<forall>s \<in> set excluded. d \<notin> s)}"
proof (induction i dns excluded arbitrary: messages indices rule: buildFCMMessages_from.induct)
  case (1 idx excluded)
  then show ?case by auto
next
  case (2 idx dn dns excluded)
  obtain ms inds where r: "buildFCMMessages_from (Suc idx) dns excluded = (ms, inds)" by (metis prod.exhaust)
  note IH = 2(1) [OF r]
  have split: "{d. idx \<le> d \<and> d < idx + length (dn # dns) \<and> (\<forall>s \<in> set excluded. d \<notin> s)} =
      (if \<exists>s \<in> set excluded. idx \<in> s then {} else {idx}) \<union>
      {d. Suc idx \<le> d \<and> d < Suc idx + length dns \<and> (\<forall>s \<in> set excluded. d \<notin> s)}"
    by (auto simp: Suc_le_eq le_less)
  show ?case
  proof (cases "\<exists>s \<in> set excluded. idx \<in> s")
    case True
    then have "messages = ms" "indices = inds" using 2(2) r by auto
    then show ?thesis unfolding split using IH True by simp
  next
    case False
    then have "length messages = Suc (length ms)" "indices = idx # inds" using 2(2) r by auto
    then show ?thesis unfolding split using IH False by auto
  qed
qed

definition notify :: "nat \<Rightarrow> notificationBatch \<Rightarrow> notificationBatch" where
  "notify d b = b\<lparr>devicesFailed := (devicesFailed b)(d := None), devicesNotified := insert d (devicesNotified b),
     b_acks := b_acks b @ [d]\<rparr>"

lemma take_response_cases:
  "take_response X key d r b = notify d b \<or>
   (\<exists>e. fr_Error r = Some e \<and> \<not> fr_Success r \<and>
     (take_response X key d r b = b\<lparr>devicesWithInvalidTokens := insert d (devicesWithInvalidTokens b),
        devicesFailed := (devicesFailed b)(d \<mapsto> ErrInvalidDeviceToken)\<rparr> \<or>
      take_response X key d r b = b\<lparr>devicesFailed := (devicesFailed b)(d \<mapsto> Wrapped (''['' @ key @ '']fcm send failed'') e)\<rparr>))"
  by (auto simp: take_response_def notify_def split: option.splits)

lemma take_response_inv:
  assumes "batch_inv b" and "d < length (b_notifications b)" and "d \<notin> devicesNotified b" and "d \<notin> devicesWithInvalidTokens b"
  shows "batch_inv (take_response X key d r b) \<and> b_notifications (take_response X key d r b) = b_notifications b \<and>
    devicesNotified (take_response X key d r b) \<subseteq> insert d (devicesNotified b) \<and>
    devicesWithInvalidTokens (take_response X key d r b) \<subseteq> insert d (devicesWithInvalidTokens b) \<and>
    dom (devicesFailed (take_response X key d r b)) \<union> devicesNotified (take_response X key d r b) =
      insert d (dom (devicesFailed b) \<union> devicesNotified b)"
  using take_response_cases [of X key d r b]
proof (elim disjE exE conjE)
  assume "take_response X key d r b = notify d b"
  then show ?thesis using assms by (auto simp: batch_inv_def notify_def)
qed (use assms in \<open>auto simp: batch_inv_def\<close>)

lemma take_responses_inv:
  "batch_inv b \<Longrightarrow> distinct ds \<Longrightarrow> set ds \<subseteq> {..<length (b_notifications b)} - devicesNotified b - devicesWithInvalidTokens b \<Longrightarrow>
   length rs = length ds \<Longrightarrow>
   \<exists>b'. take_responses X key ds rs b = Ret b' \<and> batch_inv b' \<and> b_notifications b' = b_notifications b \<and>
     dom (devicesFailed b') \<union> devicesNotified b' = set ds \<union> dom (devicesFailed b) \<union> devicesNotified b"
proof (induction X key ds rs b rule: take_responses.induct)
  case (3 X key d ds r rs b)
  let ?b = "take_response X key d r b"
  have s: "batch_inv ?b \<and> b_notifications ?b = b_notifications b \<and> devicesNotified ?b \<subseteq> insert d (devicesNotified b) \<and>
      devicesWithInvalidTokens ?b \<subseteq> insert d (devicesWithInvalidTokens b) \<and>
      dom (devicesFailed ?b) \<union> devicesNotified ?b = insert d (dom (devicesFailed b) \<union> devicesNotified b)"
    using 3(2,4) by (intro take_response_inv) auto
  have "set ds \<subseteq> {..<length (b_notifications ?b)} - devicesNotified ?b - devicesWithInvalidTokens ?b"
    using 3(3,4) s by auto
  then obtain b' where b': "take_responses X key ds rs ?b = Ret b'" "batch_inv b'" "b_notifications b' = b_notifications ?b"
      "dom (devicesFailed b') \<union> devicesNotified b' = set ds \<union> dom (devicesFailed ?b) \<union> devicesNotified ?b"
    using 3(1) 3(3,5) s by auto
  have "set ds \<union> dom (devicesFailed ?b) \<union> devicesNotified ?b = set (d # ds) \<union> dom (devicesFailed b) \<union> devicesNotified b"
    using s by (metis Un_insert_left Un_insert_right list.simps(15) sup_assoc)
  then show ?case using b' s by simp
qed simp_all

section \<open>Processing a batch\<close>

text \<open>FCM answers every message of a request.\<close>

definition fcm_ok :: "'w fcm \<Rightarrow> bool" where
  "fcm_ok X \<longleftrightarrow> (\<forall>ms w rs w1. SendAll X ms w = (Inr rs, w1) \<longrightarrow> length rs = length ms)"

definition batch_good :: "queued list \<Rightarrow> notificationBatch \<Rightarrow> bool" where
  "batch_good ns b \<longleftrightarrow> batch_inv b \<and> all_or_none b \<and> b_notifications b = ns"

lemma fcmSendAll_good:
  assumes X: "fcm_ok X" and good: "batch_good ns b" and run: "fcmSendAll X key (b, w) = (r, (b', w'))"
  shows "batch_good ns b' \<and> r \<noteq> OpPanic"
proof -
  let ?ex = "[devicesWithInvalidTokens b, devicesNotified b]"
  obtain messages inds where build: "buildFCMMessages (b_notifications b) ?ex = (messages, inds)" by (metis prod.exhaust)
  have spec: "length messages = length inds" "distinct inds"
      "set inds = {..<length (b_notifications b)} - devicesNotified b - devicesWithInvalidTokens b"
    using build_spec [OF build [unfolded buildFCMMessages_def]] by auto
  obtain res w1 where send: "SendAll X messages w = (res, w1)" by (metis prod.exhaust)
  show ?thesis
  proof (cases res)
    case (Inl e)
    then have "b' = b" "r \<noteq> OpPanic"
      using run build send by (auto simp: fcmSendAll_def split: if_splits)
    then show ?thesis using good by simp
  next
    case (Inr rs)
    have "length rs = length inds" using X send spec(1) unfolding fcm_ok_def Inr by metis
    moreover have "batch_inv b" using good by (simp add: batch_good_def)
    ultimately obtain b1 where b1: "take_responses X key inds rs b = Ret b1" "batch_inv b1" "b_notifications b1 = b_notifications b"
        "dom (devicesFailed b1) \<union> devicesNotified b1 = set inds \<union> dom (devicesFailed b) \<union> devicesNotified b"
      using take_responses_inv [of b inds rs X key] spec(2,3) by (metis order_refl)
    have "devicesWithInvalidTokens b \<subseteq> dom (devicesFailed b)" "dom (devicesFailed b) \<union> devicesNotified b \<subseteq> {..<length (b_notifications b)}"
      using \<open>batch_inv b\<close> by (auto simp: batch_inv_def)
    then have "dom (devicesFailed b1) \<union> devicesNotified b1 = {..<length (b_notifications b1)}"
      unfolding b1(3,4) spec(3) by blast
    then have "batch_good ns b1" using b1(2,3) good by (simp add: batch_good_def all_or_none_def)
    moreover have "b' = b1" "r \<noteq> OpPanic"
      using run build send Inr b1(1) by (auto simp: fcmSendAll_def split: if_splits)
    ultimately show ?thesis by simp
  qed
qed

lemma new_batch_good: "batch_good ns (newNotificationBatch ns)"
  by (simp add: batch_good_def newNotificationBatch_def batch_inv_def all_or_none_def)

lemma fill_failed_spec:
  assumes "batch_good ns b"
  shows "dom (devicesFailed (fill_failed b)) = {..<length ns} - devicesNotified b" and
    "\<forall>d \<in> devicesWithInvalidTokens b. devicesFailed (fill_failed b) d = Some ErrInvalidDeviceToken" and
    "b_notifications (fill_failed b) = ns" and "b_acks (fill_failed b) = b_acks b"
    and "devicesWithInvalidTokens (fill_failed b) = devicesWithInvalidTokens b"
proof -
  have inv: "batch_inv b" and n: "b_notifications b = ns" using assms by (simp_all add: batch_good_def)
  have sub: "dom (devicesFailed b) \<subseteq> {..<length ns}" "devicesNotified b \<subseteq> {..<length ns}"
    and disj: "dom (devicesFailed b) \<inter> devicesNotified b = {}"
    using inv n by (auto simp: batch_inv_def)
  have fin: "finite (dom (devicesFailed b))" "finite (devicesNotified b)"
    using sub finite_subset by blast+
  have all: "dom (devicesFailed b) \<union> devicesNotified b = {..<length ns} \<longleftrightarrow>
      length ns = card (devicesNotified b) + card (dom (devicesFailed b))"
  proof -
    have "card (dom (devicesFailed b) \<union> devicesNotified b) = card (devicesNotified b) + card (dom (devicesFailed b))"
      using card_Un_disjoint [OF fin disj] by simp
    moreover have "card {..<length ns} = length ns" by simp
    moreover have "dom (devicesFailed b) \<union> devicesNotified b \<subseteq> {..<length ns}" using sub by blast
    ultimately show ?thesis by (metis card_subset_eq finite_lessThan)
  qed
  show dom: "dom (devicesFailed (fill_failed b)) = {..<length ns} - devicesNotified b"
  proof (cases "length ns = card (devicesNotified b) + card (dom (devicesFailed b))")
    case True
    then show ?thesis using all disj n by (auto simp: fill_failed_def)
  next
    case False
    then have "fill_failed b = b\<lparr>devicesFailed := (\<lambda>i. if i < length ns \<and> i \<notin> devicesNotified b then Some not_attempted
                                     else devicesFailed b i)\<rparr>"
      by (simp add: fill_failed_def n)
    then show ?thesis using sub disj by (auto simp: dom_def split: if_splits)
  qed
  show "\<forall>d \<in> devicesWithInvalidTokens b. devicesFailed (fill_failed b) d = Some ErrInvalidDeviceToken"
  proof (cases "length ns = card (devicesNotified b) + card (dom (devicesFailed b))")
    case True
    then show ?thesis using inv n by (simp add: fill_failed_def batch_inv_def)
  next
    case False
    then have "devicesWithInvalidTokens b = {}" using assms all n by (simp add: batch_good_def all_or_none_def)
    then show ?thesis by simp
  qed
qed (use assms in \<open>simp_all add: fill_failed_def batch_good_def\<close>)

lemma process_run:
  assumes "fcm_ok X" and "retry_contract R"
  shows "\<exists>b w1. process R X key ns w = Ret (respond (fill_failed b), fill_failed b, w1) \<and> batch_good ns b"
proof -
  obtain r b w1 where R: "R (fcmSendAll X key) (newNotificationBatch ns, w) = (r, (b, w1))" by (metis prod.exhaust)
  have run: "retry_run (fcmSendAll X key) (newNotificationBatch ns, w) r (b, w1)" by (rule retry_contractD [OF assms(2) R])
  have step: "batch_good ns (fst (snd (fcmSendAll X key s)))" if "batch_good ns (fst s)" for s
  proof -
    obtain r1 b1 w2 where "fcmSendAll X key (fst s, snd s) = (r1, (b1, w2))" by (metis prod.exhaust)
    with fcmSendAll_good [OF assms(1) that this] show ?thesis by simp
  qed
  have "batch_good ns (fst (b, w1))"
    by (rule retry_run_invariant [OF run, where I = "\<lambda>s. batch_good ns (fst s)"]) (use new_batch_good step in auto)
  moreover have "r \<noteq> Panic"
  proof
    assume "r = Panic"
    have last: "\<exists>s0. batch_good ns (fst s0) \<and> snd (fcmSendAll X key s0) = (b, w1) \<and>
      (case r of Panic \<Rightarrow> fst (fcmSendAll X key s0) = OpPanic
       | Ret None \<Rightarrow> fst (fcmSendAll X key s0) = OpDone
       | Ret (Some e) \<Rightarrow> fst (fcmSendAll X key s0) = OpPermanent e \<or>
           (\<exists>e'. fst (fcmSendAll X key s0) = OpTransient e' \<and> (e = e' \<or> e = Canceled \<or> e = DeadlineExceeded)))"
    proof (rule retry_run_last [OF run])
      show "batch_good ns (fst (newNotificationBatch ns, w))" using new_batch_good by simp
      show "batch_good ns (fst s')" if "batch_good ns (fst s)" "fcmSendAll X key s = (OpTransient e, s')" for s e s'
        using step [OF that(1)] that(2) by simp
    qed
    then obtain s0 where s0: "batch_good ns (fst s0)" "fst (fcmSendAll X key s0) = OpPanic"
      unfolding \<open>r = Panic\<close> outcome.case by (elim exE conjE)
    obtain r1 b1 w2 where "fcmSendAll X key (fst s0, snd s0) = (r1, (b1, w2))" by (metis prod.exhaust)
    with fcmSendAll_good [OF assms(1) s0(1) this] s0(2) show False by simp
  qed
  then obtain e where "r = Ret e" by (cases r) auto
  ultimately show ?thesis using R by (intro exI [of _ b] exI [of _ w1]) (simp add: process_def Let_def)
qed


definition toy_fcm :: "unit fcm" where
  "toy_fcm = \<lparr>SendAll = (\<lambda>ms w. (Inr (map (\<lambda>m. if fm_Token m = ''bad'' then \<lparr>fr_Success = False, fr_Error = Some (Sentinel ''unregistered'')\<rparr>
         else \<lparr>fr_Success = True, fr_Error = None\<rparr>) ms), w)),
     fcm_Send = (\<lambda>m w. (None, w)), IsInvalidArgument = (\<lambda>e. False), IsUnregistered = (\<lambda>e. e = Sentinel ''unregistered''),
     IsSenderIDMismatch = (\<lambda>e. False), ctx_Err = (\<lambda>w. None)\<rparr>"

definition toy_queued :: "string \<Rightarrow> nat \<Rightarrow> queued" where
  "toy_queued token ch = \<lparr>q_notification = \<lparr>pn_Data = Map.empty, pn_Target = token, pn_Title = ''t'', pn_Body = ''b'', pn_ImageURL = ''''\<rparr>,
     q_responder = Some ch\<rparr>"

lemma toy_fcm_ok: "fcm_ok toy_fcm"
  by (auto simp: fcm_ok_def toy_fcm_def)


end
