(* ===== verification/Push_Sink.thy ===== *)
theory Push_Sink
  imports Push_Batch
begin

text \<open>
  The collecting sink of \<open>notifications/push/sink.go\<close>: notifications are buffered, cut into batches of at most 500,
  and handed through a channel to processing goroutines; a ticker flushes what waits too long. The theory shows that no
  notification is lost, repeated or reordered on the way to the batches.
\<close>

section \<open>State\<close>

text \<open>Times are in nanoseconds. \<open>sk_chan\<close> is the channel of batches (a sender waits while it is full, which is only a
  delay). \<open>sk_taken\<close>, the batches the processing goroutines took, \<open>sk_direct\<close>, the notifications processed on their own
  after closing, and \<open>sk_accepted\<close>, everything accepted, are not in the code.\<close>

record sink =
  sk_chan :: "queued list list"
  sk_chan_closed :: bool
  sk_resetAt :: "int option"
  bufferedNotifications :: "queued list"
  sk_closed :: bool
  sk_taken :: "queued list list"
  sk_direct :: "queued list"
  sk_accepted :: "queued list"

definition fcmSendAllBatchSize :: nat where
  "fcmSendAllBatchSize = 500"

definition fcmSendAllBufferingDeadline :: int where
  "fcmSendAllBufferingDeadline = 1000000000"

definition new_sink :: sink where
  "new_sink = \<lparr>sk_chan = [], sk_chan_closed = False, sk_resetAt = None, bufferedNotifications = [], sk_closed = False,
     sk_taken = [], sk_direct = [], sk_accepted = []\<rparr>"

section \<open>Operations\<close>

text \<open>The slices \<open>[i*500 : (i+1)*500]\<close> of the buffer.\<close>

definition full_batches :: "queued list \<Rightarrow> queued list list" where
  "full_batches xs = map (\<lambda>i. take fcmSendAllBatchSize (drop (i * fcmSendAllBatchSize) xs)) [0..<length xs div fcmSendAllBatchSize]"

definition remaining :: "queued list \<Rightarrow> queued list" where
  "remaining xs = drop (length xs - length xs mod fcmSendAllBatchSize) xs"

definition send_batches :: "queued list list \<Rightarrow> sink \<Rightarrow> sink" where
  "send_batches bs s = s\<lparr>sk_chan := sk_chan s @ bs\<rparr>"

text \<open>\<open>accept\<close>: \<open>now\<close> is \<open>time.Now()\<close>; \<open>n\<close> is the notification, or \<open>None\<close> for the ticker.\<close>

definition accept :: "int \<Rightarrow> queued option \<Rightarrow> sink \<Rightarrow> sink" where
  "accept now n s =
     (if sk_closed s
      then (case n of None \<Rightarrow> s
            | Some q \<Rightarrow> s\<lparr>sk_direct := sk_direct s @ [q], sk_accepted := sk_accepted s @ [q]\<rparr>)
      else
        (let s1 = s\<lparr>sk_resetAt := (case sk_resetAt s of None \<Rightarrow> Some now | Some t \<Rightarrow> Some t)\<rparr>;
             s2 = (case n of None \<Rightarrow> s1
                   | Some q \<Rightarrow> s1\<lparr>bufferedNotifications := bufferedNotifications s1 @ [q], sk_accepted := sk_accepted s1 @ [q]\<rparr>);
             late = now - the (sk_resetAt s2) \<ge> fcmSendAllBufferingDeadline
         in if length (bufferedNotifications s2) \<ge> fcmSendAllBatchSize \<or> late
            then
              (let s3 = (if length (bufferedNotifications s2) > 0
                  then
                    (let s4 = (send_batches (full_batches (bufferedNotifications s2)) s2)
                           \<lparr>bufferedNotifications := remaining (bufferedNotifications s2)\<rparr>
                     in if length (bufferedNotifications s4) > 0 \<and> late
                        then (send_batches [bufferedNotifications s4] s4)\<lparr>bufferedNotifications := []\<rparr>
                        else s4)
                  else s2)
               in s3\<lparr>sk_resetAt := Some now\<rparr>)
            else s2))"

text \<open>A processing goroutine takes the next batch.\<close>

definition take_next :: "sink \<Rightarrow> sink" where
  "take_next s = (case sk_chan s of [] \<Rightarrow> s | b # bs \<Rightarrow> s\<lparr>sk_chan := bs, sk_taken := sk_taken s @ [b]\<rparr>)"

text \<open>\<open>stop\<close>: the rest is sent, the channel is closed, and the goroutines are waited for, which end when they have taken
  all batches.\<close>

definition sink_stop :: "int \<Rightarrow> sink \<Rightarrow> sink" where
  "sink_stop now s =
     (if sk_closed s then s
      else
        (let s1 = (if length (bufferedNotifications s) > 0
             then (send_batches (full_batches (bufferedNotifications s) @ [remaining (bufferedNotifications s)]) s)
                    \<lparr>bufferedNotifications := [], sk_resetAt := Some now\<rparr>
             else s);
             s2 = s1\<lparr>sk_chan_closed := True\<rparr>
         in s2\<lparr>sk_taken := sk_taken s2 @ sk_chan s2, sk_chan := [], sk_closed := True\<rparr>))"

text \<open>The ticker of \<open>monitorSlowProcessing\<close> ticks once; it runs while the sink is open.\<close>

definition monitor_tick :: "int \<Rightarrow> sink \<Rightarrow> sink" where
  "monitor_tick now s = (if sk_closed s then s else accept now None s)"

datatype sink_event = Accept int queued | Tick int | TakeNext | Stop int

fun sink_do :: "sink_event \<Rightarrow> sink \<Rightarrow> sink" where
  "sink_do (Accept now q) s = accept now (Some q) s"
| "sink_do (Tick now) s = monitor_tick now s"
| "sink_do TakeNext s = take_next s"
| "sink_do (Stop now) s = sink_stop now s"

section \<open>The interface of the sink\<close>

text \<open>What the senders rely on: a queue of batches with an abstraction to the notifications that are on their way or
  arrived. Every operation but adding keeps that list, adding appends to it, and closing leaves nothing on the way.\<close>

locale batching =
  fixes add :: "'t \<Rightarrow> 'x \<Rightarrow> 's \<Rightarrow> 's" and other :: "'e \<Rightarrow> 's \<Rightarrow> 's"
    and invar :: "'s \<Rightarrow> bool" and content :: "'s \<Rightarrow> 'x list"
  assumes add_invar: "invar s \<Longrightarrow> invar (add t x s)"
    and other_invar: "invar s \<Longrightarrow> invar (other e s)"
    and add_content: "invar s \<Longrightarrow> content (add t x s) = content s @ [x]"
    and other_content: "invar s \<Longrightarrow> content (other e s) = content s"
begin

lemma run_invar: "invar s \<Longrightarrow> invar (fold (case_sum (\<lambda>(t, x). add t x) other) es s)"
  by (induction es arbitrary: s) (auto simp: add_invar other_invar split: sum.splits)

lemma run_content:
  "invar s \<Longrightarrow> content (fold (case_sum (\<lambda>(t, x). add t x) other) es s) =
     content s @ concat (map (case_sum (\<lambda>(t, x). [x]) (\<lambda>_. [])) es)"
  by (induction es arbitrary: s) (auto simp: add_invar other_invar add_content other_content split: sum.splits)

end

section \<open>The sink keeps everything in order\<close>

definition small :: "queued list \<Rightarrow> bool" where
  "small b \<longleftrightarrow> b \<noteq> [] \<and> length b \<le> fcmSendAllBatchSize"

definition sink_content :: "sink \<Rightarrow> queued list" where
  "sink_content s = concat (sk_taken s) @ concat (sk_chan s) @ bufferedNotifications s @ sk_direct s"

definition sink_inv :: "sink \<Rightarrow> bool" where
  "sink_inv s \<longleftrightarrow> sk_accepted s = sink_content s \<and>
     length (bufferedNotifications s) < fcmSendAllBatchSize \<and>
     (\<forall>b \<in> set (sk_taken s @ sk_chan s). small b) \<and>
     (sk_closed s \<longrightarrow> sk_chan s = [] \<and> bufferedNotifications s = [] \<and> sk_chan_closed s) \<and>
     (\<not> sk_closed s \<longrightarrow> sk_direct s = [] \<and> \<not> sk_chan_closed s)"

lemma batch_size_pos: "0 < fcmSendAllBatchSize"
  by (simp add: fcmSendAllBatchSize_def)

text \<open>A buffer that is not overfull: at most one batch is cut off.\<close>

lemma full_batches_small:
  "length xs < fcmSendAllBatchSize \<Longrightarrow> full_batches xs = [] \<and> remaining xs = xs"
  by (simp add: full_batches_def remaining_def)

lemma full_batches_full:
  "length xs = fcmSendAllBatchSize \<Longrightarrow> full_batches xs = [xs] \<and> remaining xs = []"
  using batch_size_pos by (simp add: full_batches_def remaining_def)

lemma accept_inv:
  assumes "sink_inv s"
  shows "sink_inv (accept now n s) \<and>
    sink_content (accept now n s) = sink_content s @ (case n of None \<Rightarrow> [] | Some q \<Rightarrow> [q])"
proof (cases "sk_closed s")
  case True
  then show ?thesis
    using assms by (auto simp: accept_def sink_inv_def sink_content_def split: option.splits)
next
  case False
  define xs where "xs = bufferedNotifications s @ (case n of None \<Rightarrow> [] | Some q \<Rightarrow> [q])"
  define s2 where "s2 = s\<lparr>sk_resetAt := (case sk_resetAt s of None \<Rightarrow> Some now | Some t \<Rightarrow> Some t), bufferedNotifications := xs,
      sk_accepted := sk_accepted s @ (case n of None \<Rightarrow> [] | Some q \<Rightarrow> [q])\<rparr>"
  define late where "late \<longleftrightarrow> now - the (sk_resetAt s2) \<ge> fcmSendAllBufferingDeadline"
  have run: "accept now n s =
      (if length xs \<ge> fcmSendAllBatchSize \<or> late
       then (if length xs > 0
             then (let s4 = (send_batches (full_batches xs) s2)\<lparr>bufferedNotifications := remaining xs\<rparr>
                   in if length (bufferedNotifications s4) > 0 \<and> late
                      then (send_batches [bufferedNotifications s4] s4)\<lparr>bufferedNotifications := []\<rparr> else s4)
             else s2)\<lparr>sk_resetAt := Some now\<rparr>
       else s2)"
    using False by (cases n) (simp_all add: accept_def Let_def late_def s2_def xs_def)
  have len: "length xs \<le> fcmSendAllBatchSize"
    using assms by (simp add: sink_inv_def xs_def split: option.splits)
  have s2: "sk_closed s2 = False" "bufferedNotifications s2 = xs" "sk_chan s2 = sk_chan s" "sk_taken s2 = sk_taken s"
      "sk_direct s2 = []" "sk_chan_closed s2 = False"
      "sk_accepted s2 = concat (sk_taken s) @ concat (sk_chan s) @ xs"
    using assms False by (simp_all add: s2_def sink_inv_def sink_content_def xs_def)
  have tiny: "\<forall>b \<in> set (sk_taken s @ sk_chan s). small b" using assms by (simp add: sink_inv_def)
  have content: "sink_content s @ (case n of None \<Rightarrow> [] | Some q \<Rightarrow> [q]) = concat (sk_taken s) @ concat (sk_chan s) @ xs"
    using assms False by (simp add: sink_content_def sink_inv_def xs_def)
  consider "length xs = fcmSendAllBatchSize" | "length xs < fcmSendAllBatchSize" "late" "xs \<noteq> []"
    | "length xs < fcmSendAllBatchSize" "\<not> late \<or> xs = []" using len by linarith
  then show ?thesis
  proof cases
    case 1
    then have "xs \<noteq> []" using batch_size_pos by auto
    then have "accept now n s = (send_batches [xs] s2)\<lparr>bufferedNotifications := [], sk_resetAt := Some now\<rparr>"
      using full_batches_full [OF 1] 1 run batch_size_pos by (simp add: Let_def send_batches_def)
    then show ?thesis
      using s2 tiny content 1 batch_size_pos \<open>xs \<noteq> []\<close> by (simp add: sink_inv_def sink_content_def send_batches_def small_def)
  next
    case 2
    then have "accept now n s = (send_batches [xs] s2)\<lparr>bufferedNotifications := [], sk_resetAt := Some now\<rparr>"
      using full_batches_small [OF 2(1)] run by (simp add: Let_def send_batches_def)
    then show ?thesis
      using s2 tiny content 2 by (simp add: sink_inv_def sink_content_def send_batches_def small_def)
  next
    case 3
    then have "\<exists>t. accept now n s = s2\<lparr>sk_resetAt := t\<rparr>"
    proof (cases "late")
      case True
      then have "accept now n s = s2\<lparr>sk_resetAt := Some now\<rparr>" using 3 run by simp
      then show ?thesis by blast
    next
      case False
      then have "accept now n s = s2" using 3(1) run by simp
      then show ?thesis by (intro exI [of _ "sk_resetAt s2"]) simp
    qed
    then show ?thesis
      using s2 tiny content 3 by (auto simp: sink_inv_def sink_content_def)
  qed
qed

lemma take_next_inv: "sink_inv s \<Longrightarrow> sink_inv (take_next s) \<and> sink_content (take_next s) = sink_content s"
  by (auto simp: take_next_def sink_inv_def sink_content_def split: list.splits)

lemma stop_inv: "sink_inv s \<Longrightarrow> sink_inv (sink_stop now s) \<and> sink_content (sink_stop now s) = sink_content s"
  using full_batches_small [of "bufferedNotifications s"] batch_size_pos
  by (auto simp: sink_stop_def sink_inv_def sink_content_def send_batches_def small_def Let_def)

definition other_event :: "sink_event \<Rightarrow> sink \<Rightarrow> sink" where
  "other_event e s = (case e of Accept now q \<Rightarrow> s | _ \<Rightarrow> sink_do e s)"

lemma other_event_inv: "sink_inv s \<Longrightarrow> sink_inv (other_event e s) \<and> sink_content (other_event e s) = sink_content s"
  using accept_inv [of s _ None] take_next_inv [of s] stop_inv [of s]
  by (cases e) (auto simp: other_event_def monitor_tick_def)

interpretation sink_queue: batching "\<lambda>now q. accept now (Some q)" other_event sink_inv sink_content
  by unfold_locales (simp_all add: accept_inv other_event_inv)

section \<open>Properties\<close>

lemma new_sink_inv: "sink_inv new_sink" "sink_content new_sink = []"
  using batch_size_pos by (simp_all add: sink_inv_def sink_content_def new_sink_def)

fun as_batching :: "sink_event \<Rightarrow> int \<times> queued + sink_event" where
  "as_batching (Accept now q) = Inl (now, q)"
| "as_batching e = Inr e"

lemma sink_do_batching: "sink_do e = case_sum (\<lambda>(now, q). accept now (Some q)) other_event (as_batching e)"
  by (cases e) (auto simp: other_event_def fun_eq_iff)

text \<open>The notifications accepted by a sequence of events.\<close>

definition sent_by :: "sink_event list \<Rightarrow> queued list" where
  "sent_by es = concat (map (\<lambda>e. case e of Accept now q \<Rightarrow> [q] | _ \<Rightarrow> []) es)"

lemma sink_run:
  "sink_inv (fold sink_do es new_sink) \<and> sink_content (fold sink_do es new_sink) = sent_by es"
proof -
  let ?f = "case_sum (\<lambda>(now, q). accept now (Some q)) other_event"
  have "fold sink_do es s = fold ?f (map as_batching es) s" for s
    by (induction es arbitrary: s) (simp_all add: sink_do_batching)
  moreover have "concat (map (case_sum (\<lambda>(t, x). [x]) (\<lambda>_. [])) (map as_batching es)) = sent_by es"
  proof (induction es)
    case Nil
    then show ?case by (simp add: sent_by_def)
  next
    case (Cons e es)
    then show ?case by (cases e) (simp_all add: sent_by_def)
  qed
  ultimately show ?thesis
    using sink_queue.run_invar [OF new_sink_inv(1), of "map as_batching es"]
      sink_queue.run_content [OF new_sink_inv(1), of "map as_batching es"] new_sink_inv(2) by simp
qed

text \<open>
  C5. Whatever is sent to the sink and however ticks, processing goroutines and shutdown interleave, nothing is lost, repeated or
  reordered: the batches taken, the batches in the channel, the buffer, and what was processed alone after closing make up exactly
  the notifications sent, in order; every batch has between 1 and 500 notifications and fewer than 500 are buffered; and when the
  sink is closed everything sent has been handed out.
\<close>

theorem sink_loses_nothing:
  fixes es :: "sink_event list"
  defines "s \<equiv> fold sink_do es new_sink"
  shows "concat (sk_taken s) @ concat (sk_chan s) @ bufferedNotifications s @ sk_direct s = sent_by es \<and>
    (\<forall>b \<in> set (sk_taken s @ sk_chan s). 1 \<le> length b \<and> length b \<le> 500) \<and>
    length (bufferedNotifications s) < 500 \<and>
    (sk_closed s \<longrightarrow> concat (sk_taken s) @ sk_direct s = sent_by es)"
proof -
  have s: "sink_inv s" "sink_content s = sent_by es" using sink_run [of es] by (simp_all add: s_def)
  then have "\<forall>b \<in> set (sk_taken s @ sk_chan s). small b" by (simp add: sink_inv_def)
  then have "\<forall>b \<in> set (sk_taken s @ sk_chan s). 1 \<le> length b \<and> length b \<le> 500"
    by (auto simp: small_def fcmSendAllBatchSize_def Suc_le_eq)
  moreover have "length (bufferedNotifications s) < 500"
    using s(1) by (simp add: sink_inv_def fcmSendAllBatchSize_def)
  moreover have "sk_closed s \<longrightarrow> sk_chan s = [] \<and> bufferedNotifications s = []" using s(1) by (simp add: sink_inv_def)
  ultimately show ?thesis using s(2) unfolding sink_content_def by auto
qed

theorem sink_loses_nothing_witness:
  "let s = fold sink_do [Accept 0 (toy_queued ''a'' 1), Tick 2000000000, Accept 2000000001 (toy_queued ''b'' 2), Stop 3000000000] new_sink
   in concat (sk_taken s) @ sk_direct s = [toy_queued ''a'' 1, toy_queued ''b'' 2] \<and> sk_closed s"
proof -
  define es where "es = [Accept 0 (toy_queued ''a'' 1), Tick 2000000000, Accept 2000000001 (toy_queued ''b'' 2), Stop 3000000000]"
  have closed: "sk_closed (fold sink_do es new_sink)"
    by (simp add: es_def sink_stop_def Let_def)
  from sink_loses_nothing [of es] closed show ?thesis by (simp add: es_def sent_by_def Let_def)
qed

end
