(* ===== verification/Rest_Client.thy ===== *)
theory Rest_Client
  imports Go_Errors
begin

text \<open>
  What the clients of web services share: settings that come from the environment when the configuration has none, and the HTTP
  client (\<open>imroc/req\<close>), whose requests are retried by itself. A request is a function of the world; what arrives in the end is an
  error or a response with its status and its body, which may fail to be read.
\<close>

text \<open>\<open>strings.TrimSpace\<close> on the ASCII white space.\<close>

definition is_white :: "char \<Rightarrow> bool" where
  "is_white c \<longleftrightarrow> c \<in> {CHR '' '', CHR 0x09, CHR 0x0A, CHR 0x0B, CHR 0x0C, CHR 0x0D}"

definition trim_space :: "string \<Rightarrow> string" where
  "trim_space s = rev (dropWhile is_white (rev (dropWhile is_white s)))"

text \<open>The prefix of an application's own environment variables.\<close>

definition env_module :: "string \<Rightarrow> string" where
  "env_module key = to_upper (replace_all (replace_all key ''-'' ''_'') ''/'' ''_'')"

text \<open>A setting that is missing in the configuration (by the test \<open>none\<close>) is taken from the application's own variable, and
  if that is missing too, from the shared one.\<close>

definition env_setting :: "(string \<Rightarrow> bool) \<Rightarrow> (string \<Rightarrow> string) \<Rightarrow> string \<Rightarrow> string \<Rightarrow> string \<Rightarrow> string" where
  "env_setting none getenv key name configured =
     (if none configured
      then (let own = getenv (env_module key @ ''_'' @ name) in if none own then getenv name else own)
      else configured)"

lemma env_setting_configured: "\<not> none configured \<Longrightarrow> env_setting none getenv key name configured = configured"
  by (simp add: env_setting_def)

record http_reply =
  hr_Status :: int
  hr_Body :: "goerr + string"

text \<open>\<open>IsSuccessState\<close> and \<open>IsErrorState\<close>.\<close>

definition is_success :: "http_reply \<Rightarrow> bool" where
  "is_success r \<longleftrightarrow> 200 \<le> hr_Status r \<and> hr_Status r \<le> 299"

definition is_error_state :: "http_reply \<Rightarrow> bool" where
  "is_error_state r \<longleftrightarrow> 399 < hr_Status r"

end
