(* ===== verification/Push_Client.thy ===== *)
theory Push_Client
  imports Push_Sink Decimal Rest_Client
begin

text \<open>
  The push client (\<open>notifications/push/push.go\<close>): its configuration from files and the environment, sending directly or
  through the sink, broadcasting to a topic, and the payloads of delayed notifications.
\<close>

section \<open>Configuration\<close>

record push_config =
  FilePath :: string
  FileContent :: string
  Concurrency :: int
  BufferingEnabled :: bool

text \<open>The first nonempty one of the module's variable, the shared variable, and Google's own if it has the right form.\<close>

definition from_env :: "(string \<Rightarrow> string) \<Rightarrow> string \<Rightarrow> string \<Rightarrow> (string \<Rightarrow> bool) \<Rightarrow> string" where
  "from_env getenv key suffix google_ok =
     (let v1 = getenv (env_module key @ ''_PUSH_NOTIFICATIONS_CREDENTIALS_'' @ suffix);
          v2 = (if v1 = '''' then getenv (''PUSH_NOTIFICATIONS_CREDENTIALS_'' @ suffix) else v1)
      in if v2 = ''''
         then (let g = getenv ''GOOGLE_APPLICATION_CREDENTIALS'' in if google_ok g then g else '''')
         else v2)"

definition is_json_text :: "string \<Rightarrow> bool" where
  "is_json_text s \<longleftrightarrow> has_prefix (trim_space s) ''{''"

definition complete_push_config :: "(string \<Rightarrow> string) \<Rightarrow> int \<Rightarrow> string \<Rightarrow> push_config \<Rightarrow> push_config" where
  "complete_push_config getenv procs key cfg =
     (let cfg1 = (if FileContent cfg = '''' then cfg\<lparr>FileContent := from_env getenv key ''FILE_CONTENT'' is_json_text\<rparr> else cfg);
          cfg2 = (if FilePath cfg1 = '''' then cfg1\<lparr>FilePath := from_env getenv key ''FILE_PATH'' (\<lambda>s. \<not> is_json_text s)\<rparr> else cfg1)
      in if Concurrency cfg2 = 0 then cfg2\<lparr>Concurrency := 2 * procs\<rparr> else cfg2)"

datatype credentials_option = NoCredentials | CredentialsJSON string | CredentialsFile string

definition credentials_of :: "push_config \<Rightarrow> credentials_option" where
  "credentials_of cfg =
     (if FilePath cfg \<noteq> '''' then CredentialsFile (FilePath cfg)
      else if FileContent cfg \<noteq> '''' then CredentialsJSON (FileContent cfg)
      else NoCredentials)"

section \<open>The client\<close>

text \<open>\<open>processors\<close>: how many processing goroutines run; \<open>monitored\<close>: whether the ticker runs.\<close>

record push =
  p_cfg :: push_config
  p_key :: string
  p_sink :: sink
  p_chan_size :: int
  processors :: int
  monitored :: bool

text \<open>\<open>send\<close>: an invalid token is reported as such, any other error is wrapped.\<close>

definition push_send :: "'w fcm \<Rightarrow> fcm_message \<Rightarrow> 'w \<Rightarrow> err \<times> 'w" where
  "push_send X m w = (case fcm_Send X m w of
     (Some e, w1) \<Rightarrow> ((if bad_token X e then Some ErrInvalidDeviceToken else Some (Wrapped ''fcm send failed'' e)), w1)
   | (None, w1) \<Rightarrow> (None, w1))"

text \<open>\<open>Send\<close>: what the responder is sent right away (by the caller or by the goroutine of the direct mode), and the new
  state. In the buffered mode the sink takes over, or the notification is processed at once when the sink is closed.\<close>

datatype send_result = Answer "nat option" err | Buffered | Answers "(nat option \<times> err) list"

definition Send :: "(notificationBatch \<times> 'w) retrier \<Rightarrow> 'w fcm \<Rightarrow> int \<Rightarrow> string push_notification \<Rightarrow> nat option \<Rightarrow>
    push \<times> 'w \<Rightarrow> (send_result \<times> push \<times> 'w) outcome" where
  "Send R X now n responder = (\<lambda>(p, w).
     if ctx_Err X w \<noteq> None then Ret (Answer responder (wrap_err ''context error'' (ctx_Err X w)), p, w)
     else if \<not> BufferingEnabled (p_cfg p)
     then (case push_send X (device_message n) w of (e, w1) \<Rightarrow> Ret (Answer responder e, p, w1))
     else
       (let q = \<lparr>q_notification = n, q_responder = responder\<rparr>;
            p1 = p\<lparr>p_sink := accept now (Some q) (p_sink p)\<rparr>
        in if sk_closed (p_sink p)
           then obind (process R X (p_key p) [q] w) (\<lambda>(answers, b, w1). Ret (Answers answers, p1, w1))
           else Ret (Buffered, p1, w)))"

definition push_Close :: "int \<Rightarrow> push \<Rightarrow> err \<times> push" where
  "push_Close now p = (None, p\<lparr>p_sink := sink_stop now (p_sink p)\<rparr>)"

section \<open>Starting\<close>

text \<open>\<open>newClient\<close> sends a notification to a random device token; only the answer that the token is invalid proves that FCM
  can be reached. \<open>probe\<close> is what arrives on its responder.\<close>

definition probe_ok :: "err \<Rightarrow> bool" where
  "probe_ok e \<longleftrightarrow> e \<noteq> None \<and> is_err e (Some ErrInvalidDeviceToken)"

definition newClient :: "string \<Rightarrow> push_config \<Rightarrow> (push \<Rightarrow> 'w \<Rightarrow> err \<times> push \<times> 'w) \<Rightarrow> 'w \<Rightarrow> (push \<times> 'w) outcome" where
  "newClient key cfg probe w =
     (let p = \<lparr>p_cfg = cfg, p_key = key, p_sink = new_sink, p_chan_size = Concurrency cfg * 10,
               processors = (if BufferingEnabled cfg then max 0 (Concurrency cfg) else 0), monitored = BufferingEnabled cfg\<rparr>
      in if p_chan_size p < 0 then Panic
         else (case probe p w of (e, p1, w1) \<Rightarrow> if probe_ok e then Ret (p1, w1) else Panic))"

text \<open>\<open>new_app\<close> is Firebase's; any error panics.\<close>

definition push_New ::
    "(string \<Rightarrow> string) \<Rightarrow> int \<Rightarrow> (credentials_option \<Rightarrow> 'w \<Rightarrow> err \<times> 'w) \<Rightarrow> string \<Rightarrow> push_config \<Rightarrow>
     (push \<Rightarrow> 'w \<Rightarrow> err \<times> push \<times> 'w) \<Rightarrow> 'w \<Rightarrow> (push \<times> 'w) outcome" where
  "push_New getenv procs new_app key loaded probe w =
     (let cfg = complete_push_config getenv procs key loaded in
      case new_app (credentials_of cfg) w of
        (Some e, w1) \<Rightarrow> Panic
      | (None, w1) \<Rightarrow> newClient key cfg probe w1)"

section \<open>Broadcasting\<close>

definition topic_message :: "string push_notification \<Rightarrow> fcm_message" where
  "topic_message n = \<lparr>fm_Data = pn_Data n, fm_Token = [], fm_Topic = pn_Target n, fm_Title = pn_Title n,
     fm_Body = pn_Body n, fm_ImageURL = pn_ImageURL n\<rparr>"

definition broadcast_text :: "string \<Rightarrow> string" where
  "broadcast_text key = ''['' @ key @ ''] permanently failed to broadcast''"

definition Broadcast :: "'w retrier \<Rightarrow> 'w fcm \<Rightarrow> string \<Rightarrow> string push_notification \<Rightarrow> 'w \<Rightarrow> err outcome \<times> 'w" where
  "Broadcast R X key n w =
     (case R (\<lambda>w. apfst plain (fcm_Send X (topic_message n) w)) w of
        (Panic, w1) \<Rightarrow> (Panic, w1)
      | (Ret e, w1) \<Rightarrow> (Ret (wrap_err (broadcast_text key) e), w1))"

record delayed_notification =
  dn_notification :: "string push_notification"
  MinDelaySec :: "64 word"
  MaxDelaySec :: "64 word"

record android_config =
  ac_Data :: "string \<Rightarrow> string option"
  ac_Priority :: string

record apple_config =
  ap_AlertString :: string
  ap_Title :: string
  ap_Body :: string
  ap_ImageURL :: string

definition buildAndroidDataOnlyNotification :: "delayed_notification \<Rightarrow> android_config" where
  "buildAndroidDataOnlyNotification n = \<lparr>ac_Data = (pn_Data (dn_notification n))
       (''title'' \<mapsto> pn_Title (dn_notification n), ''body'' \<mapsto> pn_Body (dn_notification n),
        ''imageUrl'' \<mapsto> pn_ImageURL (dn_notification n), ''type'' \<mapsto> ''delayed'',
        ''minDelaySec'' \<mapsto> dec_string (unat (MinDelaySec n)), ''maxDelaySec'' \<mapsto> dec_string (unat (MaxDelaySec n))),
     ac_Priority = ''high''\<rparr>"

definition buildAppleNotification :: "delayed_notification \<Rightarrow> apple_config" where
  "buildAppleNotification n = \<lparr>ap_AlertString = '''', ap_Title = pn_Title (dn_notification n), ap_Body = pn_Body (dn_notification n),
     ap_ImageURL = pn_ImageURL (dn_notification n)\<rparr>"

text \<open>A delayed message has no FCM notification of its own but the two payloads; \<open>send_delayed\<close> sends it.\<close>

definition BroadcastDelayed ::
    "'w retrier \<Rightarrow> ((string \<Rightarrow> string option) \<Rightarrow> android_config \<Rightarrow> apple_config \<Rightarrow> string \<Rightarrow> 'w \<Rightarrow> err \<times> 'w) \<Rightarrow> string \<Rightarrow>
     delayed_notification \<Rightarrow> 'w \<Rightarrow> err outcome \<times> 'w" where
  "BroadcastDelayed R send_delayed key n w =
     (case R (\<lambda>w. apfst plain (send_delayed (pn_Data (dn_notification n)) (buildAndroidDataOnlyNotification n)
              (buildAppleNotification n) (pn_Target (dn_notification n)) w)) w of
        (Panic, w1) \<Rightarrow> (Panic, w1)
      | (Ret e, w1) \<Rightarrow> (Ret (wrap_err (''['' @ key @ ''] permanently failed to broadcast delayed notification'') e), w1))"

section \<open>Lemmas\<close>

text \<open>The fields of a delayed notification override the sender's data, which is otherwise kept.\<close>

lemma android_data:
  "k \<notin> {''title'', ''body'', ''imageUrl'', ''type'', ''minDelaySec'', ''maxDelaySec''} \<Longrightarrow>
     ac_Data (buildAndroidDataOnlyNotification n) k = pn_Data (dn_notification n) k"
  by (simp add: buildAndroidDataOnlyNotification_def)

text \<open>A direct send answers the responder exactly once.\<close>

lemma Send_direct:
  assumes "\<not> BufferingEnabled (p_cfg p)"
  shows "\<exists>e w1. Send R X now n responder (p, w) = Ret (Answer responder e, p, w1)"
  using assms by (auto simp: Send_def split: prod.splits)

end
