(* ===== verification/Auth_Ice.thy ===== *)
theory Auth_Ice
  imports Go_Errors Decimal
begin

text \<open>
  Tokens signed by the application itself (\<open>auth/internal/ice\<close>): generating refresh, access and metadata tokens, verifying
  them, and recognising them. The JWT library is the parameter \<open>jwt_lib\<close>. Times are nanoseconds; a token carries seconds.
\<close>

section \<open>Data\<close>

text \<open>A value of type \<open>any\<close> as found in claims.\<close>

datatype claim_value = AStr string | ANum int | ABool bool | AMap "(string \<times> claim_value) list" | ANil | AOther string

type_synonym claims = "string \<Rightarrow> claim_value option"

definition RefreshJwtIssuer :: string where "RefreshJwtIssuer = ''ice.io/refresh''"
definition AccessJwtIssuer :: string where "AccessJwtIssuer = ''ice.io/access''"
definition MetadataIssuer :: string where "MetadataIssuer = ''ice.io/metadata''"
definition RegisteredWithProviderClaim :: string where "RegisteredWithProviderClaim = ''registeredWithProvider''"
definition ProviderFirebase :: string where "ProviderFirebase = ''firebase''"
definition ProviderIce :: string where "ProviderIce = ''ice''"
definition FirebaseIDClaim :: string where "FirebaseIDClaim = ''firebaseId''"
definition IceIDClaim :: string where "IceIDClaim = ''iceId''"

lemmas auth_names = RefreshJwtIssuer_def AccessJwtIssuer_def MetadataIssuer_def RegisteredWithProviderClaim_def
  ProviderFirebase_def ProviderIce_def FirebaseIDClaim_def IceIDClaim_def

definition ErrInvalidToken :: goerr where "ErrInvalidToken = Sentinel ''invalid token''"
definition ErrExpiredToken :: goerr where "ErrExpiredToken = Sentinel ''expired token''"
definition ErrWrongTypeToken :: goerr where "ErrWrongTypeToken = Sentinel ''wrong type token''"
definition ErrTokenExpired :: goerr where "ErrTokenExpired = Sentinel ''token is expired''"
definition ErrTokenNotValidYet :: goerr where "ErrTokenNotValidYet = Sentinel ''token is not valid yet''"

text \<open>\<open>jwt.RegisteredClaims\<close>, embedded as a pointer: decoding leaves it nil when a token has none of them.\<close>

record registered_claims =
  Issuer :: string
  Subject :: string
  ExpiresAt :: int
  NotBefore :: int
  IssuedAt :: int

record ice_token =
  t_Registered :: "registered_claims option"
  t_Claims :: claims
  t_Role :: string
  t_Email :: string
  t_DeviceUniqueID :: string
  t_HashCode :: int
  t_Seq :: int

text \<open>What the rest of an application sees of a verified token (\<open>auth/internal\<close>).\<close>

record auth_token =
  a_Claims :: claims
  a_UserID :: string
  a_Role :: string
  a_Email :: string
  a_Provider :: string

definition IsIce :: "auth_token \<Rightarrow> bool" where
  "IsIce t \<longleftrightarrow> a_Provider t = ProviderIce"

definition IsFirebase :: "auth_token \<Rightarrow> bool" where
  "IsFirebase t \<longleftrightarrow> a_Provider t = ProviderFirebase"

record 'c parsed_jwt =
  pj_hmac :: bool
  pj_alg :: string
  pj_claims :: 'c

text \<open>\<open>jwt_ParseToken text keyfunc now\<close> is \<open>ParseWithClaims\<close> into a \<open>Token\<close>, \<open>jwt_ParseMap\<close> into \<open>MapClaims\<close>.\<close>

record jwt_lib =
  jwt_Sign :: "ice_token \<Rightarrow> string \<Rightarrow> goerr + string"
  jwt_SignMap :: "claims \<Rightarrow> string \<Rightarrow> goerr + string"
  jwt_ParseUnverified :: "string \<Rightarrow> goerr + ice_token parsed_jwt"
  jwt_ParseToken :: "string \<Rightarrow> (ice_token parsed_jwt \<Rightarrow> (goerr + string) outcome) \<Rightarrow> int \<Rightarrow> (goerr + ice_token) outcome"
  jwt_ParseMap :: "string \<Rightarrow> (claims parsed_jwt \<Rightarrow> (goerr + string) outcome) \<Rightarrow> int \<Rightarrow> (goerr + claims) outcome"

record ice_config =
  JWTSecret :: string
  RefreshExpirationTime :: int
  AccessExpirationTime :: int

text \<open>\<open>errors.Wrap\<close> of the error of a result.\<close>

definition wrap_result :: "string \<Rightarrow> goerr + 'a \<Rightarrow> goerr + 'a" where
  "wrap_result m r = (case r of Inl e \<Rightarrow> Inl (Wrapped m e) | Inr x \<Rightarrow> Inr x)"

lemma wrap_result_simps [simp]: "wrap_result m (Inl e) = Inl (Wrapped m e)" "wrap_result m (Inr x) = Inr x"
  by (simp_all add: wrap_result_def)

section \<open>Verifying\<close>

definition loadSecretForJWT :: "(string \<Rightarrow> string) \<Rightarrow> string \<Rightarrow> ice_config \<Rightarrow> ice_config" where
  "loadSecretForJWT getenv key cfg =
     (if JWTSecret cfg \<noteq> '''' then cfg
      else
        (let s = getenv (to_upper (replace_all (replace_all key ''-'' ''_'') ''/'' ''_'') @ ''_JWT_SECRET'')
         in cfg\<lparr>JWTSecret := (if s = '''' then getenv ''JWT_SECRET'' else s)\<rparr>))"

definition is_hs256 :: "'c parsed_jwt \<Rightarrow> bool" where
  "is_hs256 p \<longleftrightarrow> pj_hmac p \<and> pj_alg p = ''HS256''"

text \<open>\<open>GetIssuer\<close>: promoted from the embedded pointer, so a nil one is dereferenced; in a map the claim may be absent or no text.\<close>

definition token_issuer :: "ice_token \<Rightarrow> (goerr + string) outcome" where
  "token_issuer c = (case t_Registered c of None \<Rightarrow> Panic | Some r \<Rightarrow> Ret (Inr (Issuer r)))"

definition map_issuer :: "claims \<Rightarrow> (goerr + string) outcome" where
  "map_issuer c = (case c ''iss'' of
     None \<Rightarrow> Ret (Inr '''')
   | Some (AStr s) \<Rightarrow> Ret (Inr s)
   | Some v \<Rightarrow> Ret (Inl (Sentinel ''iss is invalid'')))"

definition unexpected_method :: "'c parsed_jwt \<Rightarrow> goerr" where
  "unexpected_method p = Sentinel (''unexpected signing method: '' @ pj_alg p)"

text \<open>The key function: HS256 and one of the three issuers.\<close>

definition verify :: "ice_config \<Rightarrow> ('c \<Rightarrow> (goerr + string) outcome) \<Rightarrow> 'c parsed_jwt \<Rightarrow> (goerr + string) outcome" where
  "verify cfg get_issuer p =
     (if \<not> is_hs256 p then Ret (Inl (unexpected_method p))
      else obind (get_issuer (pj_claims p)) (\<lambda>r. case r of
          Inl e \<Rightarrow> Ret (Inl (Wrapped ''invalid issuer:'' ErrInvalidToken))
        | Inr iss \<Rightarrow>
            (if iss \<noteq> AccessJwtIssuer \<and> iss \<noteq> RefreshJwtIssuer \<and> iss \<noteq> MetadataIssuer
             then Ret (Inl (Wrapped (''invalid issuer:'' @ iss) ErrInvalidToken))
             else Ret (Inr (JWTSecret cfg)))))"

definition fields_error :: "string \<Rightarrow> goerr \<Rightarrow> goerr" where
  "fields_error jwt e =
     (if errors_is e ErrTokenExpired \<or> errors_is e ErrTokenNotValidYet
      then Wrapped ''expired or not valid yet token'' ErrExpiredToken
      else Wrapped (''invalid token:'' @ jwt) e)"

definition map_error :: "(goerr \<Rightarrow> goerr) \<Rightarrow> goerr + 'a \<Rightarrow> goerr + 'a" where
  "map_error f r = (case r of Inl e \<Rightarrow> Inl (f e) | Inr x \<Rightarrow> Inr x)"

definition VerifyTokenFields :: "ice_config \<Rightarrow> jwt_lib \<Rightarrow> int \<Rightarrow> string \<Rightarrow> (goerr + ice_token) outcome" where
  "VerifyTokenFields cfg J now jwt = omap (map_error (fields_error jwt)) (jwt_ParseToken J jwt (verify cfg token_issuer) now)"

definition VerifyTokenFields_map :: "ice_config \<Rightarrow> jwt_lib \<Rightarrow> int \<Rightarrow> string \<Rightarrow> (goerr + claims) outcome" where
  "VerifyTokenFields_map cfg J now jwt = omap (map_error (fields_error jwt)) (jwt_ParseMap J jwt (verify cfg map_issuer) now)"

text \<open>Extra claims do not replace the token's own.\<close>

definition own_claims :: "ice_token \<Rightarrow> claims" where
  "own_claims t = [''email'' \<mapsto> AStr (t_Email t), ''role'' \<mapsto> AStr (t_Role t), ''seq'' \<mapsto> ANum (t_Seq t),
     ''hashCode'' \<mapsto> ANum (t_HashCode t), ''deviceUniqueID'' \<mapsto> AStr (t_DeviceUniqueID t)]"

definition ice_VerifyToken :: "ice_config \<Rightarrow> jwt_lib \<Rightarrow> int \<Rightarrow> string \<Rightarrow> (goerr + auth_token) outcome" where
  "ice_VerifyToken cfg J now jwt =
     obind (VerifyTokenFields cfg J now jwt) (\<lambda>r. case r of
       Inl e \<Rightarrow> Ret (Inl (Wrapped ''invalid token'' e))
     | Inr t \<Rightarrow>
         (case t_Registered t of
            None \<Rightarrow> Panic
          | Some reg \<Rightarrow>
              (if Issuer reg \<noteq> AccessJwtIssuer
               then Ret (Inl (Wrapped (''access to endpoint with refresh token: '' @ Issuer reg) ErrWrongTypeToken))
               else Ret (Inr \<lparr>a_Claims = map_add (t_Claims t) (own_claims t), a_UserID = Subject reg, a_Role = t_Role t,
                             a_Email = t_Email t, a_Provider = ProviderIce\<rparr>))))"

definition DetectIceToken :: "jwt_lib \<Rightarrow> string \<Rightarrow> (goerr + ice_token) outcome" where
  "DetectIceToken J jwt = (case jwt_ParseUnverified J jwt of
     Inl e \<Rightarrow> Ret (Inl (Wrapped (''parse unverified error for token:'' @ jwt) e))
   | Inr p \<Rightarrow>
       (if \<not> is_hs256 p then Ret (Inl (Sentinel (''unexpected signing method:'' @ pj_alg p)))
        else obind (token_issuer (pj_claims p)) (\<lambda>r. case r of
            Inl e \<Rightarrow> Ret (Inl (Wrapped ''invalid issuer:'' ErrInvalidToken))
          | Inr iss \<Rightarrow>
              (if iss \<noteq> AccessJwtIssuer \<and> iss \<noteq> RefreshJwtIssuer
               then Ret (Inl (Wrapped (''invalid issuer:'' @ iss) ErrInvalidToken))
               else Ret (Inr (pj_claims p))))))"

section \<open>Generating\<close>

definition numeric_date :: "int \<Rightarrow> int" where
  "numeric_date t = t div 1000000000"

definition registered_for :: "string \<Rightarrow> string \<Rightarrow> int \<Rightarrow> int \<Rightarrow> registered_claims" where
  "registered_for issuer user now ttl = \<lparr>Issuer = issuer, Subject = user, ExpiresAt = numeric_date (now + ttl),
     NotBefore = numeric_date now, IssuedAt = numeric_date now\<rparr>"

definition refresh_claims :: "ice_config \<Rightarrow> int \<Rightarrow> string \<Rightarrow> string \<Rightarrow> string \<Rightarrow> int \<Rightarrow> claims \<Rightarrow> ice_token" where
  "refresh_claims cfg now user device email sq extra =
     \<lparr>t_Registered = Some (registered_for RefreshJwtIssuer user now (RefreshExpirationTime cfg)), t_Claims = extra, t_Role = '''',
      t_Email = email, t_DeviceUniqueID = device, t_HashCode = 0, t_Seq = sq\<rparr>"

definition generateRefreshToken ::
    "ice_config \<Rightarrow> jwt_lib \<Rightarrow> int \<Rightarrow> string \<Rightarrow> string \<Rightarrow> string \<Rightarrow> int \<Rightarrow> claims \<Rightarrow> goerr + string" where
  "generateRefreshToken cfg J now user device email sq extra =
     wrap_result (''failed to generate refresh token for userID:'' @ user)
       (jwt_Sign J (refresh_claims cfg now user device email sq extra) (JWTSecret cfg))"

definition access_claims ::
    "ice_config \<Rightarrow> int \<Rightarrow> int \<Rightarrow> int \<Rightarrow> string \<Rightarrow> string \<Rightarrow> string \<Rightarrow> string \<Rightarrow> claims \<Rightarrow> ice_token" where
  "access_claims cfg now sq hash user device email role extra =
     \<lparr>t_Registered = Some (registered_for AccessJwtIssuer user now (AccessExpirationTime cfg)), t_Claims = extra, t_Role = role,
      t_Email = email, t_DeviceUniqueID = device, t_HashCode = hash, t_Seq = sq\<rparr>"

definition generateAccessToken ::
    "ice_config \<Rightarrow> jwt_lib \<Rightarrow> int \<Rightarrow> int \<Rightarrow> int \<Rightarrow> string \<Rightarrow> string \<Rightarrow> string \<Rightarrow> string \<Rightarrow> claims \<Rightarrow> goerr + string" where
  "generateAccessToken cfg J now sq hash user device email role extra =
     wrap_result (''failed to generate access token for userID:'' @ user)
       (jwt_Sign J (access_claims cfg now sq hash user device email role extra) (JWTSecret cfg))"

text \<open>The result is the refresh token and the access token, in this order.\<close>

definition ice_GenerateTokens ::
    "ice_config \<Rightarrow> jwt_lib \<Rightarrow> int \<Rightarrow> string \<Rightarrow> string \<Rightarrow> string \<Rightarrow> int \<Rightarrow> int \<Rightarrow> string \<Rightarrow> claims \<Rightarrow> goerr + string \<times> string" where
  "ice_GenerateTokens cfg J now user device email hash sq role extra =
     (case generateRefreshToken cfg J now user device email sq extra of
        Inl e \<Rightarrow> Inl (Wrapped (''failed to generate jwt refreshToken for userID:'' @ user) e)
      | Inr refresh \<Rightarrow>
          (case generateAccessToken cfg J now sq hash user device email role extra of
             Inl e \<Rightarrow> Inl (Wrapped (''failed to generate jwt accessToken for userID:'' @ user) e)
           | Inr access \<Rightarrow> Inr (refresh, access)))"

text \<open>The caller's map is updated in place.\<close>

definition metadata_claims :: "int \<Rightarrow> string \<Rightarrow> claims \<Rightarrow> claims" where
  "metadata_claims now tokenID metadata =
     metadata(''sub'' \<mapsto> AStr tokenID, ''iss'' \<mapsto> AStr MetadataIssuer, ''iat'' \<mapsto> ANum (numeric_date now))"

definition ice_GenerateMetadata :: "ice_config \<Rightarrow> jwt_lib \<Rightarrow> int \<Rightarrow> string \<Rightarrow> claims \<Rightarrow> (goerr + string) \<times> claims" where
  "ice_GenerateMetadata cfg J now tokenID metadata =
     (let m = metadata_claims now tokenID metadata
      in (wrap_result (''failed to generate metadata token for payload tokenID:'' @ tokenID) (jwt_SignMap J m (JWTSecret cfg)), m))"

section \<open>Lemmas\<close>

text \<open>What is relied on of the JWT library: a signed token parses back to its claims; with its own key it is valid between
  its dates, and expired afterwards.\<close>

definition signed :: "'c \<Rightarrow> 'c parsed_jwt" where
  "signed c = \<lparr>pj_hmac = True, pj_alg = ''HS256'', pj_claims = c\<rparr>"

definition jwt_ok :: "jwt_lib \<Rightarrow> bool" where
  "jwt_ok J \<longleftrightarrow> (\<forall>c key t. jwt_Sign J c key = Inr t \<longrightarrow>
     jwt_ParseUnverified J t = Inr (signed c) \<and>
     (\<forall>keyfunc now reg. keyfunc (signed c) = Ret (Inr key) \<longrightarrow> t_Registered c = Some reg \<longrightarrow>
        (NotBefore reg * 1000000000 \<le> now \<and> now < ExpiresAt reg * 1000000000 \<longrightarrow> jwt_ParseToken J t keyfunc now = Ret (Inr c)) \<and>
        (ExpiresAt reg * 1000000000 \<le> now \<longrightarrow> (\<exists>e. jwt_ParseToken J t keyfunc now = Ret (Inl e) \<and> errors_is e ErrTokenExpired))))"

lemma jwt_okD:
  assumes "jwt_ok J" and "jwt_Sign J c key = Inr t"
  shows "jwt_ParseUnverified J t = Inr (signed c)"
    and "keyfunc (signed c) = Ret (Inr key) \<Longrightarrow> t_Registered c = Some reg \<Longrightarrow>
      NotBefore reg * 1000000000 \<le> now \<Longrightarrow> now < ExpiresAt reg * 1000000000 \<Longrightarrow> jwt_ParseToken J t keyfunc now = Ret (Inr c)"
    and "keyfunc (signed c) = Ret (Inr key) \<Longrightarrow> t_Registered c = Some reg \<Longrightarrow> ExpiresAt reg * 1000000000 \<le> now \<Longrightarrow>
      \<exists>e. jwt_ParseToken J t keyfunc now = Ret (Inl e) \<and> errors_is e ErrTokenExpired"
  using assms unfolding jwt_ok_def by blast+

lemma verify_signed:
  assumes "t_Registered c = Some reg" and "Issuer reg \<in> {AccessJwtIssuer, RefreshJwtIssuer}"
  shows "verify cfg token_issuer (signed c) = Ret (Inr (JWTSecret cfg))"
  using assms by (auto simp: verify_def signed_def is_hs256_def token_issuer_def)

lemma detect_signed:
  assumes "jwt_ok J" and "jwt_Sign J c key = Inr t" and "t_Registered c = Some reg" and "Issuer reg \<in> {AccessJwtIssuer, RefreshJwtIssuer}"
  shows "DetectIceToken J t = Ret (Inr c)"
  using jwt_okD(1) [OF assms(1,2)] assms(3,4) by (auto simp: DetectIceToken_def signed_def is_hs256_def token_issuer_def)

lemma verify_token_signed:
  assumes "jwt_ok J" and "jwt_Sign J c (JWTSecret cfg) = Inr t" and "t_Registered c = Some reg"
    and "Issuer reg \<in> {AccessJwtIssuer, RefreshJwtIssuer}"
  shows "NotBefore reg * 1000000000 \<le> now \<Longrightarrow> now < ExpiresAt reg * 1000000000 \<Longrightarrow> VerifyTokenFields cfg J now t = Ret (Inr c)"
    and "ExpiresAt reg * 1000000000 \<le> now \<Longrightarrow>
      VerifyTokenFields cfg J now t = Ret (Inl (Wrapped ''expired or not valid yet token'' ErrExpiredToken))"
  using jwt_okD(2,3) [where keyfunc = "verify cfg token_issuer", OF assms(1,2) verify_signed [OF assms(3,4)] assms(3), of now]
  by (auto simp: VerifyTokenFields_def map_error_def fields_error_def)

end
