(* ===== verification/Auth.thy ===== *)
theory Auth
  imports Auth_Ice
begin

text \<open>
  The authentication client (\<open>auth/auth.go\<close>) and its Firebase half (\<open>auth/internal/firebase\<close>): which of the two verifies a
  token, what a metadata token may change, and the user operations. The Firebase SDK and the map merging library are parameters.
\<close>

section \<open>Firebase\<close>

definition ErrUserNotFound :: goerr where "ErrUserNotFound = Sentinel ''user not found''"
definition ErrConflict :: goerr where "ErrConflict = Sentinel ''change conflicts with another user''"
definition ErrForbidden :: goerr where "ErrForbidden = Sentinel ''forbidden''"

record fb_token =
  fb_UID :: string
  fb_Claims :: claims
  fb_SignInProvider :: string

record fb_user =
  u_UID :: string
  u_CustomClaims :: claims

record 'w firebase_sdk =
  sdk_VerifyIDToken :: "string \<Rightarrow> 'w \<Rightarrow> (goerr + fb_token) \<times> 'w"
  sdk_GetUser :: "string \<Rightarrow> 'w \<Rightarrow> (goerr + fb_user) \<times> 'w"
  sdk_GetUserByEmail :: "string \<Rightarrow> 'w \<Rightarrow> (goerr + fb_user) \<times> 'w"
  sdk_SetCustomUserClaims :: "string \<Rightarrow> claims \<Rightarrow> 'w \<Rightarrow> err \<times> 'w"
  sdk_UpdateEmail :: "string \<Rightarrow> string \<Rightarrow> 'w \<Rightarrow> err \<times> 'w"
  sdk_DeleteUser :: "string \<Rightarrow> 'w \<Rightarrow> err \<times> 'w"
  sdk_ctx :: "'w \<Rightarrow> err"
  sdk_Merge :: "claims \<Rightarrow> claims \<Rightarrow> goerr + claims"

definition str_claim :: "string \<Rightarrow> claims \<Rightarrow> string" where
  "str_claim k c = (case c k of Some (AStr s) \<Rightarrow> s | _ \<Rightarrow> '''')"

definition fb_VerifyToken :: "'w firebase_sdk \<Rightarrow> bool \<Rightarrow> string \<Rightarrow> 'w \<Rightarrow> (goerr + auth_token) \<times> 'w" where
  "fb_VerifyToken S allowEmailPassword token w = (case sdk_VerifyIDToken S token w of
       (Inl e, w1) \<Rightarrow> (Inl (Wrapped ''error verifying firebase token'' e), w1)
     | (Inr t, w1) \<Rightarrow>
         (if \<not> allowEmailPassword \<and> fb_SignInProvider t = ''password''
          then (Inl (Wrapped (fb_SignInProvider t @ '' sign_in_provider is not allowed'') ErrForbidden), w1)
          else (Inr \<lparr>a_Claims = fb_Claims t, a_UserID = fb_UID t, a_Role = str_claim ''role'' (fb_Claims t),
                    a_Email = str_claim ''email'' (fb_Claims t), a_Provider = ProviderFirebase\<rparr>, w1)))"

text \<open>A quoted text, as printed by \<open>%q\<close> when it has no special characters.\<close>

definition quoted :: "string \<Rightarrow> string" where
  "quoted s = [CHR 0x22] @ s @ [CHR 0x22]"

definition no_record :: string where
  "no_record = ''no user record found for the given identifier''"

definition fb_UpdateCustomClaims :: "'w firebase_sdk \<Rightarrow> string \<Rightarrow> claims \<Rightarrow> 'w \<Rightarrow> err \<times> 'w" where
  "fb_UpdateCustomClaims S userID customClaims w =
     (if sdk_ctx S w \<noteq> None then (wrap_err ''context failed'' (sdk_ctx S w), w)
      else (case sdk_GetUser S userID w of
          (Inl e, w1) \<Rightarrow>
            (if has_suffix (err_text e) (''no user exists with the uid: '' @ quoted userID) then (Some ErrUserNotFound, w1)
             else (Some (Wrapped (''failed to get current user for userID:`'' @ userID @ ''`'') e), w1))
        | (Inr user, w1) \<Rightarrow>
            (case sdk_Merge S customClaims (u_CustomClaims user) of
               Inl e \<Rightarrow> (Some (Wrapped ''failed to merge'' e), w1)
             | Inr merged \<Rightarrow>
                 (case sdk_SetCustomUserClaims S userID merged w1 of
                    (Some e, w2) \<Rightarrow>
                      (if has_suffix (err_text e) no_record then (Some ErrUserNotFound, w2)
                       else (Some (Wrapped ''failed to update custom claims'' e), w2))
                  | (None, w2) \<Rightarrow> (None, w2)))))"

definition fb_UpdateEmail :: "'w firebase_sdk \<Rightarrow> string \<Rightarrow> string \<Rightarrow> 'w \<Rightarrow> err \<times> 'w" where
  "fb_UpdateEmail S userID email w =
     (if sdk_ctx S w \<noteq> None then (wrap_err ''context failed'' (sdk_ctx S w), w)
      else (case sdk_UpdateEmail S userID email w of
          (Some e, w1) \<Rightarrow>
            (if has_suffix (err_text e) ''user with the provided email already exists'' then (Some ErrConflict, w1)
             else if has_suffix (err_text e) no_record then (Some ErrUserNotFound, w1)
             else (Some (Wrapped (''failed to update email to `'' @ email @ ''`, for userID:`'' @ userID @ ''`'') e), w1))
        | (None, w1) \<Rightarrow> (None, w1)))"

definition fb_DeleteUser :: "'w firebase_sdk \<Rightarrow> string \<Rightarrow> 'w \<Rightarrow> err \<times> 'w" where
  "fb_DeleteUser S userID w =
     (if sdk_ctx S w \<noteq> None then (wrap_err ''context failed'' (sdk_ctx S w), w)
      else (case sdk_DeleteUser S userID w of
          (Some e, w1) \<Rightarrow>
            (if err_text e = no_record then (None, w1)
             else (Some (Wrapped (''failed to delete user by ID:`'' @ userID @ ''`'') e), w1))
        | (None, w1) \<Rightarrow> (None, w1)))"

definition fb_GetUser :: "'w firebase_sdk \<Rightarrow> string \<Rightarrow> 'w \<Rightarrow> (goerr + fb_user) \<times> 'w" where
  "fb_GetUser S userID w = (case sdk_GetUser S userID w of
     (r, w1) \<Rightarrow> (wrap_result (''can't get firebase user data for:'' @ userID) r, w1))"

definition fb_GetUserByEmail :: "'w firebase_sdk \<Rightarrow> string \<Rightarrow> 'w \<Rightarrow> (goerr + fb_user) \<times> 'w" where
  "fb_GetUserByEmail S email w = (case sdk_GetUserByEmail S email w of
       (Inl e, w1) \<Rightarrow>
         (if has_suffix (err_text e) (''no user exists with the email: '' @ quoted email) then (Inl ErrUserNotFound, w1)
          else (Inl (Wrapped (''can't get firebase user data by email for:'' @ email) e), w1))
     | (Inr u, w1) \<Rightarrow> (Inr u, w1))"

text \<open>The configuration of the client; without credentials there is none.\<close>

record fb_config =
  fb_FilePath :: string
  fb_FileContent :: string
  AllowEmailPassword :: bool

definition fb_env :: "(string \<Rightarrow> string) \<Rightarrow> string \<Rightarrow> string \<Rightarrow> (string \<Rightarrow> bool) \<Rightarrow> string" where
  "fb_env getenv key suffix google_ok =
     (let v1 = getenv (to_upper (replace_all (replace_all key ''-'' ''_'') ''/'' ''_'') @ ''_AUTH_CREDENTIALS_'' @ suffix);
          v2 = (if v1 = '''' then getenv (''AUTH_CREDENTIALS_'' @ suffix) else v1);
          g = getenv ''GOOGLE_APPLICATION_CREDENTIALS''
      in if v2 = '''' then (if google_ok g then g else '''') else v2)"

text \<open>\<open>is_json\<close>: the text without leading white space begins with a brace.\<close>

definition setFileContent :: "(string \<Rightarrow> string) \<Rightarrow> (string \<Rightarrow> bool) \<Rightarrow> string \<Rightarrow> fb_config \<Rightarrow> fb_config" where
  "setFileContent getenv is_json key cfg =
     (if fb_FileContent cfg = '''' then cfg\<lparr>fb_FileContent := fb_env getenv key ''FILE_CONTENT'' is_json\<rparr> else cfg)"

definition setFilePath :: "(string \<Rightarrow> string) \<Rightarrow> (string \<Rightarrow> bool) \<Rightarrow> string \<Rightarrow> fb_config \<Rightarrow> fb_config" where
  "setFilePath getenv is_json key cfg =
     (if fb_FilePath cfg = '''' then cfg\<lparr>fb_FilePath := fb_env getenv key ''FILE_PATH'' (\<lambda>s. \<not> is_json s)\<rparr> else cfg)"

text \<open>\<open>fb_New\<close>: \<open>None\<close> is the nil client. \<open>connect_app\<close> builds the SDK's client and verifies an invalid token: it returns
  whether that was refused as invalid.\<close>

definition fb_New :: "(string \<Rightarrow> string) \<Rightarrow> (string \<Rightarrow> bool) \<Rightarrow> (fb_config \<Rightarrow> 'w \<Rightarrow> bool outcome \<times> 'w) \<Rightarrow> string \<Rightarrow> fb_config \<Rightarrow> 'w \<Rightarrow>
    bool option outcome \<times> 'w" where
  "fb_New getenv is_json connect_app key loaded w =
     (let cfg = setFilePath getenv is_json key (setFileContent getenv is_json key loaded) in
      if fb_FileContent cfg = '''' \<and> fb_FilePath cfg = '''' then (Ret None, w)
      else (case connect_app cfg w of
          (Panic, w1) \<Rightarrow> (Panic, w1)
        | (Ret refused, w1) \<Rightarrow> (if refused then Ret (Some (AllowEmailPassword cfg)) else Panic, w1)))"

section \<open>The client\<close>

text \<open>\<open>au_fb\<close>: the Firebase client, if configured, by its setting \<open>allowEmailPassword\<close>.\<close>

record auth_client =
  au_ice :: ice_config
  au_fb :: "bool option"

definition VerifyToken ::
    "jwt_lib \<Rightarrow> 'w firebase_sdk \<Rightarrow> int \<Rightarrow> auth_client \<Rightarrow> string \<Rightarrow> 'w \<Rightarrow> ((goerr + auth_token) \<times> 'w) outcome" where
  "VerifyToken J S now a token w =
     obind (DetectIceToken J token) (\<lambda>d. case d of
       Inl e \<Rightarrow>
         (case au_fb a of
            None \<Rightarrow> Ret (Inl (Sentinel ''non-ice token, but firebase auth is disabled''), w)
          | Some allow \<Rightarrow> (case fb_VerifyToken S allow token w of
              (r, w1) \<Rightarrow> Ret (wrap_result (''can't verify fb token:'' @ token) r, w1)))
     | Inr t \<Rightarrow> omap (\<lambda>r. (wrap_result (''can't verify ice token:'' @ token) r, w)) (ice_VerifyToken (au_ice a) J now token))"

definition checkMetadataOwnership :: "string \<Rightarrow> claims \<Rightarrow> err" where
  "checkMetadataOwnership userID metadata =
     (let subMatch = metadata ''sub'' = Some (AStr userID);
          fbMatch = metadata FirebaseIDClaim = Some (AStr userID);
          iceMatch = metadata IceIDClaim = Some (AStr userID)
      in if userID \<noteq> '''' \<and> \<not> (subMatch \<or> fbMatch \<or> iceMatch)
         then Some (Wrapped (''token '' @ userID @ '' does not own metadata'') ErrWrongTypeToken) else None)"

text \<open>The claim \<open>registeredWithProvider\<close> must be a text.\<close>

definition firstRegisteredUserID :: "claims \<Rightarrow> string outcome" where
  "firstRegisteredUserID metadata = (case metadata RegisteredWithProviderClaim of
     None \<Rightarrow> Ret ''''
   | Some (AStr p) \<Rightarrow>
       Ret (if p = ProviderFirebase then str_claim FirebaseIDClaim metadata
            else if p = ProviderIce then str_claim IceIDClaim metadata else '''')
   | Some v \<Rightarrow> Panic)"

definition ModifyTokenWithMetadata ::
    "jwt_lib \<Rightarrow> int \<Rightarrow> auth_client \<Rightarrow> auth_token \<Rightarrow> string \<Rightarrow> (goerr + auth_token) outcome" where
  "ModifyTokenWithMetadata J now a token metadataStr =
     (if metadataStr = '''' then Ret (Inr token)
      else obind (VerifyTokenFields_map (au_ice a) J now metadataStr) (\<lambda>r. case r of
        Inl e \<Rightarrow> Ret (Inl (Wrapped ''invalid metadata token'' e))
      | Inr metadata \<Rightarrow>
          (if metadata ''iss'' \<noteq> Some (AStr MetadataIssuer)
           then Ret (Inl (Wrapped ''non-metadata token'' ErrWrongTypeToken))
           else if checkMetadataOwnership (a_UserID token) metadata \<noteq> None
           then Ret (Inl (Wrapped (''token '' @ a_UserID token @ '' does not own metadata'') ErrWrongTypeToken))
           else omap (\<lambda>userID. Inr (if userID \<noteq> '''' then token\<lparr>a_UserID := userID\<rparr> else token))
                  (firstRegisteredUserID metadata))))"

text \<open>The user operations do nothing without Firebase.\<close>

definition UpdateCustomClaims :: "'w firebase_sdk \<Rightarrow> auth_client \<Rightarrow> string \<Rightarrow> claims \<Rightarrow> 'w \<Rightarrow> err \<times> 'w" where
  "UpdateCustomClaims S a userID c w = (if au_fb a = None then (None, w)
     else apfst (wrap_err (''failed to update custom claims for user:'' @ userID @ '' using firebase auth'')) (fb_UpdateCustomClaims S userID c w))"

definition auth_DeleteUser :: "'w firebase_sdk \<Rightarrow> auth_client \<Rightarrow> string \<Rightarrow> 'w \<Rightarrow> err \<times> 'w" where
  "auth_DeleteUser S a userID w = (if au_fb a = None then (None, w)
     else apfst (wrap_err (''failed to delete user:'' @ userID @ '' using firebase auth'')) (fb_DeleteUser S userID w))"

definition auth_UpdateEmail :: "'w firebase_sdk \<Rightarrow> auth_client \<Rightarrow> string \<Rightarrow> string \<Rightarrow> 'w \<Rightarrow> err \<times> 'w" where
  "auth_UpdateEmail S a userID email w = (if au_fb a = None then (None, w)
     else apfst (wrap_err (''failed to update email for user:'' @ userID @ '' to '' @ email @ '' using firebase auth''))
            (fb_UpdateEmail S userID email w))"

definition GetUserUIDByEmail :: "'w firebase_sdk \<Rightarrow> auth_client \<Rightarrow> string \<Rightarrow> 'w \<Rightarrow> (goerr + string) \<times> 'w" where
  "GetUserUIDByEmail S a email w = (if au_fb a = None then (Inr '''', w)
     else (case fb_GetUserByEmail S email w of
         (Inl e, w1) \<Rightarrow>
           (if is_err (Some e) (Some ErrUserNotFound) then (Inr '''', w1)
            else (Inl (Wrapped (''failed to get user by email:'' @ email @ '' using firebase auth'') e), w1))
       | (Inr u, w1) \<Rightarrow> (Inr (u_UID u), w1)))"

definition GenerateTokens ::
    "jwt_lib \<Rightarrow> auth_client \<Rightarrow> int \<Rightarrow> string \<Rightarrow> string \<Rightarrow> string \<Rightarrow> int \<Rightarrow> int \<Rightarrow> string \<Rightarrow> claims list \<Rightarrow> goerr + string \<times> string" where
  "GenerateTokens J a now user device email hash sq role extras =
     wrap_result (''can't generate tokens for userID:'' @ user @ '', email:'' @ email)
       (ice_GenerateTokens (au_ice a) J now user device email hash sq role (case extras of [] \<Rightarrow> Map.empty | x # xs \<Rightarrow> x))"

definition GenerateMetadata :: "jwt_lib \<Rightarrow> auth_client \<Rightarrow> int \<Rightarrow> string \<Rightarrow> claims \<Rightarrow> (goerr + string) \<times> claims" where
  "GenerateMetadata J a now tokenID metadata =
     apfst (wrap_result (''failed to generate metadata token for tokenID:'' @ tokenID)) (ice_GenerateMetadata (au_ice a) J now tokenID metadata)"

definition ParseToken :: "jwt_lib \<Rightarrow> int \<Rightarrow> auth_client \<Rightarrow> string \<Rightarrow> bool \<Rightarrow> (goerr + ice_token) outcome" where
  "ParseToken J now a token verified =
     omap (wrap_result (''can't verify token fields for:'' @ token))
       (if verified then VerifyTokenFields (au_ice a) J now token else DetectIceToken J token)"

section \<open>Properties\<close>

lemma generated:
  assumes "GenerateTokens J a now user device email hash sq role [extra] = Inr (refresh, access)"
  shows "jwt_Sign J (refresh_claims (au_ice a) now user device email sq extra) (JWTSecret (au_ice a)) = Inr refresh"
    and "jwt_Sign J (access_claims (au_ice a) now sq hash user device email role extra) (JWTSecret (au_ice a)) = Inr access"
  using assms
  by (auto simp: GenerateTokens_def ice_GenerateTokens_def generateRefreshToken_def generateAccessToken_def wrap_result_def
      split: sum.splits)

text \<open>The error of a token of the application that does not verify.\<close>

definition token_error :: "string \<Rightarrow> goerr \<Rightarrow> goerr" where
  "token_error token e = Wrapped (''can't verify ice token:'' @ token) (Wrapped ''invalid token'' e)"

lemma access_verifies:
  assumes J: "jwt_ok J" and sign: "jwt_Sign J (access_claims (au_ice a) now sq hash user device email role extra) (JWTSecret (au_ice a)) = Inr access"
  shows "numeric_date now * 1000000000 \<le> t \<Longrightarrow> t < numeric_date (now + AccessExpirationTime (au_ice a)) * 1000000000 \<Longrightarrow>
      VerifyToken J S t a access w = Ret (Inr \<lparr>a_Claims = map_add extra (own_claims (access_claims (au_ice a) now sq hash user device email role extra)),
         a_UserID = user, a_Role = role, a_Email = email, a_Provider = ProviderIce\<rparr>, w)"
    and "numeric_date (now + AccessExpirationTime (au_ice a)) * 1000000000 \<le> t \<Longrightarrow>
      VerifyToken J S t a access w = Ret (Inl (token_error access (Wrapped ''expired or not valid yet token'' ErrExpiredToken)), w)"
proof -
  let ?c = "access_claims (au_ice a) now sq hash user device email role extra"
  define reg where "reg = registered_for AccessJwtIssuer user now (AccessExpirationTime (au_ice a))"
  have reg: "t_Registered ?c = Some reg" by (simp add: access_claims_def reg_def)
  have iss: "Issuer reg \<in> {AccessJwtIssuer, RefreshJwtIssuer}" by (simp add: reg_def registered_for_def)
  note d = detect_signed [OF J sign reg iss] and v = verify_token_signed [OF J sign reg iss]
  show "VerifyToken J S t a access w = Ret (Inr \<lparr>a_Claims = map_add extra (own_claims ?c), a_UserID = user, a_Role = role,
      a_Email = email, a_Provider = ProviderIce\<rparr>, w)"
    if "numeric_date now * 1000000000 \<le> t" "t < numeric_date (now + AccessExpirationTime (au_ice a)) * 1000000000"
    using d v(1) [of t] that by (simp add: VerifyToken_def ice_VerifyToken_def reg reg_def registered_for_def access_claims_def)
  show "VerifyToken J S t a access w = Ret (Inl (token_error access (Wrapped ''expired or not valid yet token'' ErrExpiredToken)), w)"
    if "numeric_date (now + AccessExpirationTime (au_ice a)) * 1000000000 \<le> t"
    using d v(2) [of t] that by (simp add: VerifyToken_def ice_VerifyToken_def reg_def registered_for_def token_error_def)
qed

lemma refresh_refused:
  assumes J: "jwt_ok J" and sign: "jwt_Sign J (refresh_claims (au_ice a) now user device email sq extra) (JWTSecret (au_ice a)) = Inr refresh"
    and t: "numeric_date now * 1000000000 \<le> t" "t < numeric_date (now + RefreshExpirationTime (au_ice a)) * 1000000000"
  shows "VerifyToken J S t a refresh w = Ret (Inl (Wrapped (''can't verify ice token:'' @ refresh)
    (Wrapped (''access to endpoint with refresh token: '' @ RefreshJwtIssuer) ErrWrongTypeToken)), w)"
proof -
  let ?c = "refresh_claims (au_ice a) now user device email sq extra"
  define reg where "reg = registered_for RefreshJwtIssuer user now (RefreshExpirationTime (au_ice a))"
  have reg: "t_Registered ?c = Some reg" by (simp add: refresh_claims_def reg_def)
  have iss: "Issuer reg \<in> {AccessJwtIssuer, RefreshJwtIssuer}" by (simp add: reg_def registered_for_def)
  have ne: "RefreshJwtIssuer \<noteq> AccessJwtIssuer" by (simp add: auth_names)
  show ?thesis
    using detect_signed [OF J sign reg iss] verify_token_signed(1) [OF J sign reg iss, of t] t ne
    by (simp add: VerifyToken_def ice_VerifyToken_def reg reg_def registered_for_def)
qed

text \<open>
  The tokens the client generates do what they are for: until it expires, the access token is verified and gives back the
  user, role, e-mail and sequence it was made for; from then on it is refused as expired; and the refresh token is
  refused as one of the wrong type.
\<close>

theorem generated_tokens_verify:
  assumes "jwt_ok J" and "GenerateTokens J a now user device email hash sq role [extra] = Inr (refresh, access)"
  shows "(numeric_date now * 1000000000 \<le> t \<and> t < numeric_date (now + AccessExpirationTime (au_ice a)) * 1000000000 \<longrightarrow>
      (\<exists>tok. VerifyToken J S t a access w = Ret (Inr tok, w) \<and> IsIce tok \<and> a_UserID tok = user \<and> a_Role tok = role \<and>
         a_Email tok = email \<and> a_Claims tok ''seq'' = Some (ANum sq))) \<and>
    (numeric_date (now + AccessExpirationTime (au_ice a)) * 1000000000 \<le> t \<longrightarrow>
      (\<exists>e. VerifyToken J S t a access w = Ret (Inl e, w) \<and> errors_is e ErrExpiredToken)) \<and>
    (numeric_date now * 1000000000 \<le> t \<and> t < numeric_date (now + RefreshExpirationTime (au_ice a)) * 1000000000 \<longrightarrow>
      (\<exists>e. VerifyToken J S t a refresh w = Ret (Inl e, w) \<and> errors_is e ErrWrongTypeToken))"
proof -
  note g = generated [OF assms(2)]
  note v = access_verifies [OF assms(1) g(2), where S = S and t = t and w = w]
  have "\<exists>tok. VerifyToken J S t a access w = Ret (Inr tok, w) \<and> IsIce tok \<and> a_UserID tok = user \<and> a_Role tok = role \<and>
      a_Email tok = email \<and> a_Claims tok ''seq'' = Some (ANum sq)"
    if "numeric_date now * 1000000000 \<le> t" "t < numeric_date (now + AccessExpirationTime (au_ice a)) * 1000000000"
    using v(1) [OF that] by (simp add: IsIce_def own_claims_def access_claims_def map_add_def)
  moreover have "errors_is (token_error access (Wrapped ''expired or not valid yet token'' ErrExpiredToken)) ErrExpiredToken"
    by (simp add: token_error_def errors_is_Wrapped)
  moreover have "errors_is (Wrapped m (Wrapped m' ErrWrongTypeToken)) ErrWrongTypeToken" for m m'
    by (simp add: errors_is_Wrapped)
  ultimately show ?thesis using v(2) refresh_refused [OF assms(1) g(1), where S = S and t = t and w = w] by blast
qed

text \<open>A JWT library whose texts are read from a table: the first token signed.\<close>

definition toy_jwt :: "ice_token \<Rightarrow> ice_token \<Rightarrow> jwt_lib" where
  "toy_jwt r c = \<lparr>
     jwt_Sign = (\<lambda>x key. if x = r \<and> key = ''k'' then Inr ''R'' else if x = c \<and> key = ''k'' then Inr ''A'' else Inl (Sentinel ''no'')),
     jwt_SignMap = (\<lambda>m key. Inl (Sentinel ''no'')),
     jwt_ParseUnverified = (\<lambda>t. if t = ''R'' then Inr (signed r) else if t = ''A'' then Inr (signed c) else Inl (Sentinel ''no'')),
     jwt_ParseToken = (\<lambda>t kf now. let x = (if t = ''R'' then r else c) in omap (\<lambda>k. case k of Inl e \<Rightarrow> Inl e
        | Inr key \<Rightarrow> if \<exists>reg. t_Registered x = Some reg \<and> now < ExpiresAt reg * 1000000000 then Inr x else Inl ErrTokenExpired) (kf (signed x))),
     jwt_ParseMap = (\<lambda>t kf now. Ret (Inl (Sentinel ''no'')))\<rparr>"

lemma toy_jwt_ok: "r \<noteq> c \<Longrightarrow> jwt_ok (toy_jwt r c)"
  by (auto simp: jwt_ok_def toy_jwt_def Let_def split: if_splits)

definition toy_auth :: auth_client where
  "toy_auth = \<lparr>au_ice = \<lparr>JWTSecret = ''k'', RefreshExpirationTime = 3600000000000, AccessExpirationTime = 60000000000\<rparr>, au_fb = None\<rparr>"

definition toy_lib :: jwt_lib where
  "toy_lib = toy_jwt (refresh_claims (au_ice toy_auth) 0 ''u'' ''d'' ''e'' 3 Map.empty) (access_claims (au_ice toy_auth) 0 3 9 ''u'' ''d'' ''e'' ''r'' Map.empty)"

lemma toy_lib_ok: "jwt_ok toy_lib"
  unfolding toy_lib_def
  by (rule toy_jwt_ok) (simp add: refresh_claims_def access_claims_def registered_for_def auth_names)

theorem generated_tokens_verify_witness:
  "\<exists>tok. VerifyToken toy_lib (undefined :: unit firebase_sdk) 30000000000 toy_auth ''A'' () = Ret (Inr tok, ()) \<and> a_UserID tok = ''u''"
proof -
  have "GenerateTokens toy_lib toy_auth 0 ''u'' ''d'' ''e'' 9 3 ''r'' [Map.empty] = Inr (''R'', ''A'')"
    by (simp add: GenerateTokens_def ice_GenerateTokens_def generateRefreshToken_def generateAccessToken_def toy_lib_def toy_jwt_def
        toy_auth_def refresh_claims_def access_claims_def registered_for_def auth_names)
  from generated_tokens_verify [OF toy_lib_ok this, of 30000000000 "undefined :: unit firebase_sdk" "()"]
  show ?thesis by (auto simp: numeric_date_def toy_auth_def)
qed

text \<open>
  C35. A metadata token changes only the user's id, and only when it was issued as metadata, belongs to the token's user by one of its
  three ids (or the token has no user id), and names the provider the user is registered with: then the id is that
  provider's id of the user.
\<close>

theorem metadata_changes_only_registered_id:
  assumes "ModifyTokenWithMetadata J now a tok md = Ret (Inr tok')" and "md \<noteq> ''''"
  shows "\<exists>m. VerifyTokenFields_map (au_ice a) J now md = Ret (Inr m) \<and> m ''iss'' = Some (AStr MetadataIssuer) \<and>
    (a_UserID tok = '''' \<or> Some (AStr (a_UserID tok)) \<in> {m ''sub'', m FirebaseIDClaim, m IceIDClaim}) \<and>
    (tok' = tok \<or> (\<exists>u p. u \<noteq> '''' \<and> tok' = tok\<lparr>a_UserID := u\<rparr> \<and> m RegisteredWithProviderClaim = Some (AStr p) \<and>
       (p = ProviderFirebase \<and> m FirebaseIDClaim = Some (AStr u) \<or> p = ProviderIce \<and> m IceIDClaim = Some (AStr u))))"
proof -
  obtain r where r: "VerifyTokenFields_map (au_ice a) J now md = Ret r"
    using assms by (cases "VerifyTokenFields_map (au_ice a) J now md") (simp_all add: ModifyTokenWithMetadata_def)
  obtain m where m: "VerifyTokenFields_map (au_ice a) J now md = Ret (Inr m)"
    using assms r by (cases r) (simp_all add: ModifyTokenWithMetadata_def)
  note rest = assms(1) [unfolded ModifyTokenWithMetadata_def m obind.simps sum.case if_not_P [OF assms(2)]]
  have iss: "m ''iss'' = Some (AStr MetadataIssuer)" and own: "checkMetadataOwnership (a_UserID tok) m = None"
    using rest by (auto split: if_splits)
  then obtain u where u: "firstRegisteredUserID m = Ret u" "tok' = (if u \<noteq> '''' then tok\<lparr>a_UserID := u\<rparr> else tok)"
    using rest by auto
  have "a_UserID tok = '''' \<or> Some (AStr (a_UserID tok)) \<in> {m ''sub'', m FirebaseIDClaim, m IceIDClaim}"
    using own by (auto simp: checkMetadataOwnership_def Let_def split: if_splits)
  moreover have "\<exists>p. m RegisteredWithProviderClaim = Some (AStr p) \<and>
      (p = ProviderFirebase \<and> m FirebaseIDClaim = Some (AStr u) \<or> p = ProviderIce \<and> m IceIDClaim = Some (AStr u))" if "u \<noteq> ''''"
    using u(1) that
    by (auto simp: firstRegisteredUserID_def str_claim_def split: option.splits claim_value.splits if_splits)
  ultimately show ?thesis using m iss u(2) by (cases "u = ''''") auto
qed

definition toy_metadata :: claims where
  "toy_metadata = [''iss'' \<mapsto> AStr MetadataIssuer, ''sub'' \<mapsto> AStr ''x'', RegisteredWithProviderClaim \<mapsto> AStr ProviderIce, IceIDClaim \<mapsto> AStr ''y'']"

definition metadata_lib :: jwt_lib where
  "metadata_lib = toy_lib\<lparr>jwt_ParseMap := (\<lambda>t kf now. Ret (Inr toy_metadata))\<rparr>"

theorem metadata_changes_only_registered_id_witness:
  "\<exists>m. VerifyTokenFields_map (au_ice toy_auth) metadata_lib 0 ''md'' = Ret (Inr m) \<and> m ''iss'' = Some (AStr MetadataIssuer)"
proof -
  have "ModifyTokenWithMetadata metadata_lib 0 toy_auth \<lparr>a_Claims = Map.empty, a_UserID = ''x'', a_Role = '''', a_Email = '''', a_Provider = ''ice''\<rparr> ''md'' =
      Ret (Inr \<lparr>a_Claims = Map.empty, a_UserID = ''y'', a_Role = '''', a_Email = '''', a_Provider = ''ice''\<rparr>)"
    by (simp add: ModifyTokenWithMetadata_def VerifyTokenFields_map_def map_error_def metadata_lib_def toy_metadata_def
        checkMetadataOwnership_def Let_def firstRegisteredUserID_def str_claim_def auth_names)
  from metadata_changes_only_registered_id [OF this] show ?thesis by blast
qed

text \<open>
  A token with a valid HS256 header and none of the registered claims, which anyone can write down since no signature is looked
  at yet, makes \<open>VerifyToken\<close> panic: the issuer is read through the nil pointer to them.
\<close>

theorem token_without_claims_panics:
  assumes "jwt_ParseUnverified J token = Inr p" and "is_hs256 p" and "t_Registered (pj_claims p) = None"
  shows "VerifyToken J S now a token w = Panic"
  using assms by (simp add: VerifyToken_def DetectIceToken_def token_issuer_def)

definition bare_token :: ice_token where
  "bare_token = \<lparr>t_Registered = None, t_Claims = Map.empty, t_Role = '''', t_Email = '''', t_DeviceUniqueID = '''', t_HashCode = 0, t_Seq = 0\<rparr>"

definition bare_lib :: jwt_lib where
  "bare_lib = toy_lib\<lparr>jwt_ParseUnverified := (\<lambda>t. Inr (signed bare_token))\<rparr>"

theorem token_without_claims_panics_witness:
  "VerifyToken bare_lib (undefined :: unit firebase_sdk) 0 toy_auth ''x'' () = Panic"
  by (rule token_without_claims_panics [of _ _ "signed bare_token"])
    (simp_all add: bare_lib_def signed_def is_hs256_def bare_token_def)

text \<open>What is documented of merging with override: where both maps have the key, with values that are not empty and not maps,
  the value of the second wins.\<close>

definition plain_value :: "claim_value \<Rightarrow> bool" where
  "plain_value v \<longleftrightarrow> (case v of AStr s \<Rightarrow> s \<noteq> '''' | ANum i \<Rightarrow> i \<noteq> 0 | ABool b \<Rightarrow> b | _ \<Rightarrow> False)"

definition merge_override :: "(claims \<Rightarrow> claims \<Rightarrow> goerr + claims) \<Rightarrow> bool" where
  "merge_override merge \<longleftrightarrow> (\<forall>dst src m k v. merge dst src = Inr m \<longrightarrow> src k = Some v \<longrightarrow> plain_value v \<longrightarrow> m k = Some v)"

text \<open>
  \<open>UpdateCustomClaims\<close> cannot change a claim: the new claims are merged under the user's present ones, so whatever is stored
  afterwards has the old value of every plain claim the user already had.
\<close>

theorem custom_claims_never_change:
  assumes "merge_override (sdk_Merge S)" and "sdk_ctx S w = None" and "sdk_GetUser S userID w = (Inr user, w1)"
    and "u_CustomClaims user k = Some v" and "plain_value v"
  shows "\<exists>e w2. fb_UpdateCustomClaims S userID new w = (e, w2) \<and>
    (e = None \<longrightarrow> (\<exists>stored. sdk_SetCustomUserClaims S userID stored w1 = (None, w2) \<and> stored k = Some v))"
proof (cases "sdk_Merge S new (u_CustomClaims user)")
  case (Inl e)
  then show ?thesis using assms(2,3) by (simp add: fb_UpdateCustomClaims_def)
next
  case (Inr m)
  have "m k = Some v" using assms(1,4,5) Inr unfolding merge_override_def by blast
  then show ?thesis
    using assms(2,3) Inr
    by (cases "sdk_SetCustomUserClaims S userID m w1") (auto simp: fb_UpdateCustomClaims_def split: option.splits)
qed

definition toy_sdk :: "claims firebase_sdk" where
  "toy_sdk = \<lparr>sdk_VerifyIDToken = (\<lambda>t w. (Inl (Sentinel ''no''), w)), sdk_GetUser = (\<lambda>u w. (Inr \<lparr>u_UID = u, u_CustomClaims = w\<rparr>, w)),
     sdk_GetUserByEmail = (\<lambda>u w. (Inl (Sentinel ''no''), w)), sdk_SetCustomUserClaims = (\<lambda>u c w. (None, c)),
     sdk_UpdateEmail = (\<lambda>u e w. (None, w)), sdk_DeleteUser = (\<lambda>u w. (None, w)), sdk_ctx = (\<lambda>w. None),
     sdk_Merge = (\<lambda>dst src. Inr (map_add dst src))\<rparr>"

theorem custom_claims_never_change_witness:
  "\<exists>stored. fb_UpdateCustomClaims toy_sdk ''u'' [''role'' \<mapsto> AStr ''admin''] [''role'' \<mapsto> AStr ''app''] = (None, stored) \<and>
    stored ''role'' = Some (AStr ''app'')"
proof -
  have "merge_override (sdk_Merge toy_sdk)" by (auto simp: merge_override_def toy_sdk_def map_add_def)
  from custom_claims_never_change [OF this, of "[''role'' \<mapsto> AStr ''app'']" "''u''" _ _ "''role''" "AStr ''app''" "[''role'' \<mapsto> AStr ''admin'']"]
  show ?thesis by (simp add: toy_sdk_def plain_value_def) (simp add: fb_UpdateCustomClaims_def)
qed

end
