(* ===== verification/Server_Http.thy ===== *)
theory Server_Http
  imports Auth
begin

text \<open>
  The HTTP layer's request handling (\<open>server/router.go\<close>, \<open>server/http_response.go\<close>): reading the tags of a request's struct,
  binding and validating its data, authorizing its user with the authentication client, and choosing the reply. Gin's context
  is the parameter \<open>gin_ctx\<close>: what it reads of the request, and its binding functions.
\<close>

section \<open>Responses\<close>

record error_response =
  er_error :: err
  er_Data :: "claims option"
  er_Error :: string
  er_Code :: string

record 'a response =
  rs_Data :: "'a option"
  rs_Headers :: "(string \<times> string) list"
  rs_Code :: int

type_synonym failure = "error_response response"

text \<open>The optional last argument counts only when there is exactly one. The text of a nil error cannot be read.\<close>

definition data_arg :: "claims list \<Rightarrow> claims option" where
  "data_arg ds = (case ds of [d] \<Rightarrow> Some d | _ \<Rightarrow> None)"

definition failure_of :: "int \<Rightarrow> err \<Rightarrow> err \<Rightarrow> string \<Rightarrow> claims option \<Rightarrow> failure outcome" where
  "failure_of status internal shown code d = (case shown of
     None \<Rightarrow> Panic
   | Some e \<Rightarrow> Ret \<lparr>rs_Data = Some \<lparr>er_error = internal, er_Data = d, er_Error = err_text e, er_Code = code\<rparr>,
                   rs_Headers = [], rs_Code = status\<rparr>)"

definition BadRequest :: "err \<Rightarrow> string \<Rightarrow> claims list \<Rightarrow> failure outcome" where
  "BadRequest e code ds = failure_of 400 e e code (data_arg ds)"

definition UnprocessableEntity :: "err \<Rightarrow> string \<Rightarrow> claims list \<Rightarrow> failure outcome" where
  "UnprocessableEntity e code ds = failure_of 422 e e code (data_arg ds)"

definition Conflict :: "err \<Rightarrow> string \<Rightarrow> claims list \<Rightarrow> failure outcome" where
  "Conflict e code ds = failure_of 409 e e code (data_arg ds)"

definition NotFound :: "err \<Rightarrow> string \<Rightarrow> claims list \<Rightarrow> failure outcome" where
  "NotFound e code ds = failure_of 404 e e code (data_arg ds)"

definition Unexpected :: "err \<Rightarrow> failure outcome" where
  "Unexpected e = failure_of (- 1) e e '''' None"

definition Unauthorized :: "err \<Rightarrow> claims list \<Rightarrow> failure outcome" where
  "Unauthorized e ds = failure_of 401 (wrap_err ''authorization failed'' e) e ''INVALID_TOKEN'' (data_arg ds)"

definition Forbidden :: "err \<Rightarrow> claims list \<Rightarrow> failure outcome" where
  "Forbidden e ds = failure_of 403 e e ''OPERATION_NOT_ALLOWED'' (data_arg ds)"

definition ForbiddenWithCode :: "err \<Rightarrow> string \<Rightarrow> claims list \<Rightarrow> failure outcome" where
  "ForbiddenWithCode e code ds = failure_of 403 e e code (data_arg ds)"

definition NoContent :: "'a response" where
  "NoContent = \<lparr>rs_Data = None, rs_Headers = [], rs_Code = 204\<rparr>"

definition Created :: "'a option \<Rightarrow> 'a response" where
  "Created r = \<lparr>rs_Data = r, rs_Headers = [], rs_Code = 201\<rparr>"

definition OK_response :: "'a option list \<Rightarrow> 'a response" where
  "OK_response rs = \<lparr>rs_Data = (case rs of [r] \<Rightarrow> r | _ \<Rightarrow> None), rs_Headers = [], rs_Code = 200\<rparr>"

definition Fail :: "error_response \<Rightarrow> err \<Rightarrow> error_response" where
  "Fail r e = r\<lparr>er_error := e\<rparr>"

text \<open>\<open>InternalErr\<close> of a pointer.\<close>

definition InternalErr :: "error_response option \<Rightarrow> err outcome" where
  "InternalErr p = (case p of None \<Rightarrow> Panic | Some r \<Rightarrow> Ret (er_error r))"

section \<open>Requests\<close>

datatype request_binding = json | uri | query | header | formMultipart

record struct_field =
  sf_Name :: string
  sf_Tag :: "string \<Rightarrow> string"

text \<open>The type of the request's data: a struct with its fields, or not a struct.\<close>

type_synonym data_type = "struct_field list option"

record authenticated_user =
  us_Token :: auth_token
  us_Language :: string

definition no_user :: authenticated_user where
  "no_user = \<lparr>us_Token = \<lparr>a_Claims = Map.empty, a_UserID = '''', a_Role = '''', a_Email = '''', a_Provider = ''''\<rparr>, us_Language = ''''\<rparr>"

text \<open>Gin: the request's method, path, protocol, parameters and headers, and the five ways to bind it to data, each of which
  may fill the data in part before it fails. \<open>gin_IsZero\<close> reads a field of the data.\<close>

record 'd gin_ctx =
  gin_Method :: string
  gin_Path :: string
  gin_Param :: "string \<Rightarrow> string"
  gin_GetHeader :: "string \<Rightarrow> string"
  gin_ClientIP :: string
  gin_Bind :: "request_binding \<Rightarrow> 'd \<Rightarrow> err \<times> 'd"
  gin_IsZero :: "'d \<Rightarrow> string \<Rightarrow> bool"

record 'd request =
  rq_Data :: 'd
  rq_User :: authenticated_user
  rq_ClientIP :: string
  rq_bindings :: "request_binding set"
  rq_required :: "string list"
  allowUnauthorized :: bool
  allowForbiddenGet :: bool
  allowForbiddenWriteOperation :: bool

definition init_request :: "'d \<Rightarrow> 'd gin_ctx \<Rightarrow> 'd request" where
  "init_request new g = \<lparr>rq_Data = new, rq_User = no_user, rq_ClientIP = gin_ClientIP g, rq_bindings = {}, rq_required = [],
     allowUnauthorized = False, allowForbiddenGet = False, allowForbiddenWriteOperation = False\<rparr>"

text \<open>The tags of one field, in the order in which they are read.\<close>

definition if_tag :: "bool \<Rightarrow> ('q \<Rightarrow> 'q) \<Rightarrow> 'q \<Rightarrow> 'q" where
  "if_tag c f q = (if c then f q else q)"

definition add_binding :: "request_binding \<Rightarrow> 'd request \<Rightarrow> 'd request" where
  "add_binding b q = q\<lparr>rq_bindings := insert b (rq_bindings q)\<rparr>"

definition process_flags :: "struct_field \<Rightarrow> 'd request \<Rightarrow> 'd request" where
  "process_flags f =
     (let t = sf_Tag f in
      if_tag (t ''allowForbiddenWriteOperation'' = ''true'') (\<lambda>q. q\<lparr>allowForbiddenWriteOperation := True\<rparr>) \<circ>
      if_tag (t ''allowForbiddenGet'' = ''true'') (\<lambda>q. q\<lparr>allowForbiddenGet := True\<rparr>) \<circ>
      if_tag (t ''allowUnauthorized'' = ''true'') (\<lambda>q. q\<lparr>allowUnauthorized := True\<rparr>) \<circ>
      if_tag (t ''required'' = ''true'') (\<lambda>q. q\<lparr>rq_required := rq_required q @ [sf_Name f]\<rparr>))"

definition process_bindings :: "struct_field \<Rightarrow> 'd request \<Rightarrow> 'd request" where
  "process_bindings f =
     (let t = sf_Tag f in
      if_tag (t ''formMultipart'' \<noteq> '''') (add_binding formMultipart) \<circ>
      if_tag (t ''form'' \<noteq> '''' \<and> t ''formMultipart'' = '''') (add_binding query) \<circ>
      if_tag (t ''header'' \<noteq> '''') (add_binding header) \<circ>
      if_tag (t ''uri'' \<noteq> '''') (add_binding uri) \<circ>
      if_tag (t ''json'' \<noteq> '''' \<and> t ''json'' \<noteq> ''-'') (add_binding json))"

definition process_field :: "'d request \<Rightarrow> struct_field \<Rightarrow> 'd request" where
  "process_field q f = process_bindings f (process_flags f q)"

definition processTags :: "data_type \<Rightarrow> 'd request \<Rightarrow> 'd request outcome" where
  "processTags ty q = (case ty of
     None \<Rightarrow> Panic
   | Some sfs \<Rightarrow> Ret (foldl process_field (q\<lparr>rq_required := [], rq_bindings := {}\<rparr>) sfs))"

definition missing :: "'d gin_ctx \<Rightarrow> 'd request \<Rightarrow> string list" where
  "missing g q = filter (gin_IsZero g (rq_Data q)) (rq_required q)"

definition validate :: "'d gin_ctx \<Rightarrow> 'd request \<Rightarrow> failure option outcome" where
  "validate g q =
     (if rq_required q = [] then Ret None
      else if missing g q = [] then Ret None
      else omap Some (UnprocessableEntity (Some (Sentinel (''properties `'' @ join_with '','' (missing g q) @ ''` are required'')))
             ''MISSING_PROPERTIES'' []))"

text \<open>The loop over the map of bindings, whose order is not defined: \<open>order\<close> is the one the runtime picks.\<close>

fun bind_all :: "'d gin_ctx \<Rightarrow> request_binding list \<Rightarrow> 'd \<Rightarrow> err list \<times> 'd" where
  "bind_all g [] d = ([], d)"
| "bind_all g (b # bs) d = (let (e, d1) = gin_Bind g b d; (es, d2) = bind_all g bs d1 in (e # es, d2))"

definition processRequest :: "'d gin_ctx \<Rightarrow> (request_binding set \<Rightarrow> request_binding list) \<Rightarrow> data_type \<Rightarrow> 'd request \<Rightarrow>
    (failure option \<times> 'd request) outcome" where
  "processRequest g order ty q = obind (processTags ty q) (\<lambda>q1.
     let (es, d) = bind_all g (order (rq_bindings q1)) (rq_Data q1); q2 = q1\<lparr>rq_Data := d\<rparr> in
     (case join_errs es of
        Some e \<Rightarrow> omap (\<lambda>r. (Some r, q2)) (UnprocessableEntity (wrap_err ''binding failed'' (Some e)) ''STRUCTURE_VALIDATION_FAILED'' [])
      | None \<Rightarrow> omap (\<lambda>r. (r, q2)) (validate g q2)))"

section \<open>Authorization\<close>

definition path_user :: "'d gin_ctx \<Rightarrow> string" where
  "path_user g = trim (CHR '' '') (gin_Param g ''userId'')"

text \<open>When the deferred function of \<open>authorize\<close> drops the failure.\<close>

definition anonymous_ok :: "'d gin_ctx \<Rightarrow> 'd request \<Rightarrow> bool" where
  "anonymous_ok g q \<longleftrightarrow> allowUnauthorized q \<and>
     (((gin_Method g = ''GET'' \<or> gin_Method g = ''POST'') \<and> path_user g = '''') \<or> path_user g = ''-'')"

definition foreign_user :: "'d gin_ctx \<Rightarrow> 'd request \<Rightarrow> string \<Rightarrow> bool" where
  "foreign_user g q uid \<longleftrightarrow> path_user g \<noteq> '''' \<and> path_user g \<noteq> ''-'' \<and> uid \<noteq> path_user g \<and>
     ((\<not> allowForbiddenWriteOperation q \<and> gin_Method g \<noteq> ''GET'') \<or>
      (gin_Method g = ''GET'' \<and> \<not> allowForbiddenGet q \<and> \<not> has_suffix (gin_Path g) (path_user g)))"

text \<open>The body of \<open>authorize\<close> before the deferred function runs.\<close>

definition authorize_body ::
    "(string \<Rightarrow> 'w \<Rightarrow> ((goerr + auth_token) \<times> 'w) outcome) \<Rightarrow> (auth_token \<Rightarrow> string \<Rightarrow> (goerr + auth_token) outcome) \<Rightarrow>
     'd gin_ctx \<Rightarrow> 'd request \<Rightarrow> 'w \<Rightarrow> (failure option \<times> 'd request \<times> 'w) outcome" where
  "authorize_body verify_token modify_token g q w =
     obind (verify_token (trim_prefix (gin_GetHeader g ''Authorization'') ''Bearer '') w) (\<lambda>(v, w1). case v of
       Inl e \<Rightarrow>
         (if errors_is e ErrForbidden then omap (\<lambda>r. (Some r, q, w1)) (Forbidden (Some e) [])
          else omap (\<lambda>r. (Some r, q, w1)) (Unauthorized (Some e) []))
     | Inr token \<Rightarrow> obind (modify_token token (gin_GetHeader g ''X-Account-Metadata'')) (\<lambda>m. case m of
         Inl e \<Rightarrow> omap (\<lambda>r. (Some r, q, w1)) (Unauthorized (Some e) [])
       | Inr tok \<Rightarrow>
           (let q1 = q\<lparr>rq_User := \<lparr>us_Token = tok, us_Language = gin_GetHeader g ''X-Language''\<rparr>\<rparr> in
            if foreign_user g q1 (a_UserID tok)
            then omap (\<lambda>r. (Some r, q1, w1))
                   (Forbidden (Some (Sentinel (''operation not allowed. uri>'' @ path_user g @ ''!=token>'' @ a_UserID tok))) [])
            else Ret (None, q1, w1))))"

definition authorize ::
    "(string \<Rightarrow> 'w \<Rightarrow> ((goerr + auth_token) \<times> 'w) outcome) \<Rightarrow> (auth_token \<Rightarrow> string \<Rightarrow> (goerr + auth_token) outcome) \<Rightarrow>
     'd gin_ctx \<Rightarrow> 'd request \<Rightarrow> 'w \<Rightarrow> (failure option \<times> 'd request \<times> 'w) outcome" where
  "authorize verify_token modify_token g q w =
     omap (\<lambda>(r, q1, w1). (if anonymous_ok g q then None else r, q1, w1)) (authorize_body verify_token modify_token g q w)"

section \<open>Replies\<close>

text \<open>\<open>rq_err\<close> and \<open>ctx_err\<close>: the errors of the request's context and of the one with the endpoint's timeout.\<close>

definition processErrorResponse :: "err \<Rightarrow> err \<Rightarrow> failure \<Rightarrow> (int \<times> error_response option) outcome" where
  "processErrorResponse rq_err ctx_err f = obind (InternalErr (rs_Data f)) (\<lambda>e.
     let only = (\<lambda>m. Some \<lparr>er_error = None, er_Data = None, er_Error = m, er_Code = ''''\<rparr>) in
     if is_err e rq_err then Ret (503, only ''service is shutting down'')
     else if is_err e ctx_err then Ret (504, only ''request timed out'')
     else if rs_Code f \<le> 0 then Ret (500, only ''oops, something went wrong'')
     else Ret (rs_Code f, rs_Data f))"

datatype 'r reply =
    Json_error int "error_response option"
  | Json_data int "(string \<times> string) list" 'r
  | Status_only int "(string \<times> string) list"

text \<open>An application's handler may return a nil success and a nil failure.\<close>

type_synonym ('d, 'r, 'w) handler = "'d request \<Rightarrow> 'w \<Rightarrow> ('r response option \<times> failure option \<times> 'w) outcome"

definition reply_of :: "'r response option \<Rightarrow> 'r reply outcome" where
  "reply_of s = (case s of
     None \<Rightarrow> Panic
   | Some r \<Rightarrow> Ret (case rs_Data r of Some d \<Rightarrow> Json_data (rs_Code r) (rs_Headers r) d | None \<Rightarrow> Status_only (rs_Code r) (rs_Headers r)))"

text \<open>The internal error of a failure is read for the log, before the failure is sent.\<close>

definition refuse :: "failure \<Rightarrow> 'w \<Rightarrow> ('r reply \<times> 'w) outcome" where
  "refuse f w = omap (\<lambda>e. (Json_error (rs_Code f) (rs_Data f), w)) (InternalErr (rs_Data f))"

definition RootHandler ::
    "(string \<Rightarrow> 'w \<Rightarrow> ((goerr + auth_token) \<times> 'w) outcome) \<Rightarrow> (auth_token \<Rightarrow> string \<Rightarrow> (goerr + auth_token) outcome) \<Rightarrow>
     (request_binding set \<Rightarrow> request_binding list) \<Rightarrow> ('w \<Rightarrow> err) \<Rightarrow> ('w \<Rightarrow> err) \<Rightarrow> data_type \<Rightarrow> 'd \<Rightarrow>
     ('d, 'r, 'w) handler \<Rightarrow> 'd gin_ctx \<Rightarrow> 'w \<Rightarrow> ('r reply \<times> 'w) outcome" where
  "RootHandler verify_token modify_token order rq_err ctx_err ty new handle g w =
     obind (processRequest g order ty (init_request new g)) (\<lambda>(bad, q). case bad of
       Some f \<Rightarrow> refuse f w
     | None \<Rightarrow> obind (authorize verify_token modify_token g q w) (\<lambda>(denied, q1, w1). case denied of
         Some f \<Rightarrow> refuse f w1
       | None \<Rightarrow> obind (handle q1 w1) (\<lambda>(success, bad, w2). case bad of
           Some f \<Rightarrow> omap (\<lambda>(code, body). (Json_error code body, w2)) (processErrorResponse (rq_err w2) (ctx_err w2) f)
         | None \<Rightarrow> omap (\<lambda>r. (r, w2)) (reply_of success))))"

text \<open>The health check endpoint: any request is let through, and the application's own check decides.\<close>

definition health_type :: data_type where
  "health_type = Some [\<lparr>sf_Name = ''_'', sf_Tag = (\<lambda>k. if k = ''allowUnauthorized'' then ''true'' else '''')\<rparr>]"

definition health_handler :: "('w \<Rightarrow> err \<times> 'w) \<Rightarrow> (unit, (string \<times> string) list, 'w) handler" where
  "health_handler check q w = (case check w of
     (None, w1) \<Rightarrow> Ret (Some (OK_response [Some [(''clientIp'', ''1.2.3.4'')]]), None, w1)
   | (Some e, w1) \<Rightarrow> omap (\<lambda>f. (None, Some f, w1)) (Unexpected (wrap_err ''health check failed'' (Some e))))"

section \<open>The authentication interface\<close>

text \<open>What the request handling relies on of an authentication client: modifying a token can only change its user's id, and does
  nothing without metadata.\<close>

locale auth_api =
  fixes verify_token :: "string \<Rightarrow> 'w \<Rightarrow> ((goerr + auth_token) \<times> 'w) outcome"
    and modify_token :: "auth_token \<Rightarrow> string \<Rightarrow> (goerr + auth_token) outcome"
  assumes modify_nothing: "modify_token tok '''' = Ret (Inr tok)"
    and modify_user_only: "modify_token tok md = Ret (Inr tok') \<Longrightarrow> tok' = tok\<lparr>a_UserID := a_UserID tok'\<rparr>"
begin

lemma body_passes:
  assumes "authorize_body verify_token modify_token g q w = Ret (None, q1, w1)"
  shows "\<exists>tok tok'. verify_token (trim_prefix (gin_GetHeader g ''Authorization'') ''Bearer '') w = Ret (Inr tok, w1) \<and>
    modify_token tok (gin_GetHeader g ''X-Account-Metadata'') = Ret (Inr tok') \<and> tok' = tok\<lparr>a_UserID := a_UserID tok'\<rparr> \<and>
    q1 = q\<lparr>rq_User := \<lparr>us_Token = tok', us_Language = gin_GetHeader g ''X-Language''\<rparr>\<rparr> \<and>
    \<not> foreign_user g q (a_UserID tok')"
proof -
  obtain v w2 where v: "verify_token (trim_prefix (gin_GetHeader g ''Authorization'') ''Bearer '') w = Ret (v, w2)"
    using assms by (cases "verify_token (trim_prefix (gin_GetHeader g ''Authorization'') ''Bearer '') w") (auto simp: authorize_body_def)
  obtain tok where tok: "v = Inr tok"
    using assms v by (cases v) (auto simp: authorize_body_def Forbidden_def Unauthorized_def failure_of_def split: if_splits)
  obtain m where m: "modify_token tok (gin_GetHeader g ''X-Account-Metadata'') = Ret m"
    using assms v tok by (cases "modify_token tok (gin_GetHeader g ''X-Account-Metadata'')") (auto simp: authorize_body_def)
  obtain tok' where tok': "m = Inr tok'"
    using assms v tok m by (cases m) (auto simp: authorize_body_def Unauthorized_def failure_of_def)
  have "\<not> foreign_user g q (a_UserID tok')" "q1 = q\<lparr>rq_User := \<lparr>us_Token = tok', us_Language = gin_GetHeader g ''X-Language''\<rparr>\<rparr>" "w2 = w1"
    using assms v tok m tok'
    by (auto simp: authorize_body_def Let_def foreign_user_def Forbidden_def failure_of_def split: if_splits)
  then show ?thesis using v tok m tok' modify_user_only by blast
qed

text \<open>Whatever the outcome, the user of the request is the verified one or none.\<close>

lemma body_user:
  assumes "authorize_body verify_token modify_token g q w = Ret (r, q1, w1)"
  shows "q1 = q \<or> (\<exists>tok tok'. verify_token (trim_prefix (gin_GetHeader g ''Authorization'') ''Bearer '') w = Ret (Inr tok, w1) \<and>
    modify_token tok (gin_GetHeader g ''X-Account-Metadata'') = Ret (Inr tok') \<and> tok' = tok\<lparr>a_UserID := a_UserID tok'\<rparr> \<and>
    q1 = q\<lparr>rq_User := \<lparr>us_Token = tok', us_Language = gin_GetHeader g ''X-Language''\<rparr>\<rparr>)"
proof -
  obtain v w2 where v: "verify_token (trim_prefix (gin_GetHeader g ''Authorization'') ''Bearer '') w = Ret (v, w2)"
    using assms by (cases "verify_token (trim_prefix (gin_GetHeader g ''Authorization'') ''Bearer '') w") (auto simp: authorize_body_def)
  show ?thesis
  proof (cases v)
    case (Inl e)
    then show ?thesis using assms v by (auto simp: authorize_body_def Forbidden_def Unauthorized_def failure_of_def split: if_splits)
  next
    case tok: (Inr tok)
    obtain m where m: "modify_token tok (gin_GetHeader g ''X-Account-Metadata'') = Ret m"
      using assms v tok by (cases "modify_token tok (gin_GetHeader g ''X-Account-Metadata'')") (auto simp: authorize_body_def)
    show ?thesis
    proof (cases m)
      case (Inl e)
      then show ?thesis using assms v tok m by (auto simp: authorize_body_def Unauthorized_def failure_of_def)
    next
      case (Inr tok')
      have "q1 = q\<lparr>rq_User := \<lparr>us_Token = tok', us_Language = gin_GetHeader g ''X-Language''\<rparr>\<rparr>" "w2 = w1"
        using assms v tok m Inr by (auto simp: authorize_body_def Let_def Forbidden_def failure_of_def split: if_splits)
      then show ?thesis using v tok m Inr modify_user_only by blast
    qed
  qed
qed

text \<open>The three ways of a request that carries a token and needs one.\<close>

lemma authorize_verified:
  assumes "verify_token (trim_prefix (gin_GetHeader g ''Authorization'') ''Bearer '') w = Ret (Inr tok, w1)"
    and "gin_GetHeader g ''X-Account-Metadata'' = ''''"
  shows "\<not> foreign_user g q (a_UserID tok) \<Longrightarrow> authorize verify_token modify_token g q w =
      Ret (None, q\<lparr>rq_User := \<lparr>us_Token = tok, us_Language = gin_GetHeader g ''X-Language''\<rparr>\<rparr>, w1)"
    and "foreign_user g q (a_UserID tok) \<Longrightarrow> \<not> anonymous_ok g q \<Longrightarrow> \<exists>body q1. er_Code body = ''OPERATION_NOT_ALLOWED'' \<and>
      authorize verify_token modify_token g q w = Ret (Some \<lparr>rs_Data = Some body, rs_Headers = [], rs_Code = 403\<rparr>, q1, w1)"
  using assms
  by (simp_all add: authorize_def authorize_body_def modify_nothing Let_def foreign_user_def Forbidden_def failure_of_def)

lemma authorize_refused:
  assumes "verify_token (trim_prefix (gin_GetHeader g ''Authorization'') ''Bearer '') w = Ret (Inl e, w1)"
    and "\<not> errors_is e ErrForbidden" and "\<not> anonymous_ok g q"
  shows "\<exists>body. er_Code body = ''INVALID_TOKEN'' \<and>
    authorize verify_token modify_token g q w = Ret (Some \<lparr>rs_Data = Some body, rs_Headers = [], rs_Code = 401\<rparr>, q, w1)"
  using assms by (simp add: authorize_def authorize_body_def Unauthorized_def failure_of_def)

lemma authorize_cases:
  assumes "authorize verify_token modify_token g q w = Ret (r, q1, w1)"
  obtains r0 where "authorize_body verify_token modify_token g q w = Ret (r0, q1, w1)" "r = (if anonymous_ok g q then None else r0)"
  using assms by (cases "authorize_body verify_token modify_token g q w") (auto simp: authorize_def)

end

lemma modified_user:
  assumes "ModifyTokenWithMetadata J now a tok md = Ret (Inr tok')"
  shows "tok' = tok\<lparr>a_UserID := a_UserID tok'\<rparr>"
proof (cases "md = ''''")
  case False
  then show ?thesis
    using assms
    by (cases "VerifyTokenFields_map (au_ice a) J now md"; cases "firstRegisteredUserID (projr (case VerifyTokenFields_map (au_ice a) J now md of Ret x \<Rightarrow> x))")
      (auto simp: ModifyTokenWithMetadata_def split: sum.splits if_splits)
qed (use assms in \<open>simp add: ModifyTokenWithMetadata_def\<close>)

interpretation client: auth_api "VerifyToken J S now a" "ModifyTokenWithMetadata J now a" for J S now a
  by unfold_locales (simp_all add: ModifyTokenWithMetadata_def [of J now a _ "''''"] modified_user)

text \<open>How the endpoint continues with the result of authorizing.\<close>

lemma RootHandler_authorize:
  assumes "processRequest g order ty (init_request new g) = Ret (None, q)"
  shows "authorize vt mt g q w = Ret (Some \<lparr>rs_Data = Some body, rs_Headers = [], rs_Code = code\<rparr>, q1, w1) \<Longrightarrow>
      RootHandler vt mt order rq_err ctx_err ty new handle g w = Ret (Json_error code (Some body), w1)"
    and "authorize vt mt g q w = Ret (None, q1, w1) \<Longrightarrow> handle q1 w1 = Ret (Some r, None, w2) \<Longrightarrow> rs_Data r = Some d \<Longrightarrow>
      RootHandler vt mt order rq_err ctx_err ty new handle g w = Ret (Json_data (rs_Code r) (rs_Headers r) d, w2)"
  using assms by (simp_all add: RootHandler_def refuse_def InternalErr_def reply_of_def)

section \<open>Properties\<close>

definition bearer :: "'d gin_ctx \<Rightarrow> string" where
  "bearer g = trim_prefix (gin_GetHeader g ''Authorization'') ''Bearer ''"

text \<open>
  C7. A request passes \<open>authorize\<close> only as an anonymous one, on an endpoint that allows it (a read or a post without a user in its path, or
  any method for the user \<open>-\<close>), or with a token that was verified and may act for the user in the path. What the
  handler then sees of the user is that token's: the role, email, claims and provider are exactly the verified ones, metadata
  having changed at most the id; an anonymous request whose token was not verified has no user at all.
\<close>

theorem authorized_user_is_verified:
  assumes "authorize (VerifyToken J S now a) (ModifyTokenWithMetadata J now a) g q w = Ret (None, q1, w1)" and "rq_User q = no_user"
  shows "(anonymous_ok g q \<and> rq_User q1 = no_user) \<or>
    (\<exists>tok. VerifyToken J S now a (bearer g) w = Ret (Inr tok, w1) \<and>
       us_Token (rq_User q1) = tok\<lparr>a_UserID := a_UserID (us_Token (rq_User q1))\<rparr> \<and>
       (gin_GetHeader g ''X-Account-Metadata'' = '''' \<longrightarrow> us_Token (rq_User q1) = tok) \<and>
       (anonymous_ok g q \<or> \<not> foreign_user g q (a_UserID (us_Token (rq_User q1)))))"
proof -
  obtain r0 where body: "authorize_body (VerifyToken J S now a) (ModifyTokenWithMetadata J now a) g q w = Ret (r0, q1, w1)"
    and r: "None = (if anonymous_ok g q then None else r0)"
    by (rule client.authorize_cases [OF assms(1)])
  have seen: "q1 = q \<or> (\<exists>tok. VerifyToken J S now a (bearer g) w = Ret (Inr tok, w1) \<and>
       us_Token (rq_User q1) = tok\<lparr>a_UserID := a_UserID (us_Token (rq_User q1))\<rparr> \<and>
       (gin_GetHeader g ''X-Account-Metadata'' = '''' \<longrightarrow> us_Token (rq_User q1) = tok))"
    using client.body_user [OF body]
  proof (elim disjE exE conjE)
    fix tok tok'
    assume t: "VerifyToken J S now a (trim_prefix (gin_GetHeader g ''Authorization'') ''Bearer '') w = Ret (Inr tok, w1)"
      "ModifyTokenWithMetadata J now a tok (gin_GetHeader g ''X-Account-Metadata'') = Ret (Inr tok')"
      "tok' = tok\<lparr>a_UserID := a_UserID tok'\<rparr>"
      "q1 = q\<lparr>rq_User := \<lparr>us_Token = tok', us_Language = gin_GetHeader g ''X-Language''\<rparr>\<rparr>"
    then have "us_Token (rq_User q1) = tok'" by simp
    moreover have "gin_GetHeader g ''X-Account-Metadata'' = '''' \<longrightarrow> tok' = tok"
      using t(2) client.modify_nothing [of J now a tok] by auto
    ultimately show ?thesis using t(1,3) unfolding bearer_def by metis
  qed simp
  show ?thesis
  proof (cases "anonymous_ok g q")
    case True
    then show ?thesis using seen assms(2) by auto
  next
    case False
    then have r0: "r0 = None" using r by simp
    obtain tok tok' where t: "VerifyToken J S now a (bearer g) w = Ret (Inr tok, w1)"
      "ModifyTokenWithMetadata J now a tok (gin_GetHeader g ''X-Account-Metadata'') = Ret (Inr tok')"
      "tok' = tok\<lparr>a_UserID := a_UserID tok'\<rparr>"
      "q1 = q\<lparr>rq_User := \<lparr>us_Token = tok', us_Language = gin_GetHeader g ''X-Language''\<rparr>\<rparr>" "\<not> foreign_user g q (a_UserID tok')"
      using client.body_passes [OF body [unfolded r0]] unfolding bearer_def by auto
    moreover have "gin_GetHeader g ''X-Account-Metadata'' = '''' \<longrightarrow> tok' = tok"
      using t(2) client.modify_nothing [of J now a tok] by auto
    ultimately show ?thesis by auto
  qed
qed

text \<open>A request as it arrives, with a token read from the table of the first client.\<close>

definition toy_gin :: "unit gin_ctx" where
  "toy_gin = \<lparr>gin_Method = ''PATCH'', gin_Path = ''/v1/users/u'', gin_Param = (\<lambda>k. ''u''),
     gin_GetHeader = (\<lambda>k. if k = ''Authorization'' then ''Bearer A'' else ''''), gin_ClientIP = ''::1'',
     gin_Bind = (\<lambda>b d. (None, d)), gin_IsZero = (\<lambda>d f. True)\<rparr>"

lemma toy_verifies:
  "VerifyToken toy_lib (undefined :: unit firebase_sdk) 30000000000 toy_auth ''A'' () =
     Ret (Inr \<lparr>a_Claims = own_claims toy_access, a_UserID = ''u'', a_Role = ''r'', a_Email = ''e'', a_Provider = ''ice''\<rparr>, ())"
  if "toy_access = access_claims (au_ice toy_auth) 0 3 9 ''u'' ''d'' ''e'' ''r'' Map.empty"
proof -
  have ok: "GenerateTokens toy_lib toy_auth 0 ''u'' ''d'' ''e'' 9 3 ''r'' [Map.empty] = Inr (''R'', ''A'')"
    by (simp add: GenerateTokens_def ice_GenerateTokens_def generateRefreshToken_def generateAccessToken_def toy_lib_def toy_jwt_def
        toy_auth_def refresh_claims_def access_claims_def registered_for_def auth_names)
  show ?thesis
    using access_verifies(1) [OF toy_lib_ok generated(2) [OF ok], of 30000000000 "undefined :: unit firebase_sdk" "()"] that
    by (simp add: numeric_date_def toy_auth_def ProviderIce_def)
qed

lemma toy_path: "path_user toy_gin = ''u''"
  by (simp add: path_user_def toy_gin_def trim_def trim_left_def trim_right_def)

lemma toy_headers:
  "trim_prefix (gin_GetHeader toy_gin ''Authorization'') ''Bearer '' = ''A''" "gin_GetHeader toy_gin ''X-Account-Metadata'' = ''''"
  "gin_GetHeader toy_gin ''X-Language'' = ''''"
  by (simp_all add: toy_gin_def trim_prefix_def)

theorem authorized_user_is_verified_witness:
  "\<exists>tok. VerifyToken toy_lib (undefined :: unit firebase_sdk) 30000000000 toy_auth ''A'' () = Ret (Inr tok, ())"
proof -
  have "authorize (VerifyToken toy_lib (undefined :: unit firebase_sdk) 30000000000 toy_auth)
      (ModifyTokenWithMetadata toy_lib 30000000000 toy_auth) toy_gin (init_request () toy_gin) () =
      Ret (None, (init_request () toy_gin)\<lparr>rq_User := \<lparr>us_Token = \<lparr>a_Claims = own_claims (access_claims (au_ice toy_auth) 0 3 9 ''u'' ''d'' ''e'' ''r'' Map.empty),
        a_UserID = ''u'', a_Role = ''r'', a_Email = ''e'', a_Provider = ''ice''\<rparr>, us_Language = ''''\<rparr>\<rparr>, ())"
    by (simp add: authorize_def authorize_body_def toy_headers toy_verifies [OF refl] client.modify_nothing foreign_user_def
        toy_path anonymous_ok_def Let_def)
  from authorized_user_is_verified [OF this] show ?thesis
    by (auto simp: anonymous_ok_def init_request_def bearer_def toy_gin_def trim_prefix_def)
qed

text \<open>
  C37. A request whose data does not bind, or lacks a field that must be present, is answered with status 422: neither the
  authentication client nor the endpoint's own code runs, so nothing but the reply happens.
\<close>

theorem invalid_request_stops:
  assumes "processTags ty (init_request new g) = Ret q" and "bind_all g (order (rq_bindings q)) new = (es, d)"
    and "join_errs es \<noteq> None \<or> missing g (q\<lparr>rq_Data := d\<rparr>) \<noteq> []"
  shows "\<exists>body. RootHandler vt mt order rq_err ctx_err ty new handle g w = Ret (Json_error 422 (Some body), w) \<and>
    er_Code body = (if join_errs es = None then ''MISSING_PROPERTIES'' else ''STRUCTURE_VALIDATION_FAILED'')"
proof -
  have new: "rq_Data q = new"
  proof -
    have keep: "rq_Data (process_field q' f) = rq_Data q'" for q' :: "'a request" and f
      by (simp add: process_field_def process_bindings_def process_flags_def Let_def if_tag_def add_binding_def)
    have "rq_Data (foldl process_field q' fs) = rq_Data q'" for q' :: "'a request" and fs
      by (induction fs arbitrary: q') (simp_all add: keep)
    then show ?thesis using assms(1) by (auto simp: processTags_def init_request_def split: option.splits)
  qed
  show ?thesis
  proof (cases "join_errs es")
    case (Some e)
    then show ?thesis
      using assms(1,2) new
      by (simp add: RootHandler_def processRequest_def wrap_err_def UnprocessableEntity_def failure_of_def refuse_def InternalErr_def Let_def)
  next
    case None
    then have miss: "missing g (q\<lparr>rq_Data := d\<rparr>) \<noteq> []" using assms(3) by simp
    then have "rq_required q \<noteq> []" by (auto simp: missing_def)
    then obtain body where body: "validate g (q\<lparr>rq_Data := d\<rparr>) = Ret (Some \<lparr>rs_Data = Some body, rs_Headers = [], rs_Code = 422\<rparr>)"
        "er_Code body = ''MISSING_PROPERTIES''"
      using miss by (simp add: validate_def UnprocessableEntity_def failure_of_def)
    have "processRequest g order ty (init_request new g) =
        Ret (Some \<lparr>rs_Data = Some body, rs_Headers = [], rs_Code = 422\<rparr>, q\<lparr>rq_Data := d\<rparr>)"
      by (simp only: processRequest_def assms(1) new assms(2) obind.simps Let_def prod.case None option.case body(1) omap.simps)
    then have "RootHandler vt mt order rq_err ctx_err ty new handle g w = Ret (Json_error 422 (Some body), w)"
      by (simp add: RootHandler_def refuse_def InternalErr_def)
    then show ?thesis using None body(2) by simp
  qed
qed

definition toy_type :: data_type where
  "toy_type = Some [\<lparr>sf_Name = ''Name'', sf_Tag = (\<lambda>k. if k = ''required'' then ''true'' else if k = ''json'' then ''name'' else '''')\<rparr>]"

theorem invalid_request_stops_witness:
  "\<exists>body. RootHandler (\<lambda>t w. Panic) (\<lambda>t m. Panic) (\<lambda>bs. [json]) (\<lambda>w. None) (\<lambda>w. None) toy_type () (\<lambda>q w. Panic :: (nat response option \<times> failure option \<times> unit) outcome) toy_gin () =
     Ret (Json_error 422 (Some body), ()) \<and> er_Code body = ''MISSING_PROPERTIES''"
proof -
  have tags: "processTags toy_type (init_request () toy_gin) = Ret ((init_request () toy_gin)\<lparr>rq_required := [''Name''], rq_bindings := {json}\<rparr>)"
    by (simp add: processTags_def toy_type_def process_field_def process_bindings_def process_flags_def add_binding_def if_tag_def Let_def init_request_def)
  have binds: "bind_all toy_gin ((\<lambda>bs. [json]) (rq_bindings ((init_request () toy_gin)\<lparr>rq_required := [''Name''], rq_bindings := {json}\<rparr>))) () = ([None], ())"
    by (simp add: toy_gin_def)
  show ?thesis
    using invalid_request_stops [OF tags binds, of "\<lambda>t w. Panic" "\<lambda>t m. Panic" "\<lambda>w. None" "\<lambda>w. None"
        "\<lambda>q w. Panic :: (nat response option \<times> failure option \<times> unit) outcome" "()"]
    by (simp add: join_errs_def missing_def toy_gin_def)
qed

text \<open>
  What a failed endpoint is answered: 503 when its error is the one the request's context was ended with, 504 when it is that of the
  endpoint's deadline, 500 without any detail when the failure carries no status of its own, and otherwise the failure
  itself. But a failure without an internal error is answered 503, whatever its status, as long as the request's context is live: the two nil
  errors count as the same.
\<close>

theorem error_reply_outcome:
  "(\<forall>r e c ce. rs_Data f = Some r \<and> er_error r = Some e \<and> errors_is e c \<longrightarrow>
      omap fst (processErrorResponse (Some c) ce f) = Ret 503 \<and> omap fst (processErrorResponse None (Some c) f) = Ret 504) \<and>
   (\<forall>r e. rs_Data f = Some r \<and> er_error r = Some e \<longrightarrow>
      processErrorResponse None None f = (if rs_Code f > 0 then Ret (rs_Code f, Some r)
        else Ret (500, Some \<lparr>er_error = None, er_Data = None, er_Error = ''oops, something went wrong'', er_Code = ''''\<rparr>))) \<and>
   (\<forall>r ce. rs_Data f = Some r \<and> er_error r = None \<longrightarrow> omap fst (processErrorResponse None ce f) = Ret 503)"
  by (auto simp: processErrorResponse_def InternalErr_def)

theorem error_reply_outcome_witness:
  "omap fst (processErrorResponse None None \<lparr>rs_Data = Some \<lparr>er_error = None, er_Data = None, er_Error = ''taken'', er_Code = ''X''\<rparr>, rs_Headers = [], rs_Code = 409\<rparr>)
     = Ret 503"
  using error_reply_outcome [of "\<lparr>rs_Data = Some \<lparr>er_error = None, er_Data = None, er_Error = ''taken'', er_Code = ''X''\<rparr>, rs_Headers = [], rs_Code = 409\<rparr>"]
  by simp

end
