(* ===== verification/Server_Life.thy ===== *)
theory Server_Life
  imports Server_Http
begin

text \<open>
  The life of the HTTP server (\<open>server/server.go\<close>): its configuration and routes, and the two threads of \<open>ListenAndServe\<close>, the one
  that listens and the one that waits for the end and shuts down, as a step relation over their interleavings.
\<close>

section \<open>Setting up\<close>

record srv =
  sv_swaggerRoot :: string
  sv_nginxPrefix :: string
  sv_applicationYAMLKey :: string

definition New_server :: "string \<Rightarrow> string \<Rightarrow> string list \<Rightarrow> srv" where
  "New_server cfgKey swaggerRoot nginxPrefixOpt =
     \<lparr>sv_swaggerRoot = swaggerRoot, sv_nginxPrefix = (case nginxPrefixOpt of [] \<Rightarrow> '''' | p # ps \<Rightarrow> p), sv_applicationYAMLKey = cfgKey\<rparr>"

datatype route = Application string | Redirect string string | Swagger string | Health string

definition setupSwaggerRoutes :: "srv \<Rightarrow> route list" where
  "setupSwaggerRoutes s = (let root = sv_swaggerRoot s in
     if root = '''' then []
     else [Redirect root (sv_nginxPrefix s @ root @ ''/swagger/index.html''), Swagger (root @ ''/swagger/*any'')])"

definition setupHealthCheckRoutes :: "route list" where
  "setupHealthCheckRoutes = [Health ''health-check'']"

definition setupRouter :: "srv \<Rightarrow> string list \<Rightarrow> route list" where
  "setupRouter s app = map Application app @ setupSwaggerRoutes s @ setupHealthCheckRoutes"

section \<open>Listening and shutting down\<close>

definition EOF :: goerr where "EOF = Sentinel ''EOF''"
definition ErrServerClosed :: goerr where "ErrServerClosed = Sentinel ''http: Server closed''"

definition isUnexpectedError :: "err \<Rightarrow> bool" where
  "isUnexpectedError e = (case e of None \<Rightarrow> False | Some x \<Rightarrow> \<not> errors_is x EOF \<and> \<not> errors_is x ErrServerClosed)"

text \<open>
  The listening thread: listening, sending on the channel \<open>quit\<close> (whose value it has read: a nil channel or one of capacity one),
  or ended. The main thread: before \<open>wait\<close> has made the channel, with the channel made, waiting with the signals
  registered, shutting down, closing the state, done.
\<close>

datatype listen_phase = Listening | Sending_nil | Sending | Ended
datatype main_phase = Starting | Made | Waiting | Shutting | Closing | Finished
fun main_rank :: "main_phase \<Rightarrow> nat" where
  "main_rank Starting = 0" | "main_rank Made = 1" | "main_rank Waiting = 2" | "main_rank Shutting = 3" | "main_rank Closing = 4"
| "main_rank Finished = 5"

lemma main_rank_inject: "main_rank p = main_rank q \<longleftrightarrow> p = q"
  by (cases p; cases q) simp_all

instantiation main_phase :: linorder
begin

definition less_eq_main_phase :: "main_phase \<Rightarrow> main_phase \<Rightarrow> bool" where "less_eq_main_phase p q \<longleftrightarrow> main_rank p \<le> main_rank q"

definition less_main_phase :: "main_phase \<Rightarrow> main_phase \<Rightarrow> bool" where "less_main_phase p q \<longleftrightarrow> main_rank p < main_rank q"

instance
  by standard (auto simp: less_eq_main_phase_def less_main_phase_def main_rank_inject)

end

datatype life_event = Shutdown_called err | Close_called err | Listen_failed err

record life =
  li_listener :: listen_phase
  li_main :: main_phase
  li_quit :: nat
  li_ctx :: bool
  li_failed :: bool
  li_log :: "life_event list"

definition life_start :: life where
  "life_start = \<lparr>li_listener = Listening, li_main = Starting, li_quit = 0, li_ctx = False, li_failed = False, li_log = []\<rparr>"

datatype life_label = Listen_ends err | Send | Make | Register | Signal | Ctx_done | Wake | Do_Shutdown err | Do_Close err

definition external :: "life_label \<Rightarrow> bool" where
  "external l \<longleftrightarrow> (case l of Signal \<Rightarrow> True | Ctx_done \<Rightarrow> True | Listen_ends e \<Rightarrow> True | _ \<Rightarrow> False)"

inductive life_step :: "life_label \<Rightarrow> life \<Rightarrow> life \<Rightarrow> bool" where
  ends: "li_listener s = Listening \<Longrightarrow> \<not> isUnexpectedError e \<Longrightarrow> life_step (Listen_ends e) s (s\<lparr>li_listener := Ended\<rparr>)"
| fails: "li_listener s = Listening \<Longrightarrow> isUnexpectedError e \<Longrightarrow>
    life_step (Listen_ends e) s (s\<lparr>li_listener := (if li_main s = Starting then Sending_nil else Sending), li_failed := True\<rparr>)"
| send: "li_listener s = Sending \<Longrightarrow> li_quit s = 0 \<Longrightarrow> life_step Send s (s\<lparr>li_listener := Ended, li_quit := 1\<rparr>)"
| make: "li_main s = Starting \<Longrightarrow> life_step Make s (s\<lparr>li_main := Made\<rparr>)"
| register: "li_main s = Made \<Longrightarrow> life_step Register s (s\<lparr>li_main := Waiting\<rparr>)"
| signal: "li_main s \<noteq> Starting \<Longrightarrow> li_main s \<noteq> Made \<Longrightarrow> life_step Signal s (s\<lparr>li_quit := 1\<rparr>)"
| ctx: "life_step Ctx_done s (s\<lparr>li_ctx := True\<rparr>)"
| wake_ctx: "li_main s = Waiting \<Longrightarrow> li_ctx s \<Longrightarrow> life_step Wake s (s\<lparr>li_main := Shutting\<rparr>)"
| wake_quit: "li_main s = Waiting \<Longrightarrow> li_quit s = 1 \<Longrightarrow> life_step Wake s (s\<lparr>li_main := Shutting, li_quit := 0\<rparr>)"
| shutdown: "li_main s = Shutting \<Longrightarrow> life_step (Do_Shutdown e) s (s\<lparr>li_main := Closing, li_log := li_log s @ [Shutdown_called e]\<rparr>)"
| close: "li_main s = Closing \<Longrightarrow> life_step (Do_Close e) s (s\<lparr>li_main := Finished, li_log := li_log s @ [Close_called e]\<rparr>)"

inductive_cases life_stepE: "life_step l s s'"

inductive life_reach :: "life \<Rightarrow> bool" where
  start: "life_reach life_start"
| step: "life_reach s \<Longrightarrow> life_step l s s' \<Longrightarrow> life_reach s'"

text \<open>What holds of every reachable state: what has been called follows from the phase, a failure that could be announced is
  waiting to be, is announced, or was; and a shutdown has a cause.\<close>

fun phase_log :: "main_phase \<Rightarrow> life_event list \<Rightarrow> bool" where
  "phase_log Closing es = (\<exists>e. es = [Shutdown_called e])"
| "phase_log Finished es = (\<exists>e e'. es = [Shutdown_called e, Close_called e'])"
| "phase_log p es = (es = [])"

definition life_ok :: "life \<Rightarrow> bool" where
  "life_ok s \<longleftrightarrow> phase_log (li_main s) (li_log s) \<and> li_quit s \<le> 1 \<and>
     (li_listener s = Sending \<longrightarrow> li_main s \<noteq> Starting) \<and>
     (li_listener s \<in> {Sending, Sending_nil} \<longrightarrow> li_failed s) \<and>
     (li_failed s \<longrightarrow> li_listener s \<noteq> Listening) \<and>
     (li_failed s \<and> li_listener s = Ended \<and> li_main s \<in> {Starting, Made, Waiting} \<longrightarrow> li_quit s = 1)"

lemma life_ok_step: "life_step l s s' \<Longrightarrow> life_ok s \<Longrightarrow> life_ok s'"
  by (erule life_step.cases) (simp_all add: life_ok_def)

text \<open>The main thread never goes back.\<close>

lemma main_phase_mono: "life_step l s s' \<Longrightarrow> li_main s \<le> li_main s'"
  by (erule life_step.cases) (simp_all add: less_eq_main_phase_def)

lemma life_ok_reach: "life_reach s \<Longrightarrow> life_ok s"
proof (induction rule: life_reach.induct)
  case start
  then show ?case by (simp add: life_ok_def life_start_def)
next
  case (step s l s')
  then show ?case by (blast intro: life_ok_step)
qed

text \<open>How many internal steps are left.\<close>

definition life_measure :: "life \<Rightarrow> nat" where
  "life_measure s = (case li_listener s of Sending \<Rightarrow> 1 | _ \<Rightarrow> 0) +
     (case li_main s of Starting \<Rightarrow> 5 | Made \<Rightarrow> 4 | Waiting \<Rightarrow> 3 | Shutting \<Rightarrow> 2 | Closing \<Rightarrow> 1 | Finished \<Rightarrow> 0)"

lemma internal_labels: "\<not> external Make" "\<not> external Register" "\<not> external Wake" "\<not> external Send" "\<not> external (Do_Shutdown e)"
    "\<not> external (Do_Close e)"
  by (simp_all add: external_def)

definition own_step :: "life \<Rightarrow> bool" where
  "own_step s \<longleftrightarrow> (\<exists>l s'. life_step l s s' \<and> \<not> external l)"

lemma own_stepI: "life_step l s s' \<Longrightarrow> \<not> external l \<Longrightarrow> own_step s"
  unfolding own_step_def by (intro exI conjI)

lemmas internal_possible =
  own_stepI [OF life_step.make internal_labels(1)] own_stepI [OF life_step.register internal_labels(2)]
  own_stepI [OF life_step.wake_quit internal_labels(3)] own_stepI [OF life_step.send internal_labels(4)]
  own_stepI [OF life_step.shutdown internal_labels(5)] own_stepI [OF life_step.close internal_labels(6)]

lemma failed_progress:
  assumes "life_ok s" and "li_failed s" and "li_listener s \<noteq> Sending_nil"
  shows "(li_main s = Finished \<and> (\<exists>e e'. li_log s = [Shutdown_called e, Close_called e'])) \<or> own_step s"
proof (cases "li_main s")
  case Waiting
  have "li_quit s = 1 \<or> li_listener s = Sending \<and> li_quit s = 0"
    using assms Waiting by (cases "li_listener s") (auto simp: life_ok_def)
  then show ?thesis using internal_possible(3,4) [of s] Waiting by blast
next
  case Finished
  then show ?thesis using assms(1) by (simp add: life_ok_def)
qed (use internal_possible(1,2,5,6) [of s] in blast)+

lemma internal_decreases:
  "life_step l s s' \<Longrightarrow> \<not> external l \<Longrightarrow>
     life_measure s' < life_measure s \<and> li_failed s' = li_failed s \<and> (li_listener s' = Sending_nil \<longleftrightarrow> li_listener s = Sending_nil)"
  by (erule life_step.cases) (simp_all add: life_measure_def external_def)

section \<open>Properties\<close>

text \<open>
  C9. After the listener has failed with its channel in place, the server ends by itself: in every reachable state with such a failure
  a step of its own is possible until the server has been shut down and the state closed, once and in this order, and every step of its own
  brings it nearer to that.
\<close>

theorem listener_failure_shuts_down:
  assumes "life_reach s" and "li_failed s" and "li_listener s \<noteq> Sending_nil"
  shows "((li_main s = Finished \<and> (\<exists>e e'. li_log s = [Shutdown_called e, Close_called e'])) \<or>
      (\<exists>l s'. life_step l s s' \<and> \<not> external l)) \<and>
    (\<forall>l s'. life_step l s s' \<and> \<not> external l \<longrightarrow> life_measure s' < life_measure s \<and> li_failed s' \<and> li_listener s' \<noteq> Sending_nil)"
  using failed_progress [OF life_ok_reach [OF assms(1)] assms(2,3)] internal_decreases assms(2,3) unfolding own_step_def by blast

text \<open>A run in which the listener fails while the signals are being registered.\<close>

definition life_failing :: life where
  "life_failing = life_start\<lparr>li_main := Made, li_listener := Sending, li_failed := True\<rparr>"

lemma reach_failing: "life_reach life_failing"
proof -
  have 1: "life_reach (life_start\<lparr>li_main := Made\<rparr>)"
    by (rule life_reach.step [OF life_reach.start life_step.make]) (simp add: life_start_def)
  have "life_step (Listen_ends (Some (Sentinel ''address already in use''))) (life_start\<lparr>li_main := Made\<rparr>) life_failing"
    using life_step.fails [of "life_start\<lparr>li_main := Made\<rparr>" "Some (Sentinel ''address already in use'')"]
    by (simp add: life_failing_def life_start_def isUnexpectedError_def EOF_def ErrServerClosed_def)
  with 1 show ?thesis by (rule life_reach.step)
qed

theorem listener_failure_shuts_down_witness: "\<exists>l s'. life_step l life_failing s' \<and> \<not> external l"
  using listener_failure_shuts_down [OF reach_failing] by (simp add: life_failing_def life_start_def)

text \<open>
  A failure of the listener that comes before the main thread has made the channel (a port already in use, say) is lost: the send on the
  nil channel never returns, and from every state the server can then reach while it waits, without a signal and with its
  context not done, there is no step that is not from outside. The server keeps waiting, not listening.
\<close>

theorem early_listener_failure_is_lost:
  assumes "life_reach s" and "li_listener s = Sending_nil"
  shows "li_failed s \<and> (\<forall>l s'. life_step l s s' \<longrightarrow> li_listener s' = Sending_nil \<and>
    (li_main s = Waiting \<and> li_quit s = 0 \<and> \<not> li_ctx s \<longrightarrow> l = Signal \<or> l = Ctx_done))"
proof -
  have "li_failed s" using life_ok_reach [OF assms(1)] assms(2) by (simp add: life_ok_def)
  moreover have "li_listener s' = Sending_nil \<and> (li_main s = Waiting \<and> li_quit s = 0 \<and> \<not> li_ctx s \<longrightarrow> l = Signal \<or> l = Ctx_done)"
    if "life_step l s s'" for l s'
    using that assms(2) by (cases rule: life_step.cases) simp_all
  ultimately show ?thesis by blast
qed

definition life_lost :: life where
  "life_lost = life_start\<lparr>li_listener := Sending_nil, li_failed := True, li_main := Waiting\<rparr>"

lemma reach_lost: "life_reach life_lost"
proof -
  let ?a = "life_start\<lparr>li_listener := Sending_nil, li_failed := True\<rparr>"
  have "life_step (Listen_ends (Some (Sentinel ''address already in use''))) life_start ?a"
    using life_step.fails [of life_start "Some (Sentinel ''address already in use'')"]
    by (simp add: life_start_def isUnexpectedError_def EOF_def ErrServerClosed_def)
  with life_reach.start have 1: "life_reach ?a" by (rule life_reach.step)
  have 2: "life_reach (?a\<lparr>li_main := Made\<rparr>)"
    by (rule life_reach.step [OF 1 life_step.make]) (simp add: life_start_def)
  have "life_step Register (?a\<lparr>li_main := Made\<rparr>) life_lost"
    using life_step.register [of "?a\<lparr>li_main := Made\<rparr>"] by (simp add: life_lost_def life_start_def)
  with 2 show ?thesis by (rule life_reach.step)
qed

theorem early_listener_failure_is_lost_witness:
  "\<not> (\<exists>s'. life_step Wake life_lost s') \<and> \<not> (\<exists>s'. life_step Send life_lost s')"
  using early_listener_failure_is_lost [OF reach_lost] by (auto simp: life_lost_def life_start_def)

end
