(* ===== verification/Picture.thy ===== *)
theory Picture
  imports Rest_Client
begin

text \<open>
  The picture storage client (\<open>multimedia/picture/picture.go\<close>): names and URLs, uploading a picture and deleting the one it
  replaces. The storage's HTTP interface and the uploaded file are parameters.
\<close>

section \<open>Names\<close>

record picture_config =
  pc_AccessKey :: string
  URLUpload :: string
  URLDownload :: string

definition uploadURL :: "picture_config \<Rightarrow> string \<Rightarrow> string" where
  "uploadURL p filename = (if filename = '''' \<or> has_prefix filename (URLUpload p) then filename else URLUpload p @ ''/'' @ filename)"

definition DownloadURL :: "picture_config \<Rightarrow> string \<Rightarrow> string" where
  "DownloadURL p name = (if name = '''' \<or> has_prefix name (URLDownload p) then name else URLDownload p @ ''/'' @ name)"

definition StripDownloadURL :: "picture_config \<Rightarrow> string \<Rightarrow> string" where
  "StripDownloadURL p url = (if url = '''' \<or> \<not> has_prefix url (URLDownload p) then url else replace_first url (URLDownload p @ ''/'') '''')"

definition SQLAliasDownloadURL :: "picture_config \<Rightarrow> string \<Rightarrow> string" where
  "SQLAliasDownloadURL p name = [CHR 0x27] @ URLDownload p @ ''/'' @ [CHR 0x27] @ '' || '' @ name"

section \<open>Uploading and deleting\<close>

text \<open>The file of a form: opening it, whether a file that could not be opened is nil, reading it, closing it.\<close>

record form_file =
  ff_Size :: int
  ff_Filename :: string
  ff_ContentType :: string
  ff_Open :: err
  ff_Nil :: bool
  ff_ReadAll :: "goerr + string"
  ff_Close :: err

record 'w storage_api =
  st_Put :: "string \<Rightarrow> string \<Rightarrow> string \<Rightarrow> 'w \<Rightarrow> (goerr + http_reply) \<times> 'w"
  st_Delete :: "string \<Rightarrow> 'w \<Rightarrow> (goerr + http_reply) \<times> 'w"

definition body_text :: "http_reply \<Rightarrow> string" where
  "body_text r = (case hr_Body r of Inl e \<Rightarrow> '''' | Inr s \<Rightarrow> s)"

definition doUploadPicture :: "'w storage_api \<Rightarrow> (int \<Rightarrow> string) \<Rightarrow> picture_config \<Rightarrow> form_file \<Rightarrow> string \<Rightarrow> 'w \<Rightarrow> err \<times> 'w" where
  "doUploadPicture S show_int p f content w = (case st_Put S (uploadURL p (ff_Filename f)) (ff_ContentType f) content w of
     (Inl e, w1) \<Rightarrow> (Some (Wrapped ''upload picture request failed'' e), w1)
   | (Inr r, w1) \<Rightarrow>
       (if is_success r then (None, w1)
        else (Some (Wrapped ''upload picture request failed''
               (Sentinel (''upload new picture failed with status: '' @ show_int (hr_Status r) @ '',body: '' @ body_text r))), w1)))"

text \<open>\<open>ignored\<close>: the pattern of names that are never deleted, if the client has one.\<close>

definition doDeletePicture :: "'w storage_api \<Rightarrow> (int \<Rightarrow> string) \<Rightarrow> picture_config \<Rightarrow> (string \<Rightarrow> bool) option \<Rightarrow> string \<Rightarrow> 'w \<Rightarrow> err \<times> 'w" where
  "doDeletePicture S show_int p ignored name w =
     (if name = '''' then (None, w)
      else
        (let url = DownloadURL p ''*'';
             filename = replace_first name (take (length url - 1) url) ''''
         in if (case ignored of None \<Rightarrow> False | Some matches \<Rightarrow> matches filename) then (None, w)
            else (case st_Delete S (uploadURL p filename) w of
                (Inl e, w1) \<Rightarrow> (Some (Wrapped ''delete picture request failed'' e), w1)
              | (Inr r, w1) \<Rightarrow>
                  (if is_success r \<or> hr_Status r = 404 then (None, w1)
                   else (Some (Wrapped ''delete picture request failed''
                          (Sentinel (''delete picture failed with status: '' @ show_int (hr_Status r) @ '',body: '' @ body_text r))), w1)))))"

text \<open>The function's error is one variable: the closing of the file, deferred after the deletion of the old picture and so run before
  it, assigns it, and the deletion happens when it is nil then. Closing a nil file panics.\<close>

definition UploadPicture ::
    "'w storage_api \<Rightarrow> (int \<Rightarrow> string) \<Rightarrow> picture_config \<Rightarrow> (string \<Rightarrow> bool) option \<Rightarrow> form_file option \<Rightarrow> string \<Rightarrow> 'w \<Rightarrow> (err \<times> 'w) outcome" where
  "UploadPicture S show_int p ignored data old w =
     (let replace = (\<lambda>w. apfst (wrap_err (''failed to delete old picture '' @ old)) (doDeletePicture S show_int p ignored old w)) in
      case data of
        None \<Rightarrow> Ret (replace w)
      | Some f \<Rightarrow>
          (if ff_Size f = 0 then Ret (replace w)
           else if ff_Open f \<noteq> None \<and> ff_Nil f then Panic
           else
             (let (err, w1) = (if ff_Open f \<noteq> None then (wrap_err (''error opening file '' @ ff_Filename f) (ff_Open f), w)
                  else case ff_ReadAll f of
                    Inl e \<Rightarrow> (Some (Wrapped (''error reading file '' @ ff_Filename f) e), w)
                  | Inr content \<Rightarrow> apfst (wrap_err (''error uploading picture '' @ ff_Filename f)) (doUploadPicture S show_int p f content w));
                  err = ff_Close f
              in Ret (if err = None then replace w1 else (err, w1)))))"

text \<open>\<open>None\<close>: no such client. Bootstrapping deletes a picture that does not exist, which must be answered 404.\<close>

definition New_picture :: "'w storage_api \<Rightarrow> (string \<Rightarrow> string) \<Rightarrow> string \<Rightarrow> string \<Rightarrow> picture_config \<Rightarrow> 'w \<Rightarrow> (picture_config \<times> 'w) outcome" where
  "New_picture S getenv uuid key loaded w =
     (let p = loaded\<lparr>pc_AccessKey := env_setting (\<lambda>s. s = '''') getenv key ''PICTURE_STORAGE_ACCESS_KEY'' (pc_AccessKey loaded)\<rparr> in
      if URLUpload p = '''' then Ret (p, w)
      else (case st_Delete S (uploadURL p (uuid @ ''.jpg'')) w of
          (Inl e, w1) \<Rightarrow> Panic
        | (Inr r, w1) \<Rightarrow> if hr_Status r \<noteq> 404 then Panic else Ret (p, w1)))"

text \<open>Which answers the HTTP client asks again for.\<close>

definition picture_retries :: "goerr + http_reply \<Rightarrow> bool" where
  "picture_retries r = (case r of Inl e \<Rightarrow> True | Inr x \<Rightarrow> hr_Status x = 429 \<or> 500 \<le> hr_Status x)"

section \<open>Properties\<close>

text \<open>Removing what \<open>DownloadURL\<close> put in front.\<close>

lemma replace_first_own_prefix: "old \<noteq> [] \<Longrightarrow> replace_first (old @ s) old '''' = s"
  by (cases old) (simp_all add: has_prefix_append)

lemma download_strip:
  assumes "\<not> has_prefix name (URLDownload p)"
  shows "StripDownloadURL p (DownloadURL p name) = name"
proof (cases "name = ''''")
  case False
  then have "DownloadURL p name = (URLDownload p @ ''/'') @ name" using assms by (simp add: DownloadURL_def)
  moreover have "has_prefix ((URLDownload p @ ''/'') @ name) (URLDownload p)" by (simp add: has_prefix_append)
  ultimately show ?thesis
    using replace_first_own_prefix [of "URLDownload p @ ''/''" name] by (simp add: StripDownloadURL_def)
qed (simp add: DownloadURL_def StripDownloadURL_def)

text \<open>
  C17. A failed upload is not reported and loses the old picture: whenever the file opens and closes without an error, \<open>UploadPicture\<close>
  returns what deleting the old picture returned, done after the upload, whether the upload was made or not and whether it succeeded.
\<close>

theorem failed_upload_deletes_old_picture:
  assumes "ff_Size f \<noteq> 0" and "ff_Open f = None" and "ff_Close f = None"
  shows "\<exists>w1. UploadPicture S show_int p ignored (Some f) old w =
      Ret (apfst (wrap_err (''failed to delete old picture '' @ old)) (doDeletePicture S show_int p ignored old w1)) \<and>
    (case ff_ReadAll f of Inl e \<Rightarrow> w1 = w
       | Inr content \<Rightarrow> w1 = snd (st_Put S (uploadURL p (ff_Filename f)) (ff_ContentType f) content w))"
proof (cases "ff_ReadAll f")
  case (Inl e)
  then show ?thesis using assms by (simp add: UploadPicture_def)
next
  case (Inr content)
  obtain r w1 where put: "st_Put S (uploadURL p (ff_Filename f)) (ff_ContentType f) content w = (r, w1)"
    by (cases "st_Put S (uploadURL p (ff_Filename f)) (ff_ContentType f) content w")
  have "snd (doUploadPicture S show_int p f content w) = w1"
    using put by (auto simp: doUploadPicture_def split: sum.splits)
  then show ?thesis
    using assms Inr put by (cases "doUploadPicture S show_int p f content w") (simp add: UploadPicture_def)
qed

text \<open>A storage that has the pictures of a list and refuses every upload.\<close>

definition toy_storage :: "string list storage_api" where
  "toy_storage = \<lparr>st_Put = (\<lambda>url ty c w. (Inr \<lparr>hr_Status = 500, hr_Body = Inr ''''\<rparr>, w)),
     st_Delete = (\<lambda>url w. (Inr \<lparr>hr_Status = 200, hr_Body = Inr ''''\<rparr>, removeAll url w))\<rparr>"

definition toy_file :: form_file where
  "toy_file = \<lparr>ff_Size = 1, ff_Filename = ''b.jpg'', ff_ContentType = ''image/jpeg'', ff_Open = None, ff_Nil = False, ff_ReadAll = Inr ''x'', ff_Close = None\<rparr>"

theorem failed_upload_deletes_old_picture_witness:
  "UploadPicture toy_storage (\<lambda>i. '''') \<lparr>pc_AccessKey = '''', URLUpload = ''up'', URLDownload = ''down''\<rparr> None (Some toy_file) ''a.jpg'' [''up/a.jpg''] =
     Ret (None, [])"
proof -
  obtain w1 where w: "UploadPicture toy_storage (\<lambda>i. '''') \<lparr>pc_AccessKey = '''', URLUpload = ''up'', URLDownload = ''down''\<rparr> None (Some toy_file) ''a.jpg'' [''up/a.jpg''] =
      Ret (apfst (wrap_err (''failed to delete old picture '' @ ''a.jpg'')) (doDeletePicture toy_storage (\<lambda>i. '''')
        \<lparr>pc_AccessKey = '''', URLUpload = ''up'', URLDownload = ''down''\<rparr> None ''a.jpg'' w1))" "w1 = [''up/a.jpg'']"
    using failed_upload_deletes_old_picture [of toy_file toy_storage "\<lambda>i. ''''" "\<lparr>pc_AccessKey = '''', URLUpload = ''up'', URLDownload = ''down''\<rparr>"
        None "''a.jpg''" "[''up/a.jpg'']"]
    by (auto simp: toy_file_def toy_storage_def)
  then show ?thesis
    by (simp add: doDeletePicture_def DownloadURL_def uploadURL_def toy_storage_def is_success_def)
qed

end
