(* ===== verification/Telegram.thy ===== *)
theory Telegram
  imports Rest_Client Decimal
begin

text \<open>
  The Telegram bot client (\<open>notifications/telegram/telegram.go\<close>): its configuration, sending messages, reading updates, and what
  becomes of the service's answers. JSON and HTTP are parameters; the HTTP client repeats a request by itself while
  \<open>telegram_retries\<close> says so, and the answer here is the last one.
\<close>

section \<open>Data\<close>

record telegram_config =
  tg_BotToken :: string
  tg_ParseMode :: string
  tg_BaseURL :: string
  tg_PreviewDisabled :: bool

record button =
  bt_Text :: string
  bt_URL :: string
  bt_CallbackData :: string

record tg_notification =
  tn_ChatID :: string
  tn_Text :: string
  tn_PreviewImageURL :: string
  tn_BotToken :: string
  tn_Buttons :: "button list"
  tn_ReplyMessageID :: int
  tn_DisableNotification :: bool

record telegram_message =
  ms_ChatID :: string
  ms_Text :: string
  ms_ParseMode :: string
  ms_PreviewURL :: string
  ms_PreviewDisabled :: bool
  ms_PreviewAbove :: bool
  ms_Keyboard :: "button list list"
  ms_ReplyTo :: int
  ms_DisableNotification :: bool

record get_updates =
  gu_BotToken :: string
  gu_AllowedUpdates :: "string list"
  gu_Limit :: int
  gu_Offset :: int

definition ErrChatNotFound :: goerr where "ErrChatNotFound = Sentinel ''chat not found''"
definition ErrBadRequest :: goerr where "ErrBadRequest = Sentinel ''bad request''"
definition ErrTelegramForbidden :: goerr where "ErrTelegramForbidden = Sentinel ''forbidden''"
definition ErrBotConflict :: goerr where "ErrBotConflict = Sentinel ''conflict''"

text \<open>\<open>tg_Parse\<close> reads the list of updates out of a response.\<close>

record ('u, 'w) telegram_api =
  tg_Marshal :: "telegram_message \<Rightarrow> goerr + string"
  tg_MarshalUpdates :: "get_updates \<Rightarrow> goerr + string"
  tg_Parse :: "string \<Rightarrow> goerr + 'u list"
  tg_Post :: "string \<Rightarrow> string \<Rightarrow> 'w \<Rightarrow> (goerr + http_reply) \<times> 'w"
  tg_ctx :: "'w \<Rightarrow> err"

section \<open>Operations\<close>

definition telegram_retries :: "goerr + http_reply \<Rightarrow> bool" where
  "telegram_retries r = (case r of Inl e \<Rightarrow> True | Inr x \<Rightarrow> is_error_state x \<and> hr_Status x \<notin> {400, 403, 404})"

text \<open>Which error a status is given; a status without one leaves the variable nil.\<close>

definition status_error :: "int \<Rightarrow> err" where
  "status_error s = (if s = 400 then Some ErrBadRequest else if s = 403 then Some ErrTelegramForbidden
     else if s = 404 then Some ErrChatNotFound else if s = 409 then Some ErrBotConflict else None)"

definition post_failed :: "string \<Rightarrow> string" where
  "post_failed url = ''notifications/telegram post `'' @ url @ ''` failed''"

text \<open>\<open>post\<close>: the text of the response and the error. Both branches of the switch wrap the variable, so its nil stays nil.\<close>

definition telegram_post :: "('u, 'w) telegram_api \<Rightarrow> string \<Rightarrow> string \<Rightarrow> 'w \<Rightarrow> (string \<times> err) \<times> 'w" where
  "telegram_post A url body w = (case tg_Post A url body w of
     (Inl e, w1) \<Rightarrow> (('''', Some (Wrapped (post_failed url) e)), w1)
   | (Inr r, w1) \<Rightarrow>
       (if is_error_state r
        then (case hr_Body r of
            Inl e \<Rightarrow> (('''', Some (Wrapped (post_failed url) e)), w1)
          | Inr text \<Rightarrow> (('''', wrap_err (post_failed url) (status_error (hr_Status r))), w1))
        else (case hr_Body r of
            Inl e \<Rightarrow> (('''', Some (Wrapped (post_failed url) e)), w1)
          | Inr text \<Rightarrow> ((text, None), w1))))"

text \<open>A button is a row of its own.\<close>

definition telegram_message_of :: "telegram_config \<Rightarrow> tg_notification \<Rightarrow> telegram_message" where
  "telegram_message_of c n = \<lparr>ms_ChatID = tn_ChatID n, ms_Text = tn_Text n, ms_ParseMode = tg_ParseMode c,
     ms_PreviewURL = tn_PreviewImageURL n, ms_PreviewDisabled = tg_PreviewDisabled c, ms_PreviewAbove = True,
     ms_Keyboard = map (\<lambda>b. [b]) (tn_Buttons n), ms_ReplyTo = (if tn_ReplyMessageID n > 0 then tn_ReplyMessageID n else 0),
     ms_DisableNotification = tn_DisableNotification n\<rparr>"

definition buildTelegramMessage :: "('u, 'w) telegram_api \<Rightarrow> telegram_config \<Rightarrow> tg_notification \<Rightarrow> goerr + string" where
  "buildTelegramMessage A c n = (case tg_Marshal A (telegram_message_of c n) of
     Inl e \<Rightarrow> Inl (Wrapped ''can't send telegram push notification'' e) | Inr s \<Rightarrow> Inr s)"

definition telegram_url :: "telegram_config \<Rightarrow> string \<Rightarrow> string \<Rightarrow> string" where
  "telegram_url c token operation = tg_BaseURL c @ ''/bot'' @ token @ ''/'' @ operation"

definition telegram_Send :: "('u, 'w) telegram_api \<Rightarrow> telegram_config \<Rightarrow> tg_notification \<Rightarrow> 'w \<Rightarrow> err \<times> 'w" where
  "telegram_Send A c n w =
     (if tg_ctx A w \<noteq> None then (wrap_err ''context error'' (tg_ctx A w), w)
      else (case buildTelegramMessage A c n of
          Inl e \<Rightarrow> (Some (Wrapped ''can't build telegram message'' e), w)
        | Inr msg \<Rightarrow> (case telegram_post A (telegram_url c (tn_BotToken n) ''sendMessage'') msg w of
            ((resp, e), w1) \<Rightarrow> (wrap_err ''can't call send() function'' e, w1))))"

definition GetUpdates :: "('u, 'w) telegram_api \<Rightarrow> telegram_config \<Rightarrow> get_updates \<Rightarrow> 'w \<Rightarrow> (goerr + 'u list) \<times> 'w" where
  "GetUpdates A c arg w = (case tg_ctx A w of
     Some e \<Rightarrow> (Inl (Wrapped ''context error'' e), w)
   | None \<Rightarrow> (case tg_MarshalUpdates A arg of
       Inl e \<Rightarrow> (Inl (Wrapped ''can't send telegram push notification'' e), w)
     | Inr val \<Rightarrow> (case telegram_post A (telegram_url c (gu_BotToken arg) ''getUpdates'') val w of
         ((resp, Some e), w1) \<Rightarrow> (Inl (Wrapped ''can't call getUpdates function'' e), w1)
       | ((resp, None), w1) \<Rightarrow> (case tg_Parse A resp of
           Inl e \<Rightarrow> (Inl (Wrapped ''unmarshalling response for telegram failed'' e), w1)
         | Inr us \<Rightarrow> (Inr us, w1)))))"

text \<open>The settings from the environment. A trailing slash is cut off the URL only where it did not come from the configuration.\<close>

definition blank :: "string \<Rightarrow> bool" where
  "blank s \<longleftrightarrow> trim_space s = ''''"

definition or_default :: "string \<Rightarrow> string \<Rightarrow> string" where
  "or_default d s = (if blank s then d else s)"

definition complete_telegram_config :: "(string \<Rightarrow> string) \<Rightarrow> string \<Rightarrow> telegram_config \<Rightarrow> telegram_config" where
  "complete_telegram_config getenv key c =
     c\<lparr>tg_BotToken := env_setting blank getenv key ''TELEGRAM_NOTIFICATIONS_CREDENTIALS_BOT_TOKEN'' (tg_BotToken c),
       tg_BaseURL :=
         (if blank (tg_BaseURL c)
          then (let url = or_default ''https://api.telegram.org'' (env_setting blank getenv key ''TELEGRAM_NOTIFICATIONS_BASE_URL'' (tg_BaseURL c))
                in if has_suffix (trim_space url) ''/'' then butlast url else url)
          else tg_BaseURL c),
       tg_ParseMode := or_default ''HTML'' (env_setting blank getenv key ''TELEGRAM_NOTIFICATIONS_PARSE_MODE'' (tg_ParseMode c))\<rparr>"

definition New_telegram :: "('u, 'w) telegram_api \<Rightarrow> (string \<Rightarrow> string) \<Rightarrow> string \<Rightarrow> telegram_config \<Rightarrow> 'w \<Rightarrow> (telegram_config \<times> 'w) outcome" where
  "New_telegram A getenv key loaded w =
     (let c = complete_telegram_config getenv key loaded;
          probe = \<lparr>tn_ChatID = ''test'', tn_Text = ''test'', tn_PreviewImageURL = '''', tn_BotToken = tg_BotToken c, tn_Buttons = [],
                   tn_ReplyMessageID = 0, tn_DisableNotification = False\<rparr>
      in (case telegram_Send A c probe w of
           (None, w1) \<Rightarrow> Ret (c, w1)
         | (Some e, w1) \<Rightarrow> if errors_is e ErrChatNotFound then Ret (c, w1) else Panic))"

section \<open>Properties\<close>

text \<open>
  What \<open>Send\<close> makes of the service's last answer: success is reported for every readable answer whose status is not one of 400, 403, 404 and
  409, those that say that the message was refused (401, 429, 500 and all others) included; only the four are errors, each with
  its own sentinel, found below the wrapping.
\<close>

theorem telegram_send_reports:
  assumes "tg_ctx A w = None" and "tg_Marshal A (telegram_message_of c n) = Inr msg"
    and "tg_Post A (telegram_url c (tn_BotToken n) ''sendMessage'') msg w = (Inr r, w1)" and "hr_Body r = Inr body"
  shows "\<exists>e. telegram_Send A c n w = (e, w1) \<and> (e = None \<longleftrightarrow> hr_Status r \<notin> {400, 403, 404, 409}) \<and>
    (hr_Status r = 400 \<longrightarrow> is_err e (Some ErrBadRequest)) \<and> (hr_Status r = 403 \<longrightarrow> is_err e (Some ErrTelegramForbidden)) \<and>
    (hr_Status r = 404 \<longrightarrow> is_err e (Some ErrChatNotFound)) \<and> (hr_Status r = 409 \<longrightarrow> is_err e (Some ErrBotConflict))"
  using assms
  by (simp add: telegram_Send_def buildTelegramMessage_def telegram_post_def is_error_state_def status_error_def wrap_err_def errors_is_Wrapped)

definition toy_telegram :: "(unit, unit) telegram_api" where
  "toy_telegram = \<lparr>tg_Marshal = (\<lambda>m. Inr (ms_Text m)), tg_MarshalUpdates = (\<lambda>u. Inr ''''), tg_Parse = (\<lambda>s. Inr []),
     tg_Post = (\<lambda>u b w. (Inr \<lparr>hr_Status = 500, hr_Body = Inr ''internal error''\<rparr>, w)), tg_ctx = (\<lambda>w. None)\<rparr>"

theorem telegram_send_reports_witness:
  "telegram_Send toy_telegram \<lparr>tg_BotToken = ''t'', tg_ParseMode = ''HTML'', tg_BaseURL = ''u'', tg_PreviewDisabled = False\<rparr>
     \<lparr>tn_ChatID = ''1'', tn_Text = ''hi'', tn_PreviewImageURL = '''', tn_BotToken = ''t'', tn_Buttons = [], tn_ReplyMessageID = 0, tn_DisableNotification = False\<rparr> () =
     (None, ())"
  using telegram_send_reports [of toy_telegram "()" "\<lparr>tg_BotToken = ''t'', tg_ParseMode = ''HTML'', tg_BaseURL = ''u'', tg_PreviewDisabled = False\<rparr>"
      "\<lparr>tn_ChatID = ''1'', tn_Text = ''hi'', tn_PreviewImageURL = '''', tn_BotToken = ''t'', tn_Buttons = [], tn_ReplyMessageID = 0, tn_DisableNotification = False\<rparr>"
      "''hi''" "\<lparr>hr_Status = 500, hr_Body = Inr ''internal error''\<rparr>" "()" "''internal error''"]
  by (simp add: toy_telegram_def telegram_message_of_def)

end
