(* ===== verification/Privacy.thy ===== *)
theory Privacy
  imports Go_Errors
begin

text \<open>
  Encrypted values (\<open>privacy/privacy.go\<close>, \<open>privacy/sensitive.go\<close>): deterministic encryption printed in hexadecimal, and the types
  \<open>Sensitive\<close> and \<open>DBSensitive\<close>, which encrypt when they are written and decrypt when they are read. The cipher (AES-GCM-SIV) is
  the parameter \<open>aead\<close>. A text is its list of bytes.
\<close>

section \<open>Hexadecimal text\<close>

definition hex_digits :: string where
  "hex_digits = ''0123456789abcdef''"

definition hex_char :: "nat \<Rightarrow> char" where
  "hex_char n = hex_digits ! n"

definition hex_val :: "char \<Rightarrow> nat option" where
  "hex_val c = (let n = of_char c :: nat in
     if 48 \<le> n \<and> n \<le> 57 then Some (n - 48)
     else if 97 \<le> n \<and> n \<le> 102 then Some (n - 87)
     else if 65 \<le> n \<and> n \<le> 70 then Some (n - 55) else None)"

fun hex_encode :: "string \<Rightarrow> string" where
  "hex_encode [] = []"
| "hex_encode (c # s) = (let n = of_char c :: nat in hex_char (n div 16) # hex_char (n mod 16) # hex_encode s)"

fun hex_decode :: "string \<Rightarrow> string option" where
  "hex_decode [] = Some []"
| "hex_decode [c] = None"
| "hex_decode (a # b # s) = (case (hex_val a, hex_val b, hex_decode s) of
     (Some x, Some y, Some r) \<Rightarrow> Some (char_of (16 * x + y) # r) | _ \<Rightarrow> None)"

definition is_hex :: "string \<Rightarrow> bool" where
  "is_hex s \<longleftrightarrow> hex_decode s \<noteq> None"

section \<open>Encryption\<close>

text \<open>\<open>Seal\<close> and \<open>Open\<close> with a key and a nonce; what is relied on is that opening undoes sealing, and that a sealed text is
  longer by its tag of 16 bytes.\<close>

record aead =
  ae_Seal :: "string \<Rightarrow> string \<Rightarrow> string \<Rightarrow> string"
  ae_Open :: "string \<Rightarrow> string \<Rightarrow> string \<Rightarrow> goerr + string"

definition aead_ok :: "aead \<Rightarrow> bool" where
  "aead_ok A \<longleftrightarrow> (\<forall>key nonce text. ae_Open A key nonce (ae_Seal A key nonce text) = Inr text \<and>
     length (ae_Seal A key nonce text) = length text + 16)"

definition NonceSize :: nat where
  "NonceSize = 12"

record encryptDecrypter =
  ed_Key :: string
  ed_Nonce :: string

definition errHexDecodingFailed :: goerr where "errHexDecodingFailed = Sentinel ''failed to hex decode value''"
definition errDecryptionFailed :: goerr where "errDecryptionFailed = Sentinel ''failed to decrypt value''"

definition NewEncryptDecrypter :: "string \<Rightarrow> encryptDecrypter outcome" where
  "NewEncryptDecrypter secret = (case hex_decode secret of
     None \<Rightarrow> Panic
   | Some key \<Rightarrow> if length key \<noteq> 32 + NonceSize then Panic
                 else Ret \<lparr>ed_Key = drop NonceSize key, ed_Nonce = take NonceSize key\<rparr>)"

definition Encrypt :: "aead \<Rightarrow> encryptDecrypter \<Rightarrow> string \<Rightarrow> string" where
  "Encrypt A e plaintext = hex_encode (ae_Seal A (ed_Key e) (ed_Nonce e) plaintext)"

definition Decrypt :: "aead \<Rightarrow> encryptDecrypter \<Rightarrow> string \<Rightarrow> goerr + string" where
  "Decrypt A e val = (case hex_decode val of
     None \<Rightarrow> Inl (Joined [errHexDecodingFailed, Wrapped ''failed to decode value'' (Sentinel ''encoding/hex'')])
   | Some text \<Rightarrow> (case ae_Open A (ed_Key e) (ed_Nonce e) text of
       Inl x \<Rightarrow> Inl (Joined [errDecryptionFailed, Wrapped ''failed to Open ciphertext'' x])
     | Inr s \<Rightarrow> Inr s))"

section \<open>Sensitive values\<close>

text \<open>A value is a pointer to a text; \<open>None\<close> is nil. In JSON it is written between quotes.\<close>

definition quote_text :: "string \<Rightarrow> string" where
  "quote_text s = [CHR 0x22] @ s @ [CHR 0x22]"

text \<open>What is written instead of a text: a text that is hexadecimal is taken for one that is encrypted already.\<close>

definition protected :: "aead \<Rightarrow> encryptDecrypter \<Rightarrow> string \<Rightarrow> string" where
  "protected A e s = (if is_hex s then s else Encrypt A e s)"

definition Sensitive_MarshalJSON :: "aead \<Rightarrow> encryptDecrypter \<Rightarrow> string option \<Rightarrow> string" where
  "Sensitive_MarshalJSON A e v = (case v of
     None \<Rightarrow> ''null''
   | Some s \<Rightarrow> if s = '''' then quote_text '''' else quote_text (protected A e s))"

text \<open>A text that cannot be decoded or decrypted is taken as it is; \<open>errors.Is\<close> finds the two sentinels in the collected error.\<close>

definition decrypt_value :: "aead \<Rightarrow> encryptDecrypter \<Rightarrow> string \<Rightarrow> string \<Rightarrow> err \<times> string" where
  "decrypt_value A e val old = (case Decrypt A e val of
     Inl x \<Rightarrow>
       (if errors_is x errHexDecodingFailed \<or> errors_is x errDecryptionFailed then (None, val)
        else (Some (Wrapped ''failed to decrypt value'' x), old))
   | Inr s \<Rightarrow> (None, s))"

definition Sensitive_UnmarshalJSON :: "aead \<Rightarrow> encryptDecrypter \<Rightarrow> string \<Rightarrow> string \<Rightarrow> err \<times> string" where
  "Sensitive_UnmarshalJSON A e bytes old =
     (if bytes = ''null'' \<or> bytes = quote_text '''' \<or> bytes = '''' then (None, old)
      else decrypt_value A e (butlast (tl bytes)) old)"

text \<open>The MessagePack forms; \<open>None\<close> is written as nil, and a nil or empty value is read without effect.\<close>

definition Sensitive_EncodeMsgpack :: "aead \<Rightarrow> encryptDecrypter \<Rightarrow> string option \<Rightarrow> string option" where
  "Sensitive_EncodeMsgpack A e v = (case v of
     None \<Rightarrow> None
   | Some s \<Rightarrow> if s = '''' then None else Some (protected A e s))"

definition Sensitive_DecodeMsgpack :: "aead \<Rightarrow> encryptDecrypter \<Rightarrow> goerr + string \<Rightarrow> string \<Rightarrow> err \<times> string" where
  "Sensitive_DecodeMsgpack A e decoded old = (case decoded of
     Inl x \<Rightarrow> (Some (Wrapped ''failed to decode value as string'' x), old)
   | Inr s \<Rightarrow> if s = '''' then (None, old) else decrypt_value A e s old)"

definition Sensitive_String :: "string option \<Rightarrow> string" where
  "Sensitive_String v = (case v of None \<Rightarrow> '''' | Some s \<Rightarrow> s)"

definition Sensitive_Bind :: "string \<Rightarrow> string option" where
  "Sensitive_Bind val = Some val"

text \<open>\<open>DBSensitive\<close>, the type of the same values in a database, has no JSON form; its methods are written out again in the code.\<close>

definition DBSensitive_decrypt :: "aead \<Rightarrow> encryptDecrypter \<Rightarrow> string \<Rightarrow> string \<Rightarrow> err \<times> string" where
  "DBSensitive_decrypt A e val old = (case Decrypt A e val of
     Inl x \<Rightarrow>
       (if errors_is x errHexDecodingFailed \<or> errors_is x errDecryptionFailed then (None, val)
        else (Some (Wrapped ''failed to decrypt value'' x), old))
   | Inr s \<Rightarrow> (None, s))"

definition DBSensitive_DecodeMsgpack :: "aead \<Rightarrow> encryptDecrypter \<Rightarrow> goerr + string \<Rightarrow> string \<Rightarrow> err \<times> string" where
  "DBSensitive_DecodeMsgpack A e decoded old = (case decoded of
     Inl x \<Rightarrow> (Some (Wrapped ''failed to decode value as string'' x), old)
   | Inr s \<Rightarrow> if s = '''' then (None, old) else DBSensitive_decrypt A e s old)"

definition DBSensitive_EncodeMsgpack :: "aead \<Rightarrow> encryptDecrypter \<Rightarrow> string option \<Rightarrow> string option" where
  "DBSensitive_EncodeMsgpack A e v = (case v of
     None \<Rightarrow> None
   | Some s \<Rightarrow>
       (if s = '''' then None else if is_hex s then Some s else Some (Encrypt A e s)))"

definition DBSensitive_String :: "string option \<Rightarrow> string" where
  "DBSensitive_String v = (case v of None \<Rightarrow> '''' | Some s \<Rightarrow> s)"

definition DBSensitive_Bind :: "string \<Rightarrow> string option" where
  "DBSensitive_Bind val = Some val"

section \<open>Properties\<close>

text \<open>What one of the types has written, the other one reads.\<close>

lemma DBSensitive_is_Sensitive:
  "DBSensitive_EncodeMsgpack A e = Sensitive_EncodeMsgpack A e" "DBSensitive_DecodeMsgpack A e = Sensitive_DecodeMsgpack A e"
  by (simp_all add: fun_eq_iff DBSensitive_EncodeMsgpack_def Sensitive_EncodeMsgpack_def protected_def DBSensitive_DecodeMsgpack_def
      Sensitive_DecodeMsgpack_def DBSensitive_decrypt_def decrypt_value_def split: option.splits sum.splits)

lemma hex_val_char: "n < 16 \<Longrightarrow> hex_val (hex_char n) = Some n"
proof -
  have "\<forall>n \<in> set [0..<16]. hex_val (hex_char n) = Some n" by code_simp
  then show "n < 16 \<Longrightarrow> hex_val (hex_char n) = Some n" by simp
qed

lemma hex_decode_encode [simp]: "hex_decode (hex_encode s) = Some s"
proof (induction s)
  case (Cons c s)
  have "(of_char c :: nat) < 256" by simp
  then have "hex_val (hex_char (of_char c div 16)) = Some (of_char c div 16)" "hex_val (hex_char (of_char c mod 16)) = Some (of_char c mod 16)"
    by (simp_all add: hex_val_char less_mult_imp_div_less)
  then show ?case using Cons by (simp add: Let_def mult.commute)
qed simp

lemma length_hex_encode: "length (hex_encode s) = 2 * length s"
  by (induction s) (simp_all add: Let_def)

lemma Encrypt_nonempty: "aead_ok A \<Longrightarrow> Encrypt A e s \<noteq> ''''"
  using length_hex_encode [of "ae_Seal A (ed_Key e) (ed_Nonce e) s"] unfolding Encrypt_def aead_ok_def by fastforce

lemma Decrypt_Encrypt: "aead_ok A \<Longrightarrow> Decrypt A e (Encrypt A e s) = Inr s"
  by (simp add: Decrypt_def Encrypt_def aead_ok_def)

text \<open>
  C20. A sensitive value that is not hexadecimal text comes back as it was, through JSON, through MessagePack and through the
  type of the database, which may also write what the other type reads and the other way round; what is written is its encryption,
  a hexadecimal text from which decryption gives it back; and decrypting is idempotent over writing: what was written can be
  written again unchanged.
\<close>

theorem sensitive_roundtrip:
  assumes "aead_ok A" and "\<not> is_hex s"
  shows "Sensitive_MarshalJSON A e (Some s) = quote_text (Encrypt A e s) \<and> is_hex (Encrypt A e s) \<and>
    Decrypt A e (Encrypt A e s) = Inr s \<and>
    Sensitive_UnmarshalJSON A e (Sensitive_MarshalJSON A e (Some s)) old = (None, s) \<and>
    Sensitive_DecodeMsgpack A e (Inr (the (Sensitive_EncodeMsgpack A e (Some s)))) old = (None, s) \<and>
    DBSensitive_DecodeMsgpack A e (Inr (the (DBSensitive_EncodeMsgpack A e (Some s)))) old = (None, s) \<and>
    Sensitive_DecodeMsgpack A e (Inr (the (DBSensitive_EncodeMsgpack A e (Some s)))) old = (None, s) \<and>
    DBSensitive_DecodeMsgpack A e (Inr (the (Sensitive_EncodeMsgpack A e (Some s)))) old = (None, s) \<and>
    Sensitive_MarshalJSON A e (Some (Encrypt A e s)) = Sensitive_MarshalJSON A e (Some s)"
proof -
  note dec = Decrypt_Encrypt [OF assms(1), of e s]
  have s: "s \<noteq> ''''" using assms(2) by (auto simp: is_hex_def)
  have hex: "is_hex (Encrypt A e s)" by (simp add: is_hex_def Encrypt_def)
  have ne: "Encrypt A e s \<noteq> ''''" by (rule Encrypt_nonempty [OF assms(1)])
  have json: "Sensitive_MarshalJSON A e (Some s) = quote_text (Encrypt A e s)"
    using s assms(2) by (simp add: Sensitive_MarshalJSON_def protected_def)
  have "Sensitive_UnmarshalJSON A e (quote_text (Encrypt A e s)) old = (None, s)"
    using ne dec by (simp add: Sensitive_UnmarshalJSON_def quote_text_def decrypt_value_def)
  moreover have "Sensitive_DecodeMsgpack A e (Inr (the (Sensitive_EncodeMsgpack A e (Some s)))) old = (None, s)"
    using s ne dec assms(2) by (simp add: Sensitive_EncodeMsgpack_def Sensitive_DecodeMsgpack_def protected_def decrypt_value_def)
  moreover have "Sensitive_MarshalJSON A e (Some (Encrypt A e s)) = quote_text (Encrypt A e s)"
    using ne hex by (simp add: Sensitive_MarshalJSON_def protected_def)
  ultimately show ?thesis using hex dec json DBSensitive_is_Sensitive by simp
qed

text \<open>A cipher for the witness: the text with a tag of sixteen zeros.\<close>

definition toy_aead :: aead where
  "toy_aead = \<lparr>ae_Seal = (\<lambda>key nonce text. text @ replicate 16 CHR ''0''), ae_Open = (\<lambda>key nonce text. Inr (take (length text - 16) text))\<rparr>"

lemma toy_aead_ok: "aead_ok toy_aead"
  by (simp add: aead_ok_def toy_aead_def)

theorem sensitive_roundtrip_witness:
  "Sensitive_UnmarshalJSON toy_aead \<lparr>ed_Key = ''k'', ed_Nonce = ''n''\<rparr>
     (Sensitive_MarshalJSON toy_aead \<lparr>ed_Key = ''k'', ed_Nonce = ''n''\<rparr> (Some ''bogus@foo.com'')) '''' = (None, ''bogus@foo.com'')"
proof -
  have "\<not> is_hex ''bogus@foo.com''" by (simp add: is_hex_def hex_val_def)
  from sensitive_roundtrip [OF toy_aead_ok this, of "\<lparr>ed_Key = ''k'', ed_Nonce = ''n''\<rparr>" "''''"] show ?thesis by blast
qed

text \<open>
  A hexadecimal text, such as a telephone number of even length or a date in digits, is written in the clear: through JSON and through MessagePack, and read
  again it is decrypted as if it were a ciphertext.
\<close>

theorem hexadecimal_written_in_clear:
  assumes "is_hex s" and "s \<noteq> ''''"
  shows "Sensitive_MarshalJSON A e (Some s) = quote_text s \<and> Sensitive_EncodeMsgpack A e (Some s) = Some s \<and>
    Sensitive_UnmarshalJSON A e (Sensitive_MarshalJSON A e (Some s)) old = decrypt_value A e s old"
  using assms by (simp add: Sensitive_MarshalJSON_def Sensitive_EncodeMsgpack_def protected_def Sensitive_UnmarshalJSON_def quote_text_def)

theorem hexadecimal_written_in_clear_witness:
  "Sensitive_MarshalJSON toy_aead \<lparr>ed_Key = ''k'', ed_Nonce = ''n''\<rparr> (Some ''15550100'') = quote_text ''15550100''"
  using hexadecimal_written_in_clear [of "''15550100''" toy_aead "\<lparr>ed_Key = ''k'', ed_Nonce = ''n''\<rparr>" "''''"]
  by (simp add: is_hex_def hex_val_def)

end
