(* ===== verification/Translations.thy ===== *)
theory Translations
  imports Rest_Client
begin

text \<open>
  Translations (\<open>translations/translations.go\<close>): texts by language and key with English as the fallback, arguments filled in, and
  the data downloaded at the start and every five minutes. The download and its JSON are parameters.
\<close>

section \<open>State\<close>

type_synonym texts = "string \<Rightarrow> string option"

text \<open>\<open>tr_Languages\<close>: the keys of \<open>tr_data\<close> in the order in which the runtime iterates over them.\<close>

record translator =
  tr_APIKey :: string
  tr_data :: "string \<Rightarrow> texts option"
  tr_Languages :: "string list"
  tr_default :: "texts option"

definition defaultLanguage :: string where
  "defaultLanguage = ''en''"

section \<open>Translating\<close>

text \<open>Arguments are a map, given here in the order of its iteration; more or fewer than one such map are ignored.\<close>

definition fill_arguments :: "(string \<times> string) list list \<Rightarrow> string \<Rightarrow> string" where
  "fill_arguments args s = (case args of
     [a] \<Rightarrow> fold (\<lambda>(k, v) t. replace_all t (''{{'' @ k @ ''}}'') v) a s
   | _ \<Rightarrow> s)"

definition no_locale :: "string \<Rightarrow> goerr" where
  "no_locale language = Sentinel (''neither '' @ language @ '' or '' @ defaultLanguage @ '' locales have been found'')"

definition no_key :: "string \<Rightarrow> string \<Rightarrow> goerr" where
  "no_key language key = Sentinel (''neither '' @ language @ '' or '' @ defaultLanguage @ '' locales have key '' @ key)"

definition translate :: "translator \<Rightarrow> string \<Rightarrow> string \<Rightarrow> (string \<times> string) list list \<Rightarrow> goerr + string" where
  "translate t language key args =
     (case (case tr_data t language of Some m \<Rightarrow> Some m | None \<Rightarrow> tr_default t) of
        None \<Rightarrow> Inl (no_locale language)
      | Some own \<Rightarrow>
          (case own key of
             Some s \<Rightarrow> Inr (fill_arguments args s)
           | None \<Rightarrow>
               (case tr_default t of
                  None \<Rightarrow> Inl (no_key language key)
                | Some d \<Rightarrow> (case d key of None \<Rightarrow> Inl (no_key language key) | Some s \<Rightarrow> Inr (fill_arguments args s)))))"

definition Translate :: "translator \<Rightarrow> err \<Rightarrow> string \<Rightarrow> string \<Rightarrow> (string \<times> string) list list \<Rightarrow> goerr + string" where
  "Translate t ctx language key args = (case ctx of Some e \<Rightarrow> Inl (Wrapped ''context error'' e) | None \<Rightarrow> translate t language key args)"

definition failed_translation :: "string \<Rightarrow> string \<Rightarrow> string" where
  "failed_translation language key = ''failed to translate for language '' @ language @ '' and key '' @ key"

text \<open>The loop over the keys: the first failure ends it.\<close>

fun translate_keys :: "translator \<Rightarrow> string \<Rightarrow> string list \<Rightarrow> (string \<times> string) list list \<Rightarrow> texts \<Rightarrow> goerr + texts" where
  "translate_keys t language [] args kv = Inr kv"
| "translate_keys t language (key # keys) args kv = (case translate t language key args of
     Inl e \<Rightarrow> Inl (Wrapped (failed_translation language key) e)
   | Inr s \<Rightarrow> translate_keys t language keys args (kv(key \<mapsto> s)))"

definition TranslateMultipleKeys :: "translator \<Rightarrow> err \<Rightarrow> string \<Rightarrow> string list \<Rightarrow> (string \<times> string) list list \<Rightarrow> goerr + texts" where
  "TranslateMultipleKeys t ctx language keys args = (case ctx of
     Some e \<Rightarrow> Inl (Wrapped ''context error'' e) | None \<Rightarrow> translate_keys t language keys args Map.empty)"

fun translate_languages :: "(string \<Rightarrow> goerr + 'a) \<Rightarrow> string list \<Rightarrow> (string \<Rightarrow> 'a option) \<Rightarrow> goerr + (string \<Rightarrow> 'a option)" where
  "translate_languages f [] m = Inr m"
| "translate_languages f (l # ls) m = (case f l of Inl e \<Rightarrow> Inl e | Inr x \<Rightarrow> translate_languages f ls (m(l \<mapsto> x)))"

definition TranslateAllLanguages :: "translator \<Rightarrow> err \<Rightarrow> string \<Rightarrow> (string \<times> string) list list \<Rightarrow> goerr + texts" where
  "TranslateAllLanguages t ctx key args = (case ctx of
     Some e \<Rightarrow> Inl (Wrapped ''context error'' e)
   | None \<Rightarrow> translate_languages (\<lambda>l. case translate t l key args of Inl e \<Rightarrow> Inl (Wrapped (failed_translation l key) e) | Inr s \<Rightarrow> Inr s)
       (tr_Languages t) Map.empty)"

definition TranslateMultipleKeysAllLanguages ::
    "translator \<Rightarrow> err \<Rightarrow> string list \<Rightarrow> (string \<times> string) list list \<Rightarrow> goerr + (string \<Rightarrow> texts option)" where
  "TranslateMultipleKeysAllLanguages t ctx keys args = (case ctx of
     Some e \<Rightarrow> Inl (Wrapped ''context error'' e)
   | None \<Rightarrow> translate_languages (\<lambda>l. translate_keys t l keys args Map.empty) (tr_Languages t) Map.empty)"

section \<open>Downloading\<close>

text \<open>The answer to the request: its status, its body, what closing the body returned.\<close>

record download =
  dl_Status :: int
  dl_Body :: "goerr + string"
  dl_Close :: err

text \<open>\<open>dl_Parse\<close> reads the languages of a body in some order.\<close>

record 'w translations_api =
  dl_Request :: "string \<Rightarrow> 'w \<Rightarrow> (goerr + download) \<times> 'w"
  dl_Parse :: "string \<Rightarrow> goerr + (string \<times> texts) list"

definition set_translations :: "(string \<times> texts) list \<Rightarrow> translator \<Rightarrow> translator" where
  "set_translations data t = t\<lparr>tr_data := map_of data, tr_Languages := map fst data, tr_default := map_of data defaultLanguage\<rparr>"

text \<open>The body is closed last, and its error is added to that of the function.\<close>

definition downloadAndSetLatestTranslations :: "'w translations_api \<Rightarrow> translator \<Rightarrow> 'w \<Rightarrow> err \<times> translator \<times> 'w" where
  "downloadAndSetLatestTranslations A t w = (case dl_Request A (tr_APIKey t) w of
     (Inl e, w1) \<Rightarrow> (Some (Wrapped ''failed to get latest translations'' e), t, w1)
   | (Inr d, w1) \<Rightarrow>
       (let (e, t1) =
          (if dl_Status d \<noteq> 200
           then (case dl_Body d of
               Inl e \<Rightarrow> (wrap_err ''failed to get latest translations''
                          (join_errs [Some (Wrapped ''failed to read response body'' e), Some (Sentinel ''unexpected status code'')]), t)
             | Inr b \<Rightarrow> (wrap_err ''failed to get latest translations'' (join_errs [None, Some (Sentinel ''unexpected status code'')]), t))
           else (case dl_Body d of
               Inl e \<Rightarrow> (Some (Wrapped ''failed to read response body'' e), t)
             | Inr b \<Rightarrow> (case dl_Parse A b of
                 Inl e \<Rightarrow> (Some (Wrapped ''failed to json.unmarshal translated data'' e), t)
               | Inr data \<Rightarrow> (None, set_translations data t))))
        in (join_errs [e, wrap_err ''failed to close request body'' (dl_Close d)], t1, w1)))"

definition New_translations :: "'w translations_api \<Rightarrow> (string \<Rightarrow> string) \<Rightarrow> string \<Rightarrow> string \<Rightarrow> 'w \<Rightarrow> (translator \<times> 'w) outcome" where
  "New_translations A getenv key apiKey w =
     (let t = \<lparr>tr_APIKey = env_setting (\<lambda>s. s = '''') getenv key ''TRANSLATIONS_CLIENT_APIKEY'' apiKey,
               tr_data = Map.empty, tr_Languages = [], tr_default = None\<rparr>
      in (case downloadAndSetLatestTranslations A t w of (e, t1, w1) \<Rightarrow> if e \<noteq> None then Panic else Ret (t1, w1)))"

text \<open>The refreshing goroutine: one download for every tick until the context ends; errors are only logged.\<close>

fun refresh :: "'w translations_api \<Rightarrow> nat \<Rightarrow> translator \<times> 'w \<Rightarrow> translator \<times> 'w" where
  "refresh A 0 s = s"
| "refresh A (Suc ticks) (t, w) = refresh A ticks (snd (downloadAndSetLatestTranslations A t w))"

section \<open>Properties\<close>

lemma translate_languages_Inr:
  "translate_languages f ls m = Inr m' \<longleftrightarrow>
     (\<forall>l \<in> set ls. \<exists>x. f l = Inr x) \<and> m' = (\<lambda>l. if l \<in> set ls then Some (projr (f l)) else m l)"
proof (induction ls arbitrary: m)
  case (Cons l ls)
  then show ?case by (cases "f l") (auto simp: fun_eq_iff)
qed auto

text \<open>The default language is always English's part of the data, and every language has its data.\<close>

definition translations_ok :: "translator \<Rightarrow> bool" where
  "translations_ok t \<longleftrightarrow> tr_default t = tr_data t defaultLanguage \<and> set (tr_Languages t) = dom (tr_data t)"

lemma set_translations_ok: "translations_ok (set_translations data t)"
  by (simp add: translations_ok_def set_translations_def dom_map_of_conv_image_fst)

lemma download_keeps_or_sets:
  "downloadAndSetLatestTranslations A t w = (e, t1, w1) \<Longrightarrow> t1 = t \<or> (\<exists>data. t1 = set_translations data t)"
  by (auto simp: downloadAndSetLatestTranslations_def Let_def split: prod.splits sum.splits if_splits)

lemma download_ok: "downloadAndSetLatestTranslations A t w = (e, t1, w1) \<Longrightarrow> translations_ok t \<Longrightarrow> translations_ok t1"
  using download_keeps_or_sets set_translations_ok by metis

lemma refresh_ok: "translations_ok t \<Longrightarrow> translations_ok (fst (refresh A ticks (t, w)))"
proof (induction ticks arbitrary: t w)
  case (Suc n)
  obtain e t1 w1 where d: "downloadAndSetLatestTranslations A t w = (e, t1, w1)" by (metis prod.exhaust)
  then show ?case using Suc.IH [OF download_ok [OF d Suc.prems]] by simp
qed simp

lemma New_translations_ok:
  "New_translations A getenv key apiKey w = Ret (t, w1) \<Longrightarrow> translations_ok t"
proof -
  assume new: "New_translations A getenv key apiKey w = Ret (t, w1)"
  let ?t0 = "\<lparr>tr_APIKey = env_setting (\<lambda>s. s = '''') getenv key ''TRANSLATIONS_CLIENT_APIKEY'' apiKey, tr_data = Map.empty,
      tr_Languages = [], tr_default = None\<rparr>"
  have "translations_ok ?t0" by (simp add: translations_ok_def)
  moreover obtain e t1 w2 where "downloadAndSetLatestTranslations A ?t0 w = (e, t1, w2)" by (metis prod.exhaust)
  ultimately show ?thesis using new download_ok by (auto simp: New_translations_def split: if_splits)
qed

text \<open>What a language's texts have for a key, or else English.\<close>

definition own_or_english :: "translator \<Rightarrow> texts \<Rightarrow> string \<Rightarrow> string option" where
  "own_or_english t own key = (case own key of Some s \<Rightarrow> Some s | None \<Rightarrow> Option.bind (tr_data t ''en'') (\<lambda>en. en key))"

lemma translate_own:
  assumes "translations_ok t" and "tr_data t l = Some own"
  shows "translate t l key args = (case own_or_english t own key of None \<Rightarrow> Inl (no_key l key) | Some s \<Rightarrow> Inr (fill_arguments args s))"
  using assms by (simp add: translate_def translations_ok_def defaultLanguage_def own_or_english_def split: option.splits)

text \<open>
  C30. However often the translations are refreshed, and whatever the downloads bring: asking for a key in all languages succeeds exactly when
  every loaded language has the key or English has it, and then it gives the loaded languages and no others, each with its own text or
  else the English one, the arguments filled in.
\<close>

theorem all_languages_or_english:
  assumes "New_translations A getenv app apiKey w = Ret (t0, w1)" and "refresh A ticks (t0, w1) = (t, w2)"
  shows "TranslateAllLanguages t None key args = Inr m \<longleftrightarrow>
    (\<forall>l own. tr_data t l = Some own \<longrightarrow> own_or_english t own key \<noteq> None) \<and>
    m = (\<lambda>l. case tr_data t l of None \<Rightarrow> None | Some own \<Rightarrow> map_option (fill_arguments args) (own_or_english t own key))"
proof -
  have ok: "translations_ok t"
    using refresh_ok [OF New_translations_ok [OF assms(1)], of A ticks w1] assms(2) by simp
  then have langs: "set (tr_Languages t) = dom (tr_data t)" by (simp add: translations_ok_def)
  let ?f = "\<lambda>l. case translate t l key args of Inl e \<Rightarrow> Inl (Wrapped (failed_translation l key) e) | Inr s \<Rightarrow> Inr s"
  have f: "?f l = (case own_or_english t own key of None \<Rightarrow> Inl (Wrapped (failed_translation l key) (no_key l key))
      | Some s \<Rightarrow> Inr (fill_arguments args s))" if "tr_data t l = Some own" for l own
    using translate_own [OF ok that] by (simp split: option.splits)
  have good: "(\<exists>x. ?f l = Inr x) \<longleftrightarrow> own_or_english t own key \<noteq> None" if "tr_data t l = Some own" for l own
    unfolding f [OF that] by (cases "own_or_english t own key") simp_all
  have all: "(\<forall>l \<in> dom (tr_data t). \<exists>x. ?f l = Inr x) \<longleftrightarrow> (\<forall>l own. tr_data t l = Some own \<longrightarrow> own_or_english t own key \<noteq> None)"
    using good by (simp add: dom_def) blast
  have table: "(\<lambda>l. if l \<in> dom (tr_data t) then Some (projr (?f l)) else None) =
      (\<lambda>l. case tr_data t l of None \<Rightarrow> None | Some own \<Rightarrow> map_option (fill_arguments args) (own_or_english t own key))"
    if has: "\<forall>l own. tr_data t l = Some own \<longrightarrow> own_or_english t own key \<noteq> None"
  proof
    fix l
    show "(if l \<in> dom (tr_data t) then Some (projr (?f l)) else None) =
        (case tr_data t l of None \<Rightarrow> None | Some own \<Rightarrow> map_option (fill_arguments args) (own_or_english t own key))"
      using has f [of l] by (cases "tr_data t l") (fastforce simp: domIff split: option.splits)+
  qed
  show ?thesis
    unfolding TranslateAllLanguages_def option.case translate_languages_Inr langs all using table by auto
qed

definition toy_downloads :: "unit translations_api" where
  "toy_downloads = \<lparr>dl_Request = (\<lambda>k w. (Inr \<lparr>dl_Status = 200, dl_Body = Inr '''', dl_Close = None\<rparr>, w)),
     dl_Parse = (\<lambda>b. Inr [(''en'', [''k'' \<mapsto> ''Hello {{name}}'']), (''de'', Map.empty)])\<rparr>"

theorem all_languages_or_english_witness:
  "\<exists>t m. TranslateAllLanguages t None ''k'' [] = Inr m \<and> m ''de'' = Some ''Hello {{name}}''"
proof -
  let ?data = "[(''en'', [''k'' \<mapsto> ''Hello {{name}}'']), (''de'', Map.empty)] :: (string \<times> texts) list"
  let ?t = "set_translations ?data \<lparr>tr_APIKey = ''a'', tr_data = Map.empty, tr_Languages = [], tr_default = None\<rparr>"
  have new: "New_translations toy_downloads (\<lambda>v. '''') ''app'' ''a'' () = Ret (?t, ())"
    by (simp add: New_translations_def env_setting_def downloadAndSetLatestTranslations_def toy_downloads_def join_errs_def map_filter_simps)
  have none: "refresh toy_downloads 0 (?t, ()) = (?t, ())" by simp
  have data: "tr_data ?t ''de'' = Some Map.empty" "tr_data ?t ''en'' = Some [''k'' \<mapsto> ''Hello {{name}}'']"
    by (simp_all add: set_translations_def)
  have "\<forall>l own. tr_data ?t l = Some own \<longrightarrow> own_or_english ?t own ''k'' \<noteq> None"
    unfolding own_or_english_def data(2) by (simp split: option.splits)
  then have m: "TranslateAllLanguages ?t None ''k'' [] = Inr (\<lambda>l. case tr_data ?t l of None \<Rightarrow> None
      | Some own \<Rightarrow> map_option (fill_arguments []) (own_or_english ?t own ''k''))" (is "_ = Inr ?m")
    using all_languages_or_english [OF new none] by blast
  have "?m ''de'' = Some ''Hello {{name}}''" by (simp add: data own_or_english_def fill_arguments_def)
  with m show ?thesis by blast
qed

end
