(* ===== verification/Email.thy ===== *)
theory Email
  imports Backoff Rest_Client
begin

text \<open>
  The e-mail client (\<open>email/email.go\<close>): one request for up to a thousand destinations, retried while the service asks for it. The
  service (SendGrid) and the retry library are parameters.
\<close>

record participant =
  pa_SendAt :: "int option"
  pa_Substitutions :: "(string \<times> string) list"
  pa_Name :: string
  pa_Email :: string

record email_parcel =
  ep_From :: participant
  ep_Type :: string
  ep_Data :: string
  ep_Subject :: string

record personalization =
  pz_Tos :: "(string \<times> string) list"
  pz_SendAt :: "int option"
  pz_Substitutions :: "(string \<times> string) list"

record sgmail =
  sg_Subject :: string
  sg_Contents :: "(string \<times> string) list"
  sg_From :: "string \<times> string"
  sg_Personalizations :: "personalization list"

record 'w sendgrid =
  sg_Send :: "sgmail \<Rightarrow> 'w \<Rightarrow> (goerr + int \<times> string) \<times> 'w"
  sg_ctx :: "'w \<Rightarrow> err"

definition email_MaxBatchSize :: nat where "email_MaxBatchSize = 1000"
definition email_errPleaseRetry :: goerr where "email_errPleaseRetry = Sentinel ''please retry''"

text \<open>Times of sending are whole seconds.\<close>

definition sendgridEmail :: "email_parcel \<Rightarrow> participant list \<Rightarrow> sgmail" where
  "sendgridEmail p ds = \<lparr>sg_Subject = ep_Subject p, sg_Contents = [(ep_Type p, ep_Data p)],
     sg_From = (pa_Name (ep_From p), pa_Email (ep_From p)),
     sg_Personalizations = map (\<lambda>d. \<lparr>pz_Tos = [(pa_Name d, pa_Email d)], pz_SendAt = pa_SendAt d, pz_Substitutions = pa_Substitutions d\<rparr>) ds\<rparr>"

definition email_asks_again :: "int \<Rightarrow> string \<Rightarrow> bool" where
  "email_asks_again status body \<longleftrightarrow> status = 429 \<or> 500 \<le> status \<or> (status = 403 \<and> contains body ''You have exceeded your messaging limits'')"

definition email_send :: "'w sendgrid \<Rightarrow> email_parcel \<Rightarrow> participant list \<Rightarrow> 'w \<Rightarrow> err \<times> 'w" where
  "email_send S p ds w =
     (if sg_ctx S w \<noteq> None then (wrap_err ''context failed'' (sg_ctx S w), w)
      else if length ds > email_MaxBatchSize \<or> length ds = 0
      then (Some (Sentinel ''please provide a number of destinations between [1..1000]''), w)
      else (case sg_Send S (sendgridEmail p ds) w of
          (Inl e, w1) \<Rightarrow> (Some (Wrapped ''error sending email'' e), w1)
        | (Inr (status, body), w1) \<Rightarrow>
            (if status < 200 \<or> 300 \<le> status
             then (if email_asks_again status body then (Some email_errPleaseRetry, w1)
                   else (Some (Sentinel (''failed to send email: '' @ body)), w1))
             else (None, w1))))"

text \<open>Any error but the one that asks for another attempt is permanent.\<close>

definition retry_marked :: "goerr \<Rightarrow> err \<Rightarrow> op_result" where
  "retry_marked again e = (if e \<noteq> None \<and> \<not> is_err e (Some again) then permanent e else plain e)"

definition email_attempt :: "'w sendgrid \<Rightarrow> email_parcel \<Rightarrow> participant list \<Rightarrow> 'w retried" where
  "email_attempt S p ds w = apfst (retry_marked email_errPleaseRetry) (email_send S p ds w)"

definition email_Send :: "'w retrier \<Rightarrow> 'w sendgrid \<Rightarrow> email_parcel \<Rightarrow> participant list \<Rightarrow> 'w \<Rightarrow> err outcome \<times> 'w" where
  "email_Send R S p ds w =
     apfst (omap (wrap_err ''permanently failed to send email'')) (R (email_attempt S p ds) w)"

definition New_email :: "'w retrier \<Rightarrow> ('k \<Rightarrow> 'w sendgrid) \<Rightarrow> (string \<Rightarrow> 'k) \<Rightarrow> (string \<Rightarrow> string) \<Rightarrow> string \<Rightarrow> string \<Rightarrow> 'w \<Rightarrow> ('w sendgrid \<times> 'w) outcome" where
  "New_email R client credentials getenv key apiKey w =
     (let S = client (credentials (env_setting (\<lambda>s. s = '''') getenv key ''EMAIL_CLIENT_APIKEY'' apiKey));
          us = \<lparr>pa_SendAt = None, pa_Substitutions = [], pa_Name = ''ice.io'', pa_Email = ''no-reply@ice.io''\<rparr>;
          probe = \<lparr>ep_From = us, ep_Type = ''text/plain'', ep_Data = ''probing bootstrap'', ep_Subject = ''probing bootstrap''\<rparr>
      in (case email_Send R S probe [us] w of
            (Ret None, w1) \<Rightarrow> Ret (S, w1)
          | (Ret (Some e), w1) \<Rightarrow> Panic
          | (Panic, w1) \<Rightarrow> Panic))"

section \<open>Properties\<close>

lemma retry_marked_cases:
  "retry_marked a e = OpDone \<longleftrightarrow> e = None"
  "retry_marked a e \<noteq> OpPanic"
  "retry_marked a e = OpTransient x \<longleftrightarrow> e = Some x \<and> errors_is x a"
  "retry_marked a e = OpPermanent x \<longleftrightarrow> e = Some x \<and> \<not> errors_is x a"
  by (cases e; auto simp: retry_marked_def)+

text \<open>What the service has accepted when an attempt is done: the whole parcel, for one to a thousand destinations.\<close>

definition email_accepted :: "'w sendgrid \<Rightarrow> email_parcel \<Rightarrow> participant list \<Rightarrow> 'w \<Rightarrow> 'w \<Rightarrow> bool" where
  "email_accepted S p ds w w' \<longleftrightarrow> ds \<noteq> [] \<and> length ds \<le> 1000 \<and>
     (\<exists>status body. sg_Send S (sendgridEmail p ds) w = (Inr (status, body), w') \<and> 200 \<le> status \<and> status < 300)"

interpretation email_client: retried_client "email_attempt S p ds" "email_accepted S p ds" for S p ds
proof
  fix w w'
  assume "email_attempt S p ds w = (OpDone, w')"
  then have "email_send S p ds w = (None, w')"
    by (cases "email_send S p ds w") (simp add: email_attempt_def retry_marked_cases)
  then show "email_accepted S p ds w w'"
    by (cases "sg_ctx S w"; force simp: email_accepted_def email_send_def email_MaxBatchSize_def split: if_splits prod.splits sum.splits)
qed

text \<open>
  The client reports success exactly for a request that the service accepted: if \<open>Send\<close> returns no error, then its last attempt sent
  the whole parcel, one personalization for each of the one to a thousand destinations in their order, and was answered with a 2xx status.
\<close>

theorem email_success_was_accepted:
  assumes "retry_contract R" and "email_Send R S p ds w = (Ret None, w')"
  shows "ds \<noteq> [] \<and> length ds \<le> 1000 \<and>
    (\<exists>w0 status body. sg_Send S (sendgridEmail p ds) w0 = (Inr (status, body), w') \<and> 200 \<le> status \<and> status < 300)"
  using email_client.success_accepted [OF assms(1) assms(2) [unfolded email_Send_def]] by (auto simp: email_accepted_def)

end
