(* ===== verification/Inapp.thy ===== *)
theory Inapp
  imports Email
begin

text \<open>
  In-app notifications (\<open>notifications/inapp/inapp.go\<close>): adding an activity to one user's feed or to many, retried while the service asks
  for it. The service (GetStream) and the retry library are parameters. A parcel is passed by pointer: the defaults that sending fills in
  stay in it, so it is part of the state.
\<close>

definition inapp_MaxBatchSize :: nat where "inapp_MaxBatchSize = 100"
definition inapp_errPleaseRetry :: goerr where "inapp_errPleaseRetry = Sentinel ''please retry''"

record inapp_id =
  id_Type :: string
  id_Value :: string

record inapp_parcel =
  ip_Time :: "int option"
  ip_ReferenceID :: string
  ip_Data :: "(string \<times> string) list"
  ip_Action :: string
  ip_Actor :: inapp_id
  ip_Subject :: inapp_id

record stream_activity =
  ac_Actor :: string
  ac_Time :: int
  ac_Verb :: string
  ac_ForeignID :: string
  ac_Object :: string
  ac_Extra :: "(string \<times> string) list"

record inapp_config =
  ia_Key :: string
  ia_Secret :: string
  ia_AppID :: string

text \<open>An error of the service's interface carries the status and the rate limit with what remains of it.\<close>

datatype stream_error = APIError int int int goerr | OtherStreamError goerr

text \<open>\<open>gs_Feed\<close> makes the feed of a user, which can fail; feeds are known by their users.\<close>

record 'w getstream =
  gs_Feed :: "string \<Rightarrow> err"
  gs_AddActivity :: "string \<Rightarrow> stream_activity \<Rightarrow> 'w \<Rightarrow> stream_error option \<times> 'w"
  gs_AddToMany :: "string list \<Rightarrow> stream_activity \<Rightarrow> 'w \<Rightarrow> stream_error option \<times> 'w"
  gs_CreateUserToken :: "string \<Rightarrow> goerr + string"
  gs_Now :: "'w \<Rightarrow> int"
  gs_ctx :: "'w \<Rightarrow> err"

definition id_text :: "inapp_id \<Rightarrow> string" where
  "id_text i = id_Type i @ '':'' @ id_Value i"

definition activity :: "inapp_parcel \<Rightarrow> stream_activity outcome" where
  "activity p = (case ip_Time p of
     None \<Rightarrow> Panic
   | Some t \<Rightarrow> Ret \<lparr>ac_Actor = id_text (ip_Actor p), ac_Time = t, ac_Verb = ip_Action p, ac_ForeignID = ip_ReferenceID p,
                     ac_Object = id_text (ip_Subject p), ac_Extra = ip_Data p\<rparr>)"

text \<open>What an error of the service becomes.\<close>

definition stream_result :: "string \<Rightarrow> stream_error option \<Rightarrow> err" where
  "stream_result doing e = (case e of
     None \<Rightarrow> None
   | Some (APIError status limit remaining x) \<Rightarrow>
       (if status = 429 \<or> 500 \<le> status \<or> (limit \<noteq> 0 \<and> remaining = 0) then Some inapp_errPleaseRetry
        else Some (Wrapped (''unexpected error while '' @ doing) (Wrapped (''unexpected api error while '' @ doing) x)))
   | Some (OtherStreamError x) \<Rightarrow> Some (Wrapped (''unexpected error while '' @ doing) x))"

definition with_time :: "int \<Rightarrow> inapp_parcel \<Rightarrow> inapp_parcel" where
  "with_time now p = (if ip_Time p = None then p\<lparr>ip_Time := Some now\<rparr> else p)"

definition with_reference :: "string \<Rightarrow> inapp_parcel \<Rightarrow> inapp_parcel" where
  "with_reference ref p = (if ip_ReferenceID p = '''' then p\<lparr>ip_ReferenceID := ref\<rparr> else p)"

text \<open>For a single user, a subject that is this user is named by the actor instead.\<close>

definition own_reference :: "string \<Rightarrow> inapp_parcel \<Rightarrow> string" where
  "own_reference user p =
     (if id_Type (ip_Subject p) = ''userId'' \<and> id_Value (ip_Subject p) = user then id_text (ip_Actor p) else id_text (ip_Subject p))"

fun first_feed_error :: "'w getstream \<Rightarrow> string list \<Rightarrow> err" where
  "first_feed_error G [] = None"
| "first_feed_error G (u # us) = (case gs_Feed G u of
     Some e \<Rightarrow> Some (Wrapped (''failed to create notification feed for userID '' @ u) e)
   | None \<Rightarrow> first_feed_error G us)"

definition inapp_broadcast :: "'w getstream \<Rightarrow> string list \<Rightarrow> inapp_parcel \<times> 'w \<Rightarrow> (err \<times> inapp_parcel \<times> 'w) outcome" where
  "inapp_broadcast G users = (\<lambda>(p, w).
     if gs_ctx G w \<noteq> None then Ret (wrap_err ''context error'' (gs_ctx G w), p, w)
     else if inapp_MaxBatchSize < length users then Ret (Some (Sentinel ''maxBatchSize is 100, you can't send more at a time''), p, w)
     else
       (let p1 = with_time (gs_Now G w) p; p2 = with_reference (id_text (ip_Subject p1)) p1 in
        case first_feed_error G users of
          Some e \<Rightarrow> Ret (Some e, p2, w)
        | None \<Rightarrow> omap (\<lambda>a. case gs_AddToMany G users a w of
            (e, w1) \<Rightarrow> (stream_result ''broadcasting activity to notification feeds'' e, p2, w1)) (activity p2)))"

definition inapp_send :: "'w getstream \<Rightarrow> string list \<Rightarrow> inapp_parcel \<times> 'w \<Rightarrow> (err \<times> inapp_parcel \<times> 'w) outcome" where
  "inapp_send G users = (\<lambda>(p, w).
     if gs_ctx G w \<noteq> None then Ret (wrap_err ''context error'' (gs_ctx G w), p, w)
     else (case users of
         [] \<Rightarrow> Ret (Some (Sentinel ''please provide atleast one userID to send to''), p, w)
       | [u] \<Rightarrow>
           (case gs_Feed G u of
              Some e \<Rightarrow> Ret (Some (Wrapped ''unable to create notification feed'' e), p, w)
            | None \<Rightarrow>
                (let p1 = with_time (gs_Now G w) p; p2 = with_reference (own_reference u p1) p1 in
                 omap (\<lambda>a. case gs_AddActivity G u a w of
                   (e, w1) \<Rightarrow> (stream_result ''adding activity to notification feed'' e, p2, w1)) (activity p2)))
       | _ \<Rightarrow> inapp_broadcast G users (p, w)))"

definition inapp_attempt :: "'w getstream \<Rightarrow> string list \<Rightarrow> (inapp_parcel \<times> 'w) retried" where
  "inapp_attempt G users s = (case inapp_send G users s of
     Panic \<Rightarrow> (OpPanic, s) | Ret (e, s') \<Rightarrow> (retry_marked inapp_errPleaseRetry e, s'))"

definition inapp_Send :: "(inapp_parcel \<times> 'w) retrier \<Rightarrow> 'w getstream \<Rightarrow> string list \<Rightarrow> inapp_parcel \<times> 'w \<Rightarrow> err outcome \<times> inapp_parcel \<times> 'w" where
  "inapp_Send R G users s = apfst (omap (wrap_err ''permanently failed to send inApp notification'')) (R (inapp_attempt G users) s)"

definition CreateUserToken :: "'w getstream \<Rightarrow> inapp_config \<Rightarrow> string \<Rightarrow> 'w \<Rightarrow> goerr + string \<times> string \<times> string" where
  "CreateUserToken G c user w = (case gs_ctx G w of
     Some e \<Rightarrow> Inl (Wrapped ''context error'' e)
   | None \<Rightarrow> (case gs_CreateUserToken G user of
       Inl e \<Rightarrow> Inl (Wrapped ''failed to create user token'' e)
     | Inr token \<Rightarrow> Inr (ia_Key c, token, ia_AppID c)))"

definition complete_inapp_config :: "(string \<Rightarrow> string) \<Rightarrow> string \<Rightarrow> inapp_config \<Rightarrow> inapp_config" where
  "complete_inapp_config getenv key c =
     (let from = (\<lambda>name. env_setting (\<lambda>s. s = '''') getenv key (''INAPP_NOTIFICATIONS_CLIENT_'' @ name)) in
      \<lparr>ia_Key = from ''KEY'' (ia_Key c), ia_Secret = from ''SECRET'' (ia_Secret c), ia_AppID = from ''APP_ID'' (ia_AppID c)\<rparr>)"

text \<open>\<open>client\<close> connects; the probe is an activity for a random user.\<close>

definition New_inapp :: "(inapp_parcel \<times> 'w) retrier \<Rightarrow> (string \<Rightarrow> string \<Rightarrow> goerr + 'w getstream) \<Rightarrow> (string \<Rightarrow> string) \<Rightarrow> string \<Rightarrow> string \<Rightarrow>
    inapp_config \<Rightarrow> 'w \<Rightarrow> ('w getstream \<times> inapp_config \<times> 'w) outcome" where
  "New_inapp R client getenv uuid key loaded w =
     (let c = complete_inapp_config getenv key loaded;
          us = \<lparr>id_Type = ''system'', id_Value = ''wintr''\<rparr>;
          probe = \<lparr>ip_Time = None, ip_ReferenceID = '''', ip_Data = [], ip_Action = ''probing_bootstrap'', ip_Actor = us, ip_Subject = us\<rparr>
      in (case client (ia_Key c) (ia_Secret c) of
            Inl e \<Rightarrow> Panic
          | Inr G \<Rightarrow> (case inapp_Send R G [uuid] (probe, w) of
              (Ret None, (p, w1)) \<Rightarrow> Ret (G, c, w1)
            | (Ret (Some e), s) \<Rightarrow> Panic
            | (Panic, s) \<Rightarrow> Panic)))"

section \<open>Properties\<close>

lemma with_time_Some: "\<exists>t. ip_Time (with_time now p) = Some t"
  by (cases "ip_Time p") (simp_all add: with_time_def)

lemma with_reference_time [simp]: "ip_Time (with_reference r p) = ip_Time p"
  by (simp add: with_reference_def)

text \<open>Sending never panics: the time is there when the activity is made. And a parcel that has been sent keeps its time and reference.\<close>

lemma inapp_send_total: "inapp_send G users s \<noteq> Panic"
proof -
  obtain p w where s: "s = (p, w)" by (cases s)
  obtain t where t: "ip_Time (with_time (gs_Now G w) p) = Some t" using with_time_Some by blast
  have "inapp_broadcast G users (p, w) \<noteq> Panic"
    by (auto simp: inapp_broadcast_def Let_def activity_def t split: option.splits)
  then show ?thesis
    using t by (auto simp: s inapp_send_def Let_def activity_def split: list.splits option.splits)
qed

text \<open>A parcel given to one user after another keeps the reference made for the first one.\<close>

lemma reference_stays: "r \<noteq> '''' \<Longrightarrow> with_reference r' (with_reference r p) = with_reference r p"
  by (simp add: with_reference_def)

text \<open>What the service has accepted when an attempt is done: one activity, stamped and referenced, for the only user or for all.\<close>

definition inapp_added :: "'w getstream \<Rightarrow> string list \<Rightarrow> inapp_parcel \<times> 'w \<Rightarrow> inapp_parcel \<times> 'w \<Rightarrow> bool" where
  "inapp_added G users s s' \<longleftrightarrow> users \<noteq> [] \<and> length users \<le> 100 \<and> (\<exists>a. activity (fst s') = Ret a \<and>
    (case users of [u] \<Rightarrow> gs_AddActivity G u a (snd s) = (None, snd s') | _ \<Rightarrow> gs_AddToMany G users a (snd s) = (None, snd s')))"

lemma stream_result_None: "stream_result d e = None \<longleftrightarrow> e = None"
  by (cases e) (auto simp: stream_result_def split: stream_error.splits)

lemma broadcast_added:
  assumes "inapp_broadcast G users (p, w) = Ret (None, s')"
  shows "length users \<le> 100 \<and> (\<exists>a. activity (fst s') = Ret a \<and> gs_AddToMany G users a w = (None, snd s'))"
  using assms
  by (auto simp: inapp_broadcast_def inapp_MaxBatchSize_def Let_def wrap_err_def stream_result_None omap_Ret_iff
      split: option.splits if_splits prod.splits) (metis surj_pair fst_conv snd_conv)+

lemma send_added:
  assumes "inapp_send G users (p, w) = Ret (None, s')"
  shows "inapp_added G users (p, w) s'"
proof (cases users)
  case Nil
  then show ?thesis using assms by (simp add: inapp_send_def wrap_err_def split: if_splits)
next
  case (Cons u us)
  show ?thesis
  proof (cases us)
    case Nil
    then show ?thesis using assms Cons
      by (auto simp: inapp_added_def inapp_send_def Let_def wrap_err_def stream_result_None omap_Ret_iff
          split: option.splits if_splits prod.splits) (metis surj_pair fst_conv snd_conv)
  next
    case (Cons v vs)
    then have "inapp_broadcast G users (p, w) = Ret (None, s')"
      using assms \<open>users = u # us\<close> by (auto simp: inapp_send_def wrap_err_def split: if_splits)
    from broadcast_added [OF this] show ?thesis using Cons \<open>users = u # us\<close> by (simp add: inapp_added_def)
  qed
qed

interpretation inapp_client: retried_client "inapp_attempt G users" "inapp_added G users" for G users
proof
  fix s s'
  assume "inapp_attempt G users s = (OpDone, s')"
  then have "inapp_send G users s = Ret (None, s')"
    by (cases "inapp_send G users s") (auto simp: inapp_attempt_def retry_marked_cases split: prod.splits)
  then show "inapp_added G users s s'" using send_added by (cases s) simp
qed

text \<open>
  In-app notifications reach the feeds they are for: if \<open>Send\<close> reports success, there was at least one user, at most a hundred, and the
  last attempt added one activity, stamped and referenced, to the feed of the only user or to the feeds of all users at once.
\<close>

theorem inapp_success_was_added:
  assumes "retry_contract R" and "inapp_Send R G users (p, w) = (Ret None, (p', w'))"
  shows "users \<noteq> [] \<and> length users \<le> 100 \<and> (\<exists>a w0. activity p' = Ret a \<and>
    (case users of [u] \<Rightarrow> gs_AddActivity G u a w0 = (None, w') | _ \<Rightarrow> gs_AddToMany G users a w0 = (None, w')))"
  using inapp_client.success_accepted [OF assms(1) assms(2) [unfolded inapp_Send_def]]
  unfolding inapp_added_def fst_conv snd_conv by blast

end
