(* ===== verification/Sms.thy ===== *)
theory Sms
  imports Backoff Rest_Client
begin

text \<open>
  The text message client (\<open>sms/sms.go\<close>, \<open>sms/internal/internal.go\<close>): which messaging service serves which country, verifying a number,
  and sending. The service (Twilio), the parsing of numbers and the retry library are parameters.
\<close>

definition ErrInvalidPhoneNumber :: goerr where "ErrInvalidPhoneNumber = Sentinel ''phone number invalid''"
definition ErrInvalidPhoneNumberFormat :: goerr where "ErrInvalidPhoneNumberFormat = Sentinel ''phone number has invalid format''"
definition ErrSchedulingDateTooEarly :: goerr where "ErrSchedulingDateTooEarly = Sentinel ''scheduled time is too early''"
definition ErrUnsupportedCountry :: goerr where "ErrUnsupportedCountry = Sentinel ''unsupported country''"

text \<open>A duration of 16 minutes, in nanoseconds.\<close>

definition MinimumSchedulingDurationInAdvance :: int where
  "MinimumSchedulingDurationInAdvance = 16 * 60 * 1000000000"

text \<open>An error of the service's interface: a \<open>TwilioRestError\<close> with its code and status, or any other error.\<close>

datatype twilio_error = RestError int int goerr | OtherError goerr

fun error_of :: "twilio_error \<Rightarrow> goerr" where
  "error_of (RestError code status e) = e"
| "error_of (OtherError e) = e"

record sms_message =
  sm_To :: string
  sm_ServiceSid :: string
  sm_Body :: string
  sm_SendAt :: "int option"

record sms_parcel =
  sp_SendAt :: "int option"
  sp_ToNumber :: string
  sp_Message :: string

text \<open>\<open>tw_Region\<close> is the country of a number; \<open>tw_Now\<close> is read each time.\<close>

record 'w twilio =
  tw_FetchPhoneNumber :: "string \<Rightarrow> 'w \<Rightarrow> (twilio_error + string option) \<times> 'w"
  tw_CreateMessage :: "sms_message \<Rightarrow> 'w \<Rightarrow> twilio_error option \<times> 'w"
  tw_Region :: "string \<Rightarrow> goerr + string"
  tw_Now :: "'w \<Rightarrow> int"
  tw_ctx :: "'w \<Rightarrow> err"

section \<open>Services by country\<close>

text \<open>The configured services by country, in the order in which the runtime iterates over the map: the first country whose service it is gets
  the service, and only that one.\<close>

definition map_service :: "(string \<times> string) list \<Rightarrow> nat \<Rightarrow> string \<Rightarrow> (string \<Rightarrow> string option) \<Rightarrow> string \<Rightarrow> string option" where
  "map_service configured count sid senders = (case find (\<lambda>(country, s). s = sid) configured of
     Some (country, s) \<Rightarrow> senders(country \<mapsto> sid)
   | None \<Rightarrow> if count > 1 then senders else senders(''global'' \<mapsto> sid))"

text \<open>\<open>orders\<close>: the iteration order for each service.\<close>

fun map_services :: "(string \<times> string) list list \<Rightarrow> nat \<Rightarrow> string list \<Rightarrow> (string \<Rightarrow> string option) \<Rightarrow> string \<Rightarrow> string option" where
  "map_services (order # orders) count (sid # sids) senders = map_services orders count sids (map_service order count sid senders)"
| "map_services orders count sids senders = senders"

definition initClient :: "(string \<times> string) list list \<Rightarrow> goerr + string list \<Rightarrow> (string \<Rightarrow> string option) outcome" where
  "initClient orders services = (case services of
     Inl e \<Rightarrow> Panic
   | Inr sids \<Rightarrow> Ret (map_services orders (length sids) sids Map.empty))"

definition sms_credentials :: "(string \<Rightarrow> string) \<Rightarrow> string \<Rightarrow> string \<times> string \<Rightarrow> string \<times> string" where
  "sms_credentials getenv key c =
     (env_setting (\<lambda>s. s = '''') getenv key ''SMS_CLIENT_USER'' (fst c),
      env_setting (\<lambda>s. s = '''') getenv key ''SMS_CLIENT_PASSWORD'' (snd c))"

definition detectCounty :: "'w twilio \<Rightarrow> string \<Rightarrow> goerr + string" where
  "detectCounty T number = (case tw_Region T number of
     Inl e \<Rightarrow> Inl (Wrapped (''failed to detect phone number country using libphonenumber: '' @ number) e)
   | Inr r \<Rightarrow> Inr (to_lower r))"

text \<open>With one service only, it serves every country.\<close>

definition messageService :: "'w twilio \<Rightarrow> (string \<Rightarrow> string option) \<Rightarrow> string \<Rightarrow> goerr + string" where
  "messageService T senders number =
     (if card (dom senders) = 1 then Inr (the (senders (the_elem (dom senders))))
      else (case detectCounty T number of
          Inl e \<Rightarrow> Inl (Wrapped (''failed to detect country for phone number '' @ number) e)
        | Inr country \<Rightarrow> (case senders country of Some s \<Rightarrow> Inr s | None \<Rightarrow> Inl ErrUnsupportedCountry)))"

section \<open>Operations\<close>

definition verifyPhoneNumber :: "'w twilio \<Rightarrow> string \<Rightarrow> 'w retried" where
  "verifyPhoneNumber T number w =
     (if tw_ctx T w \<noteq> None then (permanent (tw_ctx T w), w)
      else (case tw_FetchPhoneNumber T number w of
          (Inl e, w1) \<Rightarrow>
            ((case e of
                RestError code status x \<Rightarrow>
                  (if code \<noteq> 20404 \<or> status \<noteq> 404 then OpTransient (Wrapped (''failed to validate and lookup phone number '' @ number) x)
                   else OpPermanent ErrInvalidPhoneNumber)
              | OtherError x \<Rightarrow> OpTransient (Wrapped (''failed to validate and lookup phone number '' @ number) x)), w1)
        | (Inr None, w1) \<Rightarrow> (OpDone, w1)
        | (Inr (Some found), w1) \<Rightarrow>
            (if number \<noteq> found then (OpPermanent (terror_New ErrInvalidPhoneNumberFormat [(''phoneNumber'', found)]), w1) else (OpDone, w1))))"

definition VerifyPhoneNumber :: "'w retrier \<Rightarrow> 'w twilio \<Rightarrow> string \<Rightarrow> 'w \<Rightarrow> err outcome \<times> 'w" where
  "VerifyPhoneNumber R T number w =
     (if tw_ctx T w \<noteq> None then (Ret (wrap_err ''context error'' (tw_ctx T w)), w)
      else apfst (omap (wrap_err ''failed to verify phone number via twilio'')) (R (verifyPhoneNumber T number) w))"

definition sms_attempt :: "'w twilio \<Rightarrow> (string \<Rightarrow> string option) \<Rightarrow> sms_parcel \<Rightarrow> 'w retried" where
  "sms_attempt T senders p w =
     (if tw_ctx T w \<noteq> None then (permanent (tw_ctx T w), w)
      else (case messageService T senders (sp_ToNumber p) of
          Inl e \<Rightarrow> (OpPermanent e, w)
        | Inr sid \<Rightarrow>
            (if (case sp_SendAt p of None \<Rightarrow> False | Some t \<Rightarrow> t - tw_Now T w < MinimumSchedulingDurationInAdvance)
             then (OpPermanent ErrSchedulingDateTooEarly, w)
             else (case tw_CreateMessage T \<lparr>sm_To = sp_ToNumber p, sm_ServiceSid = sid, sm_Body = sp_Message p, sm_SendAt = sp_SendAt p\<rparr> w of
                 (None, w1) \<Rightarrow> (OpDone, w1)
               | (Some (RestError code status x), w1) \<Rightarrow>
                   (if code = 21612 then (OpPermanent (Wrapped (''error while sending sms: '' @ err_text x) ErrUnsupportedCountry), w1)
                    else (OpTransient x, w1))
               | (Some (OtherError x), w1) \<Rightarrow> (OpTransient x, w1)))))"

definition sms_Send :: "'w retrier \<Rightarrow> 'w twilio \<Rightarrow> (string \<Rightarrow> string option) \<Rightarrow> sms_parcel \<Rightarrow> 'w \<Rightarrow> err outcome \<times> 'w" where
  "sms_Send R T senders p w = apfst (omap (wrap_err ''failed to send sms message via twilio'')) (R (sms_attempt T senders p) w)"

section \<open>Properties\<close>

lemma find_service:
  assumes "(c, sid) \<in> set configured"
  shows "\<exists>a. find (\<lambda>(country, s). s = sid) configured = Some (a, sid) \<and> (a, sid) \<in> set configured"
proof (cases "find (\<lambda>(country, s). s = sid) configured")
  case None
  then show ?thesis using assms by (auto simp: find_None_iff)
next
  case (Some x)
  then have "x \<in> set configured \<and> snd x = sid" using nth_mem by (fastforce simp: find_Some_iff)
  then show ?thesis using Some by (cases x) auto
qed

text \<open>Two countries that share the messaging service: only one of them is served, which one being up to the order of a map.\<close>

lemma shared_service_serves_one:
  assumes "initClient orders (Inr [sid, other]) = Ret senders" and "orders = [o1, o2]" and "c1 \<noteq> c2"
    and "set o1 = {(c1, sid), (c2, sid), (c3, other)}" and "set o2 = set o1" and "sid \<noteq> other" and "c3 \<notin> {c1, c2}"
  shows "senders c1 = None \<or> senders c2 = None"
proof -
  obtain a where a: "find (\<lambda>(country, s). s = sid) o1 = Some (a, sid)" "(a, sid) \<in> set o1"
    using find_service [of c1 sid o1] assms(4) by auto
  obtain b where b: "find (\<lambda>(country, s). s = other) o2 = Some (b, other)" "(b, other) \<in> set o2"
    using find_service [of c3 other o2] assms(4,5) by auto
  have "a = c1 \<or> a = c2" "b = c3" using a(2) b(2) assms(4-6) by auto
  then show ?thesis using assms(1,2,3,7) a(1) b(1) by (auto simp: initClient_def map_service_def)
qed

definition sms_created :: "'w twilio \<Rightarrow> (string \<Rightarrow> string option) \<Rightarrow> sms_parcel \<Rightarrow> 'w \<Rightarrow> 'w \<Rightarrow> bool" where
  "sms_created T senders p w w' \<longleftrightarrow> (\<exists>sid. messageService T senders (sp_ToNumber p) = Inr sid \<and>
    (\<forall>t. sp_SendAt p = Some t \<longrightarrow> t - tw_Now T w \<ge> MinimumSchedulingDurationInAdvance) \<and>
    tw_CreateMessage T \<lparr>sm_To = sp_ToNumber p, sm_ServiceSid = sid, sm_Body = sp_Message p, sm_SendAt = sp_SendAt p\<rparr> w = (None, w'))"

interpretation sms_client: retried_client "sms_attempt T senders p" "sms_created T senders p" for T senders p
proof
  fix w w'
  assume fin: "sms_attempt T senders p w = (OpDone, w')"
  then obtain sid where sid: "messageService T senders (sp_ToNumber p) = Inr sid" and ctx: "tw_ctx T w = None"
    by (cases "messageService T senders (sp_ToNumber p)"; cases "tw_ctx T w") (simp_all add: sms_attempt_def)
  show "sms_created T senders p w w'"
    using fin unfolding sms_attempt_def sms_created_def sid ctx
    by (intro exI [of _ sid]) (auto split: option.splits if_splits prod.splits twilio_error.splits)
qed

text \<open>A message that was sent went through a service and, if scheduled, at least sixteen minutes in advance.\<close>

theorem sms_success_was_created:
  assumes "retry_contract R" and "sms_Send R T senders p w = (Ret None, w')"
  shows "\<exists>w0 sid. messageService T senders (sp_ToNumber p) = Inr sid \<and>
    (\<forall>t. sp_SendAt p = Some t \<longrightarrow> t - tw_Now T w0 \<ge> 16 * 60 * 1000000000) \<and>
    tw_CreateMessage T \<lparr>sm_To = sp_ToNumber p, sm_ServiceSid = sid, sm_Body = sp_Message p, sm_SendAt = sp_SendAt p\<rparr> w0 = (None, w')"
  using sms_client.success_accepted [OF assms(1) assms(2) [unfolded sms_Send_def]]
  unfolding sms_created_def MinimumSchedulingDurationInAdvance_def by blast

end
