(* ===== verification/Logging.thy ===== *)
theory Logging
  imports Rest_Client
begin

text \<open>
  The logger over Go's standard one (\<open>log/stdlib_logger.go\<close>), as a function from a call to the lines it prints and how it ends.
  Values of any type are given with their printed form.
\<close>

datatype log_end = Returns | Panics | Exits

datatype 'a any_value = NilValue | ErrorValue goerr | StringValue string | OtherValue string

text \<open>\<open>strings.EqualFold\<close> on ASCII.\<close>

definition equal_fold :: "string \<Rightarrow> string \<Rightarrow> bool" where
  "equal_fold a b \<longleftrightarrow> to_lower a = to_lower b"

fun spaced :: "string list \<Rightarrow> string" where
  "spaced [] = ''''"
| "spaced [x] = x"
| "spaced (x # y # ys) = x @ '' '' @ spaced (y # ys)"

text \<open>The format has one verb for the message and one for each field, separated by spaces.\<close>

definition log_line :: "string \<Rightarrow> string \<Rightarrow> string list \<Rightarrow> string" where
  "log_line prefix msg values = prefix @ spaced (msg # values)"

definition log_Error :: "err \<Rightarrow> string list \<Rightarrow> string list" where
  "log_Error e values = (case e of None \<Rightarrow> [] | Some x \<Rightarrow> [log_line ''ERROR:'' (err_text x) values])"

definition log_Debug :: "string \<Rightarrow> string \<Rightarrow> string list \<Rightarrow> string list" where
  "log_Debug level msg values = (if \<not> equal_fold level ''debug'' then [] else [log_line ''DEBUG:'' msg values])"

definition log_Info :: "string \<Rightarrow> string \<Rightarrow> string list \<Rightarrow> string list" where
  "log_Info level msg values =
     (if \<not> equal_fold level ''debug'' \<and> \<not> equal_fold level ''info'' then [] else [log_line ''INFO:'' msg values])"

definition log_Warn :: "string \<Rightarrow> string \<Rightarrow> string list \<Rightarrow> string list" where
  "log_Warn level msg values =
     (if \<not> equal_fold level ''debug'' \<and> \<not> equal_fold level ''info'' \<and> \<not> equal_fold level ''warn'' then []
      else if to_lower level = ''debug'' \<or> to_lower level = ''info'' then []
      else [log_line ''WARN:'' msg values])"

definition log_any :: "'a any_value \<Rightarrow> string list \<Rightarrow> string list" where
  "log_any v values = (case v of
     NilValue \<Rightarrow> []
   | ErrorValue e \<Rightarrow> log_Error (Some e) values
   | StringValue s \<Rightarrow> log_Error (Some (Sentinel s)) values
   | OtherValue s \<Rightarrow> log_Error (Some (Sentinel s)) values)"

definition log_Fatal :: "'a any_value \<Rightarrow> string list \<Rightarrow> string list \<times> log_end" where
  "log_Fatal v values = (if v = NilValue then ([], Returns) else (log_any v values, Exits))"

definition log_Panic :: "'a any_value \<Rightarrow> string list \<Rightarrow> string list \<times> log_end" where
  "log_Panic v values = (if v = NilValue then ([], Returns) else (log_any v values, Panics))"

definition log_Level :: "string \<Rightarrow> string" where
  "log_Level level = level"

section \<open>Properties\<close>

lemma warn_only_at_warn: "log_Warn level msg values \<noteq> [] \<longleftrightarrow> equal_fold level ''warn''"
  by (auto simp: log_Warn_def equal_fold_def to_lower_def lower_char_def Let_def)

text \<open>Of the four kinds of lines, the level \<open>warn\<close> prints warnings and the more talkative ones do not.\<close>

lemma talkative_levels_hide_warnings:
  "log_Warn ''debug'' msg values = [] \<and> log_Warn ''info'' msg values = [] \<and> log_Warn ''warn'' msg values \<noteq> [] \<and>
   log_Info ''debug'' msg values \<noteq> [] \<and> log_Info ''info'' msg values \<noteq> []"
  by (simp add: log_Warn_def log_Info_def equal_fold_def to_lower_def lower_char_def Let_def)

text \<open>Whatever ends the program has printed its line.\<close>

lemma ending_prints:
  "snd (log_Panic v values) = Panics \<longleftrightarrow> v \<noteq> NilValue"
  "snd (log_Fatal v values) = Exits \<longleftrightarrow> v \<noteq> NilValue"
  "v \<noteq> NilValue \<Longrightarrow> length (fst (log_Panic v values)) = 1 \<and> length (fst (log_Fatal v values)) = 1"
  by (cases v; simp add: log_Panic_def log_Fatal_def log_any_def log_Error_def)+

end
