(* ===== verification/Calendar.thy ===== *)
theory Calendar
  imports Prelude
begin

text \<open>
  The proleptic Gregorian calendar of Go's package \<open>time\<close>: the day with a given number (day 0 is 1 January 1970) and the number of a given day,
  which are inverse to each other.
\<close>

definition leap_year :: "int \<Rightarrow> bool" where
  "leap_year y \<longleftrightarrow> y mod 4 = 0 \<and> (y mod 100 \<noteq> 0 \<or> y mod 400 = 0)"

definition month_lengths :: "int \<Rightarrow> nat list" where
  "month_lengths y = [31, if leap_year y then 29 else 28, 31, 30, 31, 30, 31, 31, 30, 31, 30, 31]"

definition days_in :: "nat \<Rightarrow> int \<Rightarrow> nat" where
  "days_in m y = month_lengths y ! (m - 1)"

text \<open>The days from 1 January of the year 0 to 1 January of the year \<open>y\<close>.\<close>

definition days_to_year :: "int \<Rightarrow> int" where
  "days_to_year y = 365 * y + (y + 3) div 4 - (y + 99) div 100 + (y + 399) div 400"

definition epoch_days :: int where
  "epoch_days = 719528"

definition days_of_civil :: "int \<Rightarrow> nat \<Rightarrow> nat \<Rightarrow> int" where
  "days_of_civil y m d = days_to_year y + int (sum_list (take (m - 1) (month_lengths y))) + int d - 1 - epoch_days"

text \<open>The year is estimated from the mean length of a year and then corrected.\<close>

definition year_of_day :: "int \<Rightarrow> int" where
  "year_of_day n = (let y = 400 * n div 146097 in
     if days_to_year (y + 1) \<le> n then y + 1 else if n < days_to_year y then y - 1 else y)"

fun month_split :: "nat list \<Rightarrow> nat \<Rightarrow> nat \<times> nat" where
  "month_split [] n = (1, Suc n)"
| "month_split (l # ls) n = (if n < l then (1, Suc n) else (case month_split ls (n - l) of (m, d) \<Rightarrow> (Suc m, d)))"

definition civil_of_days :: "int \<Rightarrow> int \<times> nat \<times> nat" where
  "civil_of_days n = (let y = year_of_day (n + epoch_days) in
     (y, month_split (month_lengths y) (nat (n + epoch_days - days_to_year y))))"

section \<open>Lemmas\<close>

text \<open>\<open>(y + j) div k\<close> with \<open>j = k - 1\<close> is the quotient rounded up.\<close>

lemma div_round_up:
  fixes k y :: int
  assumes "0 < k" and "j = k - 1"
  shows "(y + j) div k = (if y mod k = 0 then y div k else y div k + 1)"
proof (cases "y mod k = 0")
  case True
  then have "y + j = k * (y div k) + j" by (metis add.right_neutral mult_div_mod_eq)
  then have "(y + j) div k = y div k" by (rule int_div_pos_eq) (use assms in simp_all)
  then show ?thesis using True by simp
next
  case False
  have r: "0 \<le> y mod k" "y mod k < k" using assms by simp_all
  have "y + j = k * (y div k + 1) + (y mod k - 1)"
    using assms(2) by (simp add: distrib_left)
  then have "(y + j) div k = y div k + 1"
    by (rule int_div_pos_eq) (use False r in linarith)+
  then show ?thesis using False by simp
qed

lemma round_up_next:
  fixes k y :: int
  assumes "0 < k" and "j = k - 1"
  shows "(y + k) div k = (y + j) div k + (if y mod k = 0 then 1 else 0)"
proof -
  have "(y + k) div k = y div k + 1" using assms by (metis div_add_self2 less_irrefl)
  then show ?thesis by (simp only: div_round_up [OF assms, of y] split: if_split) simp
qed

lemma round_up_bounds:
  fixes k y :: int
  assumes "0 < k" and "j = k - 1"
  shows "y \<le> k * ((y + j) div k)" and "k * ((y + j) div k) \<le> y + j"
  using pos_mod_bound [OF assms(1), of "y + j"] pos_mod_sign [OF assms(1), of "y + j"]
    mult_div_mod_eq [of k "y + j"] assms(2) by linarith+

lemma days_to_next_year: "days_to_year (y + 1) = days_to_year y + (if leap_year y then 366 else 365)"
proof -
  have d4: "(y + 4) div 4 = (y + 3) div 4 + (if y mod 4 = 0 then 1 else 0)" by (rule round_up_next) simp_all
  have d100: "(y + 100) div 100 = (y + 99) div 100 + (if y mod 100 = 0 then 1 else 0)" by (rule round_up_next) simp_all
  have d400: "(y + 400) div 400 = (y + 399) div 400 + (if y mod 400 = 0 then 1 else 0)" by (rule round_up_next) simp_all
  have i: "y mod 100 = 0 \<Longrightarrow> y mod 4 = 0" "y mod 400 = 0 \<Longrightarrow> y mod 100 = 0"
    using dvd_trans [of 4 100 y] dvd_trans [of 100 400 y] by (simp_all add: mod_eq_0_iff_dvd)
  have e: "y + 1 + 3 = y + 4" "y + 1 + 99 = y + 100" "y + 1 + 399 = y + 400" "365 * (y + 1) = 365 * y + 365" by simp_all
  show ?thesis
    using i unfolding days_to_year_def leap_year_def e d4 d100 d400
    by (cases "y mod 4 = 0"; cases "y mod 100 = 0"; cases "y mod 400 = 0") simp_all
qed

lemma days_to_year_estimate:
  "146097 * y - 400 \<le> 400 * days_to_year y" "400 * days_to_year y \<le> 146097 * y + 700"
proof -
  have linear: "146097 * y - 400 \<le> 400 * (365 * y + a - b + c) \<and> 400 * (365 * y + a - b + c) \<le> 146097 * y + 700"
    if "y \<le> 4 * a" "4 * a \<le> y + 3" "y \<le> 100 * b" "100 * b \<le> y + 99" "y \<le> 400 * c" "400 * c \<le> y + 399" for a b c
    using that by (simp add: algebra_simps)
  have "146097 * y - 400 \<le> 400 * days_to_year y \<and> 400 * days_to_year y \<le> 146097 * y + 700"
    unfolding days_to_year_def by (rule linear; rule round_up_bounds; simp)
  then show "146097 * y - 400 \<le> 400 * days_to_year y" "400 * days_to_year y \<le> 146097 * y + 700"
    by blast+
qed

lemma year_of_day:
  "days_to_year (year_of_day n) \<le> n \<and> n < days_to_year (year_of_day n + 1)"
proof -
  define y where "y = 400 * n div 146097"
  have y: "146097 * y \<le> 400 * n" "400 * n < 146097 * y + 146097"
    using mult_div_mod_eq [of 146097 "400 * n"] pos_mod_bound [of 146097 "400 * n"] pos_mod_sign [of 146097 "400 * n"]
    unfolding y_def by linarith+
  have "days_to_year (y - 1) \<le> n"
    using days_to_year_estimate(2) [of "y - 1"] y by (simp add: algebra_simps)
  moreover have "n < days_to_year (y + 2)"
    using days_to_year_estimate(1) [of "y + 2"] y by (simp add: algebra_simps)
  ultimately show ?thesis
    unfolding year_of_day_def Let_def y_def [symmetric] by (simp add: add.commute)
qed

lemma days_to_year_mono: "x \<le> y \<Longrightarrow> days_to_year x \<le> days_to_year y"
proof (induction "nat (y - x)" arbitrary: y)
  case 0
  then show ?case by simp
next
  case (Suc k)
  then have "days_to_year x \<le> days_to_year (y - 1)" by simp
  then show ?case
    using days_to_next_year [of "y - 1"] by (simp split: if_splits)
qed

lemma year_of_day_unique:
  assumes "days_to_year y \<le> n" and "n < days_to_year (y + 1)"
  shows "year_of_day n = y"
proof (rule ccontr)
  assume "year_of_day n \<noteq> y"
  then consider "year_of_day n + 1 \<le> y" | "y + 1 \<le> year_of_day n" by linarith
  then show False
    by cases (use assms year_of_day [of n] days_to_year_mono in force)+
qed

text \<open>The months of a year.\<close>

lemma sum_month_lengths: "int (sum_list (month_lengths y)) = days_to_year (y + 1) - days_to_year y"
  by (simp add: month_lengths_def days_to_next_year)

lemma length_month_lengths [simp]: "length (month_lengths y) = 12"
  by (simp add: month_lengths_def)

lemma month_split_bounds:
  "n < sum_list ls \<Longrightarrow> month_split ls n = (m, d) \<Longrightarrow>
     1 \<le> m \<and> m \<le> length ls \<and> 1 \<le> d \<and> d \<le> ls ! (m - 1) \<and> sum_list (take (m - 1) ls) + d = Suc n"
proof (induction ls arbitrary: n m d)
  case Nil
  then show ?case by simp
next
  case (Cons l ls)
  show ?case
  proof (cases "n < l")
    case True
    with Cons.prems show ?thesis by auto
  next
    case False
    obtain m' d' where s: "month_split ls (n - l) = (m', d')" by fastforce
    with False Cons.prems have m: "m = Suc m'" "d = d'" by auto
    have "n - l < sum_list ls" using False Cons.prems(1) by simp
    then have "1 \<le> m' \<and> m' \<le> length ls \<and> 1 \<le> d' \<and> d' \<le> ls ! (m' - 1) \<and> sum_list (take (m' - 1) ls) + d' = Suc (n - l)"
      using Cons.IH s by blast
    then show ?thesis
      using False by (cases m') (auto simp: m)
  qed
qed

lemma month_split_unique:
  "1 \<le> m \<Longrightarrow> m \<le> length ls \<Longrightarrow> 1 \<le> d \<Longrightarrow> d \<le> ls ! (m - 1) \<Longrightarrow>
     month_split ls (sum_list (take (m - 1) ls) + d - 1) = (m, d)"
proof (induction ls arbitrary: m)
  case Nil
  then show ?case by simp
next
  case (Cons l ls)
  show ?case
  proof (cases "m = 1")
    case True
    with Cons.prems show ?thesis by (simp, linarith)
  next
    case False
    then obtain k where k: "m = Suc (Suc k)"
      using Cons.prems(1) by (metis One_nat_def Suc_le_D not0_implies_Suc)
    have "month_split ls (sum_list (take k ls) + d - 1) = (Suc k, d)"
      using Cons.IH [of "Suc k"] Cons.prems by (simp add: k)
    moreover have "\<not> l + sum_list (take k ls) + d - 1 < l"
      using Cons.prems(3) by linarith
    moreover have "l + sum_list (take k ls) + d - 1 - l = sum_list (take k ls) + d - 1"
      by simp
    ultimately show ?thesis by (simp add: k add.assoc)
  qed
qed

section \<open>The two directions are inverse\<close>

lemma day_in_year: "nat (n - days_to_year (year_of_day n)) < sum_list (month_lengths (year_of_day n))"
  using year_of_day [of n] sum_month_lengths [of "year_of_day n"] by linarith

theorem civil_of_days_valid:
  assumes "civil_of_days n = (y, m, d)"
  shows "1 \<le> m \<and> m \<le> 12 \<and> 1 \<le> d \<and> d \<le> days_in m y" and "days_of_civil y m d = n"
proof -
  have y: "y = year_of_day (n + epoch_days)"
    and s: "month_split (month_lengths y) (nat (n + epoch_days - days_to_year y)) = (m, d)"
    using assms by (auto simp: civil_of_days_def Let_def)
  note b = month_split_bounds [OF day_in_year [of "n + epoch_days", folded y] s]
  show "1 \<le> m \<and> m \<le> 12 \<and> 1 \<le> d \<and> d \<le> days_in m y"
    using b by (simp add: days_in_def)
  have "int (sum_list (take (m - 1) (month_lengths y))) + int d = 1 + (n + epoch_days - days_to_year y)"
    using b year_of_day [of "n + epoch_days", folded y] by linarith
  then show "days_of_civil y m d = n"
    by (simp add: days_of_civil_def)
qed

theorem civil_of_days_of_civil:
  assumes "1 \<le> m" "m \<le> 12" "1 \<le> d" "d \<le> days_in m y"
  shows "civil_of_days (days_of_civil y m d) = (y, m, d)"
proof -
  let ?k = "sum_list (take (m - 1) (month_lengths y)) + d - 1"
  have s: "month_split (month_lengths y) ?k = (m, d)"
    using assms by (intro month_split_unique) (simp_all add: days_in_def)
  have n: "days_of_civil y m d + epoch_days = days_to_year y + int ?k"
    using assms(3) by (simp add: days_of_civil_def)
  have "m - 1 < length (month_lengths y)" using assms by simp
  then have "sum_list (take (m - 1) (month_lengths y)) + month_lengths y ! (m - 1) \<le> sum_list (month_lengths y)"
    by (metis add_leE id_take_nth_drop le_add1 add.assoc sum_list.Cons sum_list_append)
  then have "?k < sum_list (month_lengths y)"
    using assms(3,4) by (simp add: days_in_def)
  then have "year_of_day (days_to_year y + int ?k) = y"
    using sum_month_lengths [of y] by (intro year_of_day_unique) linarith+
  then show ?thesis
    unfolding civil_of_days_def n Let_def by (simp only: add_diff_cancel_left' nat_int s)
qed

end
