(* ===== verification/Time_Text.thy ===== *)
theory Time_Text
  imports Calendar Decimal Go_Errors
begin

text \<open>
  The textual form of Go's own times, which the time type of the repository writes and reads (\<open>time/time.go\<close>): RFC 3339 with up to nine
  digits of a second, as \<open>time.Time\<close> prints and parses it.
\<close>

section \<open>Times\<close>

text \<open>An instant is its nanoseconds since 1970, with the zone it is shown in: the location \<open>UTC\<close> or another one, with its
  offset at that instant in seconds.\<close>

datatype zone = UTC | Offset int

record go_time =
  ti_nanos :: int
  ti_zone :: zone

fun zone_offset :: "zone \<Rightarrow> int" where
  "zone_offset UTC = 0"
| "zone_offset (Offset n) = n"

definition utc :: "go_time \<Rightarrow> go_time" where
  "utc t = t\<lparr>ti_zone := UTC\<rparr>"

text \<open>\<open>time.Time{}\<close>: 1 January of the year 1.\<close>

definition zero_time :: go_time where
  "zero_time = \<lparr>ti_nanos = - 62135596800000000000, ti_zone = UTC\<rparr>"

section \<open>Printing\<close>

definition append_int :: "nat \<Rightarrow> int \<Rightarrow> string" where
  "append_int w x = (let s = dec_string (nat \<bar>x\<bar>) in
     (if x < 0 then ''-'' else '''') @ replicate (w - length s) CHR ''0'' @ s)"

text \<open>The nanoseconds without the zeros at their end, or nothing.\<close>

definition frac_text :: "nat \<Rightarrow> string" where
  "frac_text n = (let s = trim_right CHR ''0'' (pad 9 n) in if s = [] then [] else CHR ''.'' # s)"

definition zone_text :: "int \<Rightarrow> string" where
  "zone_text off =
     (if off = 0 then ''Z''
      else (let z = \<bar>off\<bar> div 60 in
        (if off \<le> - 60 then ''-'' else ''+'') @ append_int 2 (z div 60) @ '':'' @ append_int 2 (z mod 60)))"

definition format_RFC3339 :: "go_time \<Rightarrow> string" where
  "format_RFC3339 t =
     (let local = ti_nanos t + zone_offset (ti_zone t) * 1000000000;
          secs = local div 1000000000;
          clock = secs mod 86400;
          (y, m, d) = civil_of_days (secs div 86400) in
      append_int 4 y @ ''-'' @ append_int 2 (int m) @ ''-'' @ append_int 2 (int d) @ ''T'' @
      append_int 2 (clock div 3600) @ '':'' @ append_int 2 (clock mod 3600 div 60) @ '':'' @ append_int 2 (clock mod 60) @
      frac_text (nat (local mod 1000000000)) @ zone_text (zone_offset (ti_zone t)))"

definition num2 :: "char \<Rightarrow> char \<Rightarrow> nat" where
  "num2 a b = 10 * digit_val a + digit_val b"

text \<open>\<open>appendStrictRFC3339\<close> looks at what it has printed.\<close>

definition strict_RFC3339 :: "go_time \<Rightarrow> goerr + string" where
  "strict_RFC3339 t = (let b = format_RFC3339 t in
     if b ! 4 \<noteq> CHR ''-'' then Inl (Sentinel ''year outside of range [0,9999]'')
     else if last b \<noteq> CHR ''Z'' \<and>
       (is_digit (b ! (length b - 6)) \<or> 24 \<le> num2 (b ! (length b - 5)) (b ! (length b - 4)))
     then Inl (Sentinel ''timezone hour outside of range [0,23]'')
     else Inr b)"

definition prefix_error :: "string \<Rightarrow> goerr + string \<Rightarrow> goerr + string" where
  "prefix_error p r = (case r of Inl e \<Rightarrow> Inl (Sentinel (p @ err_text e)) | Inr s \<Rightarrow> Inr s)"

definition go_MarshalText :: "go_time \<Rightarrow> goerr + string" where
  "go_MarshalText t = prefix_error ''Time.MarshalText: '' (strict_RFC3339 t)"

definition quote_char :: char where
  "quote_char = CHR 0x22"

definition go_MarshalJSON :: "go_time \<Rightarrow> goerr + string" where
  "go_MarshalJSON t = (case prefix_error ''Time.MarshalJSON: '' (strict_RFC3339 t) of
     Inl e \<Rightarrow> Inl e | Inr s \<Rightarrow> Inr ([quote_char] @ s @ [quote_char]))"

section \<open>Parsing\<close>

text \<open>What is wrong: the element of the layout at which the value could not be parsed, a number out of its range, or text after the end.\<close>

datatype parse_fail = Cannot string string | Out_of_range string | Extra_text string

fun sbind :: "'e + 'a \<Rightarrow> ('a \<Rightarrow> 'e + 'b) \<Rightarrow> 'e + 'b" where
  "sbind (Inl e) f = Inl e"
| "sbind (Inr a) f = f a"

fun getnum :: "bool \<Rightarrow> string \<Rightarrow> (nat \<times> string) option" where
  "getnum fixed [] = None"
| "getnum fixed [a] = (if is_digit a \<and> \<not> fixed then Some (digit_val a, []) else None)"
| "getnum fixed (a # b # s) =
     (if \<not> is_digit a then None
      else if \<not> is_digit b then (if fixed then None else Some (digit_val a, b # s))
      else Some (10 * digit_val a + digit_val b, s))"

text \<open>The characters of the layout between two elements; \<open>p0\<close> is all of them.\<close>

fun skip_layout :: "string \<Rightarrow> string \<Rightarrow> string \<Rightarrow> parse_fail + string" where
  "skip_layout p0 [] v = Inr v"
| "skip_layout p0 (p # ps) [] = Inl (Cannot p0 [])"
| "skip_layout p0 (p # ps) (c # v) = (if c \<noteq> p then Inl (Cannot p0 (c # v)) else skip_layout p0 ps v)"

definition parse_year :: "string \<Rightarrow> string \<Rightarrow> parse_fail + (int \<times> string)" where
  "parse_year pre v = sbind (skip_layout pre pre v) (\<lambda>hold.
     if length hold < 4 \<or> (\<exists>c \<in> set (take 4 hold). \<not> is_digit c) then Inl (Cannot ''2006'' hold)
     else Inr (int (dec_val (take 4 hold)), drop 4 hold))"

definition parse_field ::
  "string \<Rightarrow> string \<Rightarrow> bool \<Rightarrow> (nat \<Rightarrow> bool) \<Rightarrow> string \<Rightarrow> string \<Rightarrow> parse_fail + (nat \<times> string)" where
  "parse_field elem name fixed ok pre v = sbind (skip_layout pre pre v) (\<lambda>hold. case getnum fixed hold of
     None \<Rightarrow> Inl (Cannot elem hold)
   | Some (n, rest) \<Rightarrow> if ok n then Inr (n, rest) else Inl (Out_of_range name))"

text \<open>A fraction after a point or a comma, if there is one: nine digits count.\<close>

definition parse_frac :: "string \<Rightarrow> nat \<times> string" where
  "parse_frac v = (case v of
     [] \<Rightarrow> (0, v)
   | c # rest \<Rightarrow>
       (if (c = CHR ''.'' \<or> c = CHR '','') \<and> rest \<noteq> [] \<and> is_digit (hd rest)
        then (let ds = take 9 (takeWhile is_digit rest) in (dec_val ds * 10 ^ (9 - length ds), dropWhile is_digit rest))
        else (0, v)))"

text \<open>\<open>hr > 24\<close> and \<open>mm > 60\<close> are looked at before the other errors.\<close>

definition parse_zone :: "string \<Rightarrow> parse_fail + (zone \<times> string)" where
  "parse_zone v =
     (if v \<noteq> [] \<and> hd v = CHR ''Z'' then Inr (UTC, tl v)
      else if length v < 6 \<or> v ! 3 \<noteq> CHR '':'' then Inl (Cannot ''Z07:00'' v)
      else (let hr = getnum True (take 2 (drop 1 v));
                mm = (if hr = None then None else getnum True (take 2 (drop 4 v))) in
        if hr \<noteq> None \<and> 24 < fst (the hr) then Inl (Out_of_range ''time zone offset hour'')
        else if mm \<noteq> None \<and> 60 < fst (the mm) then Inl (Out_of_range ''time zone offset minute'')
        else if hr = None \<or> mm = None \<or> (hd v \<noteq> CHR ''+'' \<and> hd v \<noteq> CHR ''-'') then Inl (Cannot ''Z07:00'' v)
        else (let off = int ((fst (the hr) * 60 + fst (the mm)) * 60) in
          Inr (Offset (if hd v = CHR ''-'' then - off else off), drop 6 v))))"

text \<open>\<open>time.Date\<close>, for a clock that shows the offset of the zone.\<close>

definition go_Date :: "int \<Rightarrow> nat \<Rightarrow> nat \<Rightarrow> nat \<Rightarrow> nat \<Rightarrow> nat \<Rightarrow> nat \<Rightarrow> zone \<Rightarrow> go_time" where
  "go_Date y mo d h mi s ns z =
     \<lparr>ti_nanos = (days_of_civil y mo d * 86400 + int (h * 3600 + mi * 60 + s) - zone_offset z) * 1000000000 + int ns, ti_zone = z\<rparr>"

text \<open>The layout is RFC 3339, in quotes if \<open>q\<close> is the quote. The fraction is not in the layout without quotes, but \<open>Parse\<close> accepts it there too.\<close>

definition parse_RFC3339 :: "string \<Rightarrow> string \<Rightarrow> parse_fail + go_time" where
  "parse_RFC3339 q v =
     sbind (parse_year q v) (\<lambda>(y, v).
     sbind (parse_field ''01'' ''month'' True (\<lambda>n. 1 \<le> n \<and> n \<le> 12) ''-'' v) (\<lambda>(mo, v).
     sbind (parse_field ''02'' ''day'' True (\<lambda>n. True) ''-'' v) (\<lambda>(d, v).
     sbind (parse_field ''15'' ''hour'' False (\<lambda>n. n < 24) ''T'' v) (\<lambda>(h, v).
     sbind (parse_field ''04'' ''minute'' True (\<lambda>n. n < 60) '':'' v) (\<lambda>(mi, v).
     sbind (parse_field ''05'' ''second'' True (\<lambda>n. n < 60) '':'' v) (\<lambda>(s, v).
     case parse_frac v of (ns, v) \<Rightarrow>
     sbind (parse_zone v) (\<lambda>(z, v).
     sbind (skip_layout q q v) (\<lambda>v.
       if v \<noteq> [] then Inl (Extra_text v)
       else if d < 1 \<or> days_in mo y < d then Inl (Out_of_range ''day'')
       else Inr (go_Date y mo d h mi s ns z)))))))))"

text \<open>The text of the error: quoted texts have their control and non-ASCII bytes in hexadecimal.\<close>

definition hex_digit :: "nat \<Rightarrow> char" where
  "hex_digit n = (if n < 10 then digit n else char_of (87 + n))"

definition quote_byte :: "char \<Rightarrow> string" where
  "quote_byte c = (let n = of_char c :: nat in
     if 128 \<le> n \<or> n < 32 then [CHR 0x5C, CHR ''x'', hex_digit (n div 16), hex_digit (n mod 16)]
     else if c = quote_char \<or> c = CHR 0x5C then [CHR 0x5C, c] else [c])"

definition go_quote :: "string \<Rightarrow> string" where
  "go_quote s = [quote_char] @ concat (map quote_byte s) @ [quote_char]"

definition parse_error :: "string \<Rightarrow> string \<Rightarrow> parse_fail \<Rightarrow> goerr" where
  "parse_error layout v f = Sentinel (''parsing time '' @ go_quote v @ (case f of
     Cannot elem rest \<Rightarrow> '' as '' @ go_quote layout @ '': cannot parse '' @ go_quote rest @ '' as '' @ go_quote elem
   | Out_of_range name \<Rightarrow> '': '' @ name @ '' out of range''
   | Extra_text rest \<Rightarrow> '': extra text: '' @ go_quote rest))"

definition go_UnmarshalText :: "string \<Rightarrow> goerr + go_time" where
  "go_UnmarshalText v = (case parse_RFC3339 '''' v of
     Inl f \<Rightarrow> Inl (parse_error ''2006-01-02T15:04:05Z07:00'' v f) | Inr t \<Rightarrow> Inr t)"

definition go_ParseJSON :: "string \<Rightarrow> goerr + go_time" where
  "go_ParseJSON v = (case parse_RFC3339 [quote_char] v of
     Inl f \<Rightarrow> Inl (parse_error ([quote_char] @ ''2006-01-02T15:04:05.999999999Z07:00'' @ [quote_char]) v f) | Inr t \<Rightarrow> Inr t)"

section \<open>What is printed is parsed\<close>

text \<open>One lemma per element: it is read back, and the rest of the text is left.\<close>

lemma append_int_pad: "0 < w \<Longrightarrow> 0 \<le> x \<Longrightarrow> x < 10 ^ w \<Longrightarrow> append_int w x = pad w (nat x)"
  by (simp add: append_int_def Let_def pad_dec_string nat_less_iff)

lemma pad_2: "pad 2 n = [digit (n div 10 mod 10), digit (n mod 10)]"
  by (simp add: numeral_2_eq_2)

lemma getnum_pad [simp]: "n < 100 \<Longrightarrow> getnum fixed (pad 2 n @ rest) = Some (n, rest)"
  by (simp add: pad_2)

lemma skip_layout_append [simp]: "skip_layout p0 p (p @ v) = Inr v"
  by (induction p) simp_all

lemma skip_layout_Cons [simp]: "skip_layout p0 [c] (c # v) = Inr v"
  by simp

lemma parse_field_pad:
  "n < 100 \<Longrightarrow> ok n \<Longrightarrow> parse_field elem name fixed ok [c] (c # pad 2 n @ rest) = Inr (n, rest)"
  by (simp add: parse_field_def)

lemma parse_year_pad: "n < 10000 \<Longrightarrow> parse_year q (q @ pad 4 n @ rest) = Inr (int n, rest)"
  using pad_digits [of 4 n] by (auto simp: parse_year_def pad_val)

lemma digits_append:
  assumes "\<forall>c \<in> set s. is_digit c" and "rest = [] \<or> \<not> is_digit (hd rest)"
  shows "takeWhile is_digit (s @ rest) = s" and "dropWhile is_digit (s @ rest) = rest"
  using assms by (cases rest; simp)+

lemma trim_pad_val:
  assumes "n < 10 ^ k"
  shows "dec_val (trim_right CHR ''0'' (pad k n)) * 10 ^ (k - length (trim_right CHR ''0'' (pad k n))) = n"
proof -
  have "dec_val (trim_right CHR ''0'' (pad k n) @ replicate (k - length (trim_right CHR ''0'' (pad k n))) CHR ''0'') = n"
    using trim_right_pad [of "CHR ''0''" "pad k n"] assms by (simp add: pad_val)
  then show ?thesis by (simp add: dec_val_append)
qed

lemma parse_frac_text:
  assumes "n < 10 ^ 9" and "rest \<noteq> []" and "\<not> is_digit (hd rest)" and "hd rest \<noteq> CHR ''.''" and "hd rest \<noteq> CHR '',''"
  shows "parse_frac (frac_text n @ rest) = (n, rest)"
proof (cases "trim_right CHR ''0'' (pad 9 n) = []")
  case True
  then have "n = 0" using assms(1) by (simp add: trim_right_pad_Nil)
  then show ?thesis
    using True assms by (cases rest) (simp_all add: frac_text_def parse_frac_def)
next
  case False
  define s where "s = trim_right CHR ''0'' (pad 9 n)"
  have s: "s \<noteq> []" "length s \<le> 9" "\<forall>c \<in> set s. is_digit c"
    using False length_trim_right [of "CHR ''0''" "pad 9 n"] set_trim_right [of "CHR ''0''" "pad 9 n"] pad_digits [of 9 n]
    by (auto simp: s_def)
  then have d: "is_digit (hd (s @ rest))" by (cases s) simp_all
  have v: "dec_val s * 10 ^ (9 - length s) = n"
    unfolding s_def using trim_pad_val assms(1) by blast
  have "frac_text n = CHR ''.'' # s"
    using s(1) by (simp add: frac_text_def flip: s_def)
  then show ?thesis
    using s d v assms digits_append [OF s(3), of rest] by (simp add: parse_frac_def)
qed

text \<open>An offset is cut to minutes, towards zero.\<close>

definition whole_minutes :: "int \<Rightarrow> int" where
  "whole_minutes off = sgn off * (\<bar>off\<bar> div 60 * 60)"

lemma zone_text_short:
  assumes "off \<noteq> 0" and "\<bar>off\<bar> < 360000"
  shows "zone_text off = (if off \<le> - 60 then CHR ''-'' else CHR ''+'') # pad 2 (nat (\<bar>off\<bar> div 60 div 60)) @ CHR '':'' # pad 2 (nat (\<bar>off\<bar> div 60 mod 60))"
proof -
  have "0 \<le> \<bar>off\<bar> div 60 div 60" "\<bar>off\<bar> div 60 div 60 < 10 ^ 2" "0 \<le> \<bar>off\<bar> div 60 mod 60" "\<bar>off\<bar> div 60 mod 60 < 10 ^ 2"
    using assms(2) pos_mod_bound [of 60 "\<bar>off\<bar> div 60"] by simp_all
  then show ?thesis
    using assms(1) by (simp add: zone_text_def Let_def append_int_pad)
qed

lemma parse_zone_text:
  assumes "\<bar>off\<bar> < 86400"
  shows "parse_zone (zone_text off @ rest) = Inr (if off = 0 then UTC else Offset (whole_minutes off), rest)"
proof (cases "off = 0")
  case True
  then show ?thesis by (simp add: zone_text_def parse_zone_def)
next
  case False
  define h where "h = nat (\<bar>off\<bar> div 60 div 60)"
  define m where "m = nat (\<bar>off\<bar> div 60 mod 60)"
  have h: "h < 24" using assms unfolding h_def by simp
  have m: "m < 60" unfolding m_def using pos_mod_bound [of 60 "\<bar>off\<bar> div 60"] by linarith
  have hm: "int h * 60 + int m = \<bar>off\<bar> div 60"
    unfolding h_def m_def using div_mult_mod_eq [of "\<bar>off\<bar> div 60" 60] by simp
  have z: "zone_text off = (if off \<le> - 60 then CHR ''-'' else CHR ''+'') # pad 2 h @ CHR '':'' # pad 2 m"
    using zone_text_short [OF False] assms by (simp add: h_def m_def)
  have g: "getnum True (take 2 (pad 2 h @ u)) = Some (h, [])" "getnum True (take 2 (pad 2 m @ u)) = Some (m, [])" for u
    using getnum_pad [of h True "[]"] getnum_pad [of m True "[]"] h m by simp_all
  have r: "(if off \<le> - 60 then - int ((h * 60 + m) * 60) else int ((h * 60 + m) * 60)) = whole_minutes off"
  proof (cases "off < 0 \<and> \<not> off \<le> - 60")
    case True
    then have "\<bar>off\<bar> div 60 = 0" by (simp add: div_pos_pos_trivial)
    with hm True show ?thesis by (simp add: whole_minutes_def)
  next
    case False': False
    have "int ((h * 60 + m) * 60) = \<bar>off\<bar> div 60 * 60" using hm by simp
    then show ?thesis using False False' by (auto simp: whole_minutes_def sgn_if)
  qed
  show ?thesis
    unfolding z parse_zone_def
    using False h m g(1) [of "CHR '':'' # pad 2 m @ rest"] g(2) [of rest] r
    by (simp add: nth_append drop_Cons' Let_def pad_2 split: if_splits)
qed

lemma whole_minutes_0 [simp]: "whole_minutes 0 = 0"
  by (simp add: whole_minutes_def)

lemma whole_minutes_exact: "off = whole_minutes off \<longleftrightarrow> 60 dvd off"
proof -
  have "off = sgn off * \<bar>off\<bar>" by (simp add: sgn_mult_abs)
  moreover have "\<bar>off\<bar> div 60 * 60 = \<bar>off\<bar> \<longleftrightarrow> 60 dvd \<bar>off\<bar>" by (metis dvd_div_mult_self dvd_triv_right)
  ultimately show ?thesis
    by (cases "off = 0") (auto simp: whole_minutes_def sgn_if split: if_splits)
qed

text \<open>The parts of a time.\<close>

definition local_nanos :: "go_time \<Rightarrow> int" where
  "local_nanos t = ti_nanos t + zone_offset (ti_zone t) * 1000000000"

definition local_year :: "go_time \<Rightarrow> int" where
  "local_year t = fst (civil_of_days (local_nanos t div 1000000000 div 86400))"

lemma pad_bounds:
  "n < 100 \<Longrightarrow> append_int 2 (int n) = pad 2 n" "n < 10000 \<Longrightarrow> append_int 4 (int n) = pad 4 n"
  by (simp_all add: append_int_pad)

text \<open>With a year of four digits, a time is printed as fields of fixed length, the fraction and the zone.\<close>

lemma format_fields:
  assumes "0 \<le> local_year t" and "local_year t \<le> 9999"
  obtains y mo d h mi s where
    "format_RFC3339 t = pad 4 y @ CHR ''-'' # pad 2 mo @ CHR ''-'' # pad 2 d @ CHR ''T'' # pad 2 h @ CHR '':'' # pad 2 mi @ CHR '':'' # pad 2 s @
       frac_text (nat (local_nanos t mod 1000000000)) @ zone_text (zone_offset (ti_zone t))"
    and "y < 10000" "1 \<le> mo" "mo \<le> 12" "1 \<le> d" "d \<le> days_in mo (int y)" "d < 100" "h < 24" "mi < 60" "s < 60"
    and "days_of_civil (int y) mo d * 86400 + int (h * 3600 + mi * 60 + s) = local_nanos t div 1000000000"
proof -
  define secs where "secs = local_nanos t div 1000000000"
  define clock where "clock = secs mod 86400"
  obtain y mo d where c: "civil_of_days (secs div 86400) = (y, mo, d)" using prod_cases3 by blast
  note v = civil_of_days_valid [OF c]
  have y: "0 \<le> y" "y \<le> 9999" using assms c by (simp_all add: local_year_def secs_def)
  have d: "d < 100"
  proof -
    have "days_in mo y \<le> 31" using v(1) by (auto simp: days_in_def month_lengths_def nth_Cons split: nat.splits)
    then show ?thesis using v(1) by linarith
  qed
  have clock: "0 \<le> clock" "clock < 86400" by (simp_all add: clock_def)
  define h mi s where "h = nat (clock div 3600)" and "mi = nat (clock mod 3600 div 60)" and "s = nat (clock mod 60)"
  have b: "h < 24" "mi < 60" "s < 60" using clock by (simp_all add: h_def mi_def s_def nat_less_iff)
  have i: "int h = clock div 3600" "int mi = clock mod 3600 div 60" "int s = clock mod 60"
    using clock by (simp_all add: h_def mi_def s_def)
  have sum: "int (h * 3600 + mi * 60 + s) = clock"
  proof -
    have "clock mod 3600 mod 60 = clock mod 60" by (rule mod_mod_cancel) simp
    then show ?thesis
      using mult_div_mod_eq [of 3600 clock] mult_div_mod_eq [of 60 "clock mod 3600"]
      unfolding of_nat_add of_nat_mult of_nat_numeral i by linarith
  qed
  have f: "format_RFC3339 t = append_int 4 (int (nat y)) @ ''-'' @ append_int 2 (int mo) @ ''-'' @ append_int 2 (int d) @ ''T'' @
      append_int 2 (int h) @ '':'' @ append_int 2 (int mi) @ '':'' @ append_int 2 (int s) @
      frac_text (nat (local_nanos t mod 1000000000)) @ zone_text (zone_offset (ti_zone t))"
    using c y(1) unfolding format_RFC3339_def Let_def i
    by (simp add: local_nanos_def secs_def clock_def)
  show thesis
  proof (rule that)
    show "format_RFC3339 t = pad 4 (nat y) @ CHR ''-'' # pad 2 mo @ CHR ''-'' # pad 2 d @ CHR ''T'' # pad 2 h @ CHR '':'' # pad 2 mi @ CHR '':'' # pad 2 s @
       frac_text (nat (local_nanos t mod 1000000000)) @ zone_text (zone_offset (ti_zone t))"
      unfolding f using y d b v(1) by (simp add: pad_bounds append_int_pad)
    show "days_of_civil (int (nat y)) mo d * 86400 + int (h * 3600 + mi * 60 + s) = local_nanos t div 1000000000"
      using v(2) y(1) unfolding sum by (simp add: clock_def secs_def)
  qed (use y d b v(1) in auto)
qed

text \<open>Parsing what was printed: the instant is kept but for the seconds of the offset, which are not printed.\<close>

lemma zone_text_head: "zone_text off \<noteq> []" "hd (zone_text off) \<in> {CHR ''Z'', CHR ''+'', CHR ''-''}"
  by (simp_all add: zone_text_def Let_def)

theorem parse_format:
  assumes "0 \<le> local_year t" and "local_year t \<le> 9999" and "\<bar>zone_offset (ti_zone t)\<bar> < 86400"
  shows "parse_RFC3339 q (q @ format_RFC3339 t @ q) = Inr
    \<lparr>ti_nanos = ti_nanos t + (zone_offset (ti_zone t) - whole_minutes (zone_offset (ti_zone t))) * 1000000000,
     ti_zone = (if zone_offset (ti_zone t) = 0 then UTC else Offset (whole_minutes (zone_offset (ti_zone t))))\<rparr>"
proof -
  let ?off = "zone_offset (ti_zone t)"
  define ns where "ns = nat (local_nanos t mod 1000000000)"
  obtain y mo d h mi s where
    f: "format_RFC3339 t = pad 4 y @ CHR ''-'' # pad 2 mo @ CHR ''-'' # pad 2 d @ CHR ''T'' # pad 2 h @ CHR '':'' # pad 2 mi @ CHR '':'' # pad 2 s @
       frac_text ns @ zone_text ?off"
    and b: "y < 10000" "1 \<le> mo" "mo \<le> 12" "1 \<le> d" "d \<le> days_in mo (int y)" "d < 100" "h < 24" "mi < 60" "s < 60"
    and secs: "days_of_civil (int y) mo d * 86400 + int (h * 3600 + mi * 60 + s) = local_nanos t div 1000000000"
    using format_fields [OF assms(1,2)] unfolding ns_def by metis
  have ns: "ns < 10 ^ 9" "int ns = local_nanos t mod 1000000000" by (simp_all add: ns_def nat_less_iff)
  have frac: "parse_frac (frac_text ns @ zone_text ?off @ q) = (ns, zone_text ?off @ q)"
    using zone_text_head [of ?off] by (intro parse_frac_text [OF ns(1)]) (auto simp: is_digit_def)
  have nanos: "(local_nanos t div 1000000000 - o') * 1000000000 + local_nanos t mod 1000000000 =
      ti_nanos t + (?off - o') * 1000000000" for o'
    using div_mult_mod_eq [of "local_nanos t" 1000000000] by (simp add: local_nanos_def left_diff_distrib)
  define z where "z = (if ?off = 0 then UTC else Offset (whole_minutes ?off))"
  have zo: "zone_offset z = whole_minutes ?off" by (simp add: z_def whole_minutes_def)
  have "parse_RFC3339 q (q @ format_RFC3339 t @ q) = Inr (go_Date (int y) mo d h mi s ns z)"
    unfolding parse_RFC3339_def f
    using b frac parse_zone_text [OF assms(3), of q, folded z_def] skip_layout_append [of q q "[]"]
    by (simp add: parse_year_pad parse_field_pad)
  also have "go_Date (int y) mo d h mi s ns z = \<lparr>ti_nanos = ti_nanos t + (?off - whole_minutes ?off) * 1000000000, ti_zone = z\<rparr>"
    unfolding go_Date_def secs zo ns(2) nanos ..
  finally show ?thesis unfolding z_def .
qed

text \<open>What printing refuses: a year that has not four digits, or an offset of a day or more.\<close>

lemma append_int_last: "last (append_int w x) = digit (nat \<bar>x\<bar> mod 10)" "append_int w x \<noteq> []"
proof -
  have "last (dec_string n) = digit (n mod 10)" for n by (subst dec_string.simps) simp
  then show "last (append_int w x) = digit (nat \<bar>x\<bar> mod 10)" by (simp add: append_int_def Let_def)
qed (simp add: append_int_def Let_def)

lemma nth_year:
  assumes b: "append_int 4 y @ CHR ''-'' # rest = b"
  shows "b ! 4 = CHR ''-'' \<longleftrightarrow> 0 \<le> y \<and> y \<le> 9999"
proof -
  define s where "s = dec_string (nat \<bar>y\<bar>)"
  define p where "p = replicate (4 - length s) CHR ''0'' @ s"
  have "\<forall>c \<in> set p. c \<noteq> CHR ''-''"
    using dec_string_digits [of "nat \<bar>y\<bar>"] by (auto simp: p_def s_def is_digit_def)
  then have digits: "p ! i \<noteq> CHR ''-''" if "i < length p" for i using that nth_mem by blast
  have b': "b = (if y < 0 then ''-'' else []) @ p @ CHR ''-'' # rest"
    using b by (simp add: append_int_def p_def s_def Let_def split: if_splits)
  have len: "length p = max 4 (length s)" by (simp add: p_def)
  have s4: "nat \<bar>y\<bar> < 10 ^ 4 \<Longrightarrow> length s \<le> 4"
    unfolding s_def by (rule length_dec_string_le) simp_all
  have s5: "10 ^ 4 \<le> nat \<bar>y\<bar> \<Longrightarrow> 5 \<le> length s"
    unfolding s_def using dec_string_split [of 4 "nat \<bar>y\<bar>"] by (cases "dec_string (nat \<bar>y\<bar> div 10 ^ 4)") simp_all
  consider "0 \<le> y" "nat \<bar>y\<bar> < 10 ^ 4" | "y < 0" | "0 \<le> y" "10 ^ 4 \<le> nat \<bar>y\<bar>" by linarith
  then show ?thesis
  proof cases
    case 1
    then have "length p = 4" using s4 len by simp
    then show ?thesis using 1 by (simp add: b' nth_append)
  next
    case 2
    then show ?thesis using digits [of 3] len by (simp add: b' nth_append nth_Cons')
  next
    case 3
    then show ?thesis using digits [of 4] s5 len by (simp add: b' nth_append)
  qed
qed

lemma div_at_least: "24 \<le> x div (3600::int) \<longleftrightarrow> 86400 \<le> x"
  by linarith

lemma digit_not_letter: "d < 10 \<Longrightarrow> \<not> is_digit c \<Longrightarrow> digit d \<noteq> c"
  using is_digit_digit by metis

lemma strict_zone:
  assumes b: "b = pre @ zone_text off"
  shows "last b \<noteq> CHR ''Z'' \<and> (is_digit (b ! (length b - 6)) \<or> 24 \<le> num2 (b ! (length b - 5)) (b ! (length b - 4))) \<longleftrightarrow>
    86400 \<le> \<bar>off\<bar>"
proof -
  consider (utc) "off = 0" | (short) "off \<noteq> 0" "\<bar>off\<bar> < 360000" | (long) "360000 \<le> \<bar>off\<bar>" by linarith
  then show ?thesis
  proof cases
    case utc
    then show ?thesis by (simp add: b zone_text_def)
  next
    case short
    define h m where "h = nat (\<bar>off\<bar> div 60 div 60)" and "m = nat (\<bar>off\<bar> div 60 mod 60)"
    have "\<bar>off\<bar> div 60 div 60 = \<bar>off\<bar> div 3600" by (simp flip: zdiv_zmult2_eq)
    then have i: "int h = \<bar>off\<bar> div 3600" by (simp add: h_def)
    have "\<bar>off\<bar> div 3600 < 100" using short(2) by (simp add: div_at_least)
    then have h: "h < 100" by (simp flip: i)
    have "24 \<le> int h \<longleftrightarrow> 86400 \<le> \<bar>off\<bar>" unfolding i by (rule div_at_least)
    then have le: "24 \<le> h \<longleftrightarrow> 86400 \<le> \<bar>off\<bar>" by simp
    define c where "c = (if off \<le> - 60 then CHR ''-'' else CHR ''+'')"
    have c: "\<not> is_digit c" by (simp add: c_def is_digit_def)
    have z: "zone_text off = c # pad 2 h @ CHR '':'' # pad 2 m"
      unfolding c_def h_def m_def by (rule zone_text_short [OF short])
    have "last b = digit (m mod 10)" "b ! (length b - 6) = c"
      "b ! (length b - 5) = digit (h div 10 mod 10)" "b ! (length b - 4) = digit (h mod 10)"
      unfolding b z by (simp_all add: pad_2 nth_append)
    moreover have "digit (m mod 10) \<noteq> CHR ''Z''" by (rule digit_not_letter) (simp_all add: is_digit_def)
    ultimately show ?thesis
      using c h le by (simp add: num2_def)
  next
    case long
    define h m where "h = nat (\<bar>off\<bar> div 60 div 60)" and "m = nat (\<bar>off\<bar> div 60 mod 60)"
    have "100 \<le> \<bar>off\<bar> div 60 div 60" using long by simp
    then have h: "10 ^ 2 \<le> h" unfolding h_def by simp
    have m: "append_int 2 (\<bar>off\<bar> div 60 mod 60) = pad 2 m"
      unfolding m_def using pos_mod_bound [of 60 "\<bar>off\<bar> div 60"] by (intro append_int_pad) simp_all
    have hh: "append_int 2 (\<bar>off\<bar> div 60 div 60) = dec_string (h div 100) @ pad 2 h"
      using dec_string_split [OF h] h by (simp add: append_int_def Let_def h_def)
    obtain ds d where ds: "dec_string (h div 100) = ds @ [d]" and d: "is_digit d"
      using dec_string_digits [of "h div 100"] by (metis append_butlast_last_id dec_string_nonempty last_in_set)
    define sgn where "sgn = (if off \<le> - 60 then ''-'' else ''+'')"
    have "off \<noteq> 0" using long by auto
    then have z: "zone_text off = sgn @ ds @ d # pad 2 h @ CHR '':'' # pad 2 m"
      unfolding zone_text_def Let_def m hh ds sgn_def by simp
    have "last b = digit (m mod 10)" "b ! (length b - 6) = d"
      unfolding b z by (simp_all add: pad_2 nth_append)
    moreover have "digit (m mod 10) \<noteq> CHR ''Z''" by (rule digit_not_letter) (simp_all add: is_digit_def)
    ultimately show ?thesis
      using d long by auto
  qed
qed

theorem strict_RFC3339_eq:
  "strict_RFC3339 t =
     (if local_year t < 0 \<or> 9999 < local_year t then Inl (Sentinel ''year outside of range [0,9999]'')
      else if 86400 \<le> \<bar>zone_offset (ti_zone t)\<bar> then Inl (Sentinel ''timezone hour outside of range [0,23]'')
      else Inr (format_RFC3339 t))"
proof -
  obtain y m d where c: "civil_of_days (local_nanos t div 1000000000 div 86400) = (y, m, d)" using prod_cases3 by blast
  then have y: "local_year t = y" by (simp add: local_year_def)
  obtain mid where f: "append_int 4 y @ CHR ''-'' # mid @ zone_text (zone_offset (ti_zone t)) = format_RFC3339 t"
    using c by (simp add: format_RFC3339_def Let_def local_nanos_def)
  have "format_RFC3339 t = (append_int 4 y @ CHR ''-'' # mid) @ zone_text (zone_offset (ti_zone t))" using f by simp
  from strict_zone [OF this] nth_year [OF f] show ?thesis
    unfolding strict_RFC3339_def Let_def y by auto
qed

lemma format_nonempty: "format_RFC3339 t \<noteq> []"
  by (simp add: format_RFC3339_def Let_def split: prod.splits)

end
