(* ===== verification/Zero_Logging.thy ===== *)
theory Zero_Logging
  imports Logging Time_Text
begin

text \<open>
  The logger over zerolog (\<open>log/zerlog_logger.go\<close>), the other variant of the logger. The library is the parameter \<open>zerolog_lib\<close>: how it parses
  levels, takes apart the stack of an error and sends an event. An event is its level and what was added to it, in order.
\<close>

section \<open>Setting up\<close>

text \<open>What the code hands to zerolog when it makes a logger: the console's settings, if it writes to the console.\<close>

record console_writer =
  cw_TimeFormat :: string
  cw_PartsOrder :: "string list"
  cw_PartsExclude :: "string list"

record 'l zlogger =
  zg_console :: "console_writer option"
  zg_level :: 'l

datatype zlevel = DebugLevel | InfoLevel | WarnLevel | ErrorLevel | FatalLevel | PanicLevel

datatype 'a zpart = Fields_part "'a list" | Err_part goerr

record 'a zevent =
  ze_level :: zlevel
  ze_parts :: "'a zpart list"
  ze_msg :: string

text \<open>The frames of a stack, outermost last, as maps from names to texts; a missing key is the empty text.\<close>

datatype zstack = No_stack | Frames "(string \<Rightarrow> string) list" | Other_stack

record ('l, 'a, 'w) zerolog_lib =
  zl_ParseLevel :: "string \<Rightarrow> goerr + 'l"
  zl_level_text :: "'l \<Rightarrow> string"
  zl_MarshalStack :: "goerr \<Rightarrow> zstack"
  zl_send :: "'l zlogger \<Rightarrow> 'a zevent \<Rightarrow> 'w \<Rightarrow> 'w \<times> log_end"

section \<open>The stack of an error\<close>

definition stackFramesToSkip :: nat where
  "stackFramesToSkip = 2"

definition frame_text :: "(string \<Rightarrow> string) \<Rightarrow> string" where
  "frame_text f = f ''source'' @ '':'' @ f ''line'' @ '':'' @ f ''func''"

text \<open>The two outermost frames (of the runtime) are left out. A stack of fewer than two frames makes the slice panic.\<close>

definition errorStackMarshaller :: "('l, 'a, 'w) zerolog_lib \<Rightarrow> goerr \<Rightarrow> string option outcome" where
  "errorStackMarshaller Z e = (case zl_MarshalStack Z e of
     No_stack \<Rightarrow> Ret None
   | Other_stack \<Rightarrow> Ret None
   | Frames frames \<Rightarrow>
       (if length frames = stackFramesToSkip then Ret None
        else if length frames < stackFramesToSkip then Panic
        else Ret (Some (join_with ''<<'' (map frame_text (take (length frames - stackFramesToSkip) frames))))))"

section \<open>Building a logger\<close>

definition RFC3339Nano :: string where
  "RFC3339Nano = ''2006-01-02T15:04:05.999999999Z07:00''"

definition buildLogger :: "('l, 'a, 'w) zerolog_lib \<Rightarrow> bool \<Rightarrow> string \<Rightarrow> goerr + 'l zlogger" where
  "buildLogger Z isJSON level =
     (let console = (if isJSON then None else Some \<lparr>cw_TimeFormat = RFC3339Nano,
            cw_PartsOrder = [''level'', ''time'', ''message''], cw_PartsExclude = [''error'', ''stack'', ''caller'']\<rparr>) in
      (case zl_ParseLevel Z level of
         Inl e \<Rightarrow> Inl (Wrapped ''invalid logger level'' e)
       | Inr l \<Rightarrow> Inr \<lparr>zg_console = console, zg_level = l\<rparr>))"

text \<open>What the package sets in the library: times are printed in UTC with nanoseconds, and the stack of an error by the function above.\<close>

record zsettings =
  zs_sampling_disabled :: bool
  zs_ErrorStackMarshaler :: "goerr \<Rightarrow> string option outcome"
  zs_TimeFieldFormat :: string
  zs_DurationFieldUnit :: int
  zs_TimestampFunc :: "go_time \<Rightarrow> go_time"

definition zero_settings :: "('l, 'a, 'w) zerolog_lib \<Rightarrow> zsettings" where
  "zero_settings Z = \<lparr>zs_sampling_disabled = True, zs_ErrorStackMarshaler = errorStackMarshaller Z,
     zs_TimeFieldFormat = RFC3339Nano, zs_DurationFieldUnit = 1, zs_TimestampFunc = utc\<rparr>"

text \<open>A logger that cannot be built panics.\<close>

definition setupLogger :: "('l, 'a, 'w) zerolog_lib \<Rightarrow> bool \<Rightarrow> string \<Rightarrow> (zsettings \<times> 'l zlogger) outcome" where
  "setupLogger Z isJSON level = (case buildLogger Z isJSON level of Inl e \<Rightarrow> Panic | Inr l \<Rightarrow> Ret (zero_settings Z, l))"

text \<open>The standard library's logger prints no flags and writes to a logger of its own.\<close>

definition setupStdLibLogger :: "('l, 'a, 'w) zerolog_lib \<Rightarrow> bool \<Rightarrow> string \<Rightarrow> (nat \<times> 'l zlogger) outcome" where
  "setupStdLibLogger Z isJSON level = (case buildLogger Z isJSON level of Inl e \<Rightarrow> Panic | Inr l \<Rightarrow> Ret (0, l))"

definition zero_init ::
  "('l, 'a, 'w) zerolog_lib \<Rightarrow> string \<Rightarrow> string \<Rightarrow> ((zsettings \<times> 'l zlogger) \<times> (nat \<times> 'l zlogger)) outcome" where
  "zero_init Z encoder level =
     (let isJSON = equal_fold encoder ''json'' in
      obind (setupLogger Z isJSON level) (\<lambda>l. obind (setupStdLibLogger Z isJSON level) (\<lambda>s. Ret (l, s))))"

section \<open>Logging\<close>

definition new_event :: "zlevel \<Rightarrow> 'a zevent" where
  "new_event l = \<lparr>ze_level = l, ze_parts = [], ze_msg = ''''\<rparr>"

definition add_part :: "'a zpart \<Rightarrow> 'a zevent \<Rightarrow> 'a zevent" where
  "add_part p e = e\<lparr>ze_parts := ze_parts e @ [p]\<rparr>"

definition add_fields :: "'a list \<Rightarrow> 'a zevent \<Rightarrow> 'a zevent" where
  "add_fields xs e = (if 0 < length xs then add_part (Fields_part xs) e else e)"

definition zero_Error :: "('l, 'a, 'w) zerolog_lib \<Rightarrow> 'l zlogger \<Rightarrow> err \<Rightarrow> 'a list \<Rightarrow> 'w \<Rightarrow> 'w \<times> log_end" where
  "zero_Error Z g e xs w = (case e of
     None \<Rightarrow> (w, Returns)
   | Some x \<Rightarrow> zl_send Z g (add_fields xs (add_part (Err_part x) (new_event ErrorLevel))) w)"

definition zero_message ::
  "zlevel \<Rightarrow> ('l, 'a, 'w) zerolog_lib \<Rightarrow> 'l zlogger \<Rightarrow> string \<Rightarrow> 'a list \<Rightarrow> 'w \<Rightarrow> 'w \<times> log_end" where
  "zero_message l Z g msg xs w = zl_send Z g ((add_fields xs (new_event l))\<lparr>ze_msg := msg\<rparr>) w"

definition zero_Debug :: "('l, 'a, 'w) zerolog_lib \<Rightarrow> 'l zlogger \<Rightarrow> string \<Rightarrow> 'a list \<Rightarrow> 'w \<Rightarrow> 'w \<times> log_end" where
  "zero_Debug = zero_message DebugLevel"

definition zero_Info :: "('l, 'a, 'w) zerolog_lib \<Rightarrow> 'l zlogger \<Rightarrow> string \<Rightarrow> 'a list \<Rightarrow> 'w \<Rightarrow> 'w \<times> log_end" where
  "zero_Info = zero_message InfoLevel"

definition zero_Warn :: "('l, 'a, 'w) zerolog_lib \<Rightarrow> 'l zlogger \<Rightarrow> string \<Rightarrow> 'a list \<Rightarrow> 'w \<Rightarrow> 'w \<times> log_end" where
  "zero_Warn = zero_message WarnLevel"

text \<open>The fields are added before the error.\<close>

definition zero_Fatal :: "('l, 'a, 'w) zerolog_lib \<Rightarrow> 'l zlogger \<Rightarrow> 'b any_value \<Rightarrow> 'a list \<Rightarrow> 'w \<Rightarrow> 'w \<times> log_end" where
  "zero_Fatal Z g v xs w =
     (let e = add_fields xs (new_event FatalLevel) in
      (case v of
         NilValue \<Rightarrow> (w, Returns)
       | ErrorValue x \<Rightarrow> zl_send Z g (add_part (Err_part x) e) w
       | StringValue s \<Rightarrow> zl_send Z g (e\<lparr>ze_msg := s\<rparr>) w
       | OtherValue s \<Rightarrow> zl_send Z g e w))"

definition zero_Panic :: "('l, 'a, 'w) zerolog_lib \<Rightarrow> 'l zlogger \<Rightarrow> 'b any_value \<Rightarrow> 'a list \<Rightarrow> 'w \<Rightarrow> 'w \<times> log_end" where
  "zero_Panic Z g v xs w =
     (let e = add_fields xs (new_event PanicLevel) in
      (case v of
         NilValue \<Rightarrow> (w, Returns)
       | ErrorValue x \<Rightarrow> zl_send Z g (add_part (Err_part x) e) w
       | StringValue s \<Rightarrow> zl_send Z g (add_part (Err_part (Sentinel s)) e) w
       | OtherValue s \<Rightarrow> zl_send Z g (add_part (Err_part (Sentinel s)) e) w))"

definition zero_Level :: "('l, 'a, 'w) zerolog_lib \<Rightarrow> 'l zlogger \<Rightarrow> string" where
  "zero_Level Z g = zl_level_text Z (zg_level g)"

section \<open>Properties\<close>

text \<open>zerolog ends the program after an event of the levels fatal and panic, whether or not the logger's level lets it be written.\<close>

definition zerolog_ok :: "('l, 'a, 'w) zerolog_lib \<Rightarrow> bool" where
  "zerolog_ok Z \<longleftrightarrow> (\<forall>g e w. snd (zl_send Z g e w) = (case ze_level e of FatalLevel \<Rightarrow> Exits | PanicLevel \<Rightarrow> Panics | _ \<Rightarrow> Returns))"

lemma event_level [simp]:
  "ze_level (new_event l) = l" "ze_level (add_part p e) = ze_level e" "ze_level (add_fields xs e) = ze_level e"
  by (simp_all add: new_event_def add_part_def add_fields_def)

text \<open>
  The two variants of the logger end the program in the same cases: on anything but nil, \<open>Panic\<close> panics and \<open>Fatal\<close> exits; nothing else ends it.
  They differ in the message of a fatal value that is neither an error nor a text: zerolog's variant leaves it out.
\<close>

theorem loggers_end_alike:
  assumes "zerolog_ok Z"
  shows "snd (zero_Panic Z g v xs w) = snd (log_Panic v values)"
    and "snd (zero_Fatal Z g v xs w) = snd (log_Fatal v values)"
    and "snd (zero_Error Z g e xs w) = Returns" "snd (zero_Debug Z g msg xs w) = Returns"
    and "snd (zero_Info Z g msg xs w) = Returns" "snd (zero_Warn Z g msg xs w) = Returns"
    and "zero_Fatal Z g (OtherValue s) xs w = zl_send Z g (add_fields xs (new_event FatalLevel)) w"
  using assms
  by (cases v; simp add: zerolog_ok_def zero_Panic_def log_Panic_def zero_Fatal_def log_Fatal_def zero_Error_def
      zero_Debug_def zero_Info_def zero_Warn_def zero_message_def split: option.split)+

text \<open>The program starts exactly if the level of its configuration is one that zerolog knows, and then both loggers have that level.\<close>

lemma zero_init_ok:
  "zl_ParseLevel Z level = Inr l \<Longrightarrow>
     \<exists>s g n. zero_init Z encoder level = Ret ((s, g), (n, g)) \<and> zg_level g = l \<and> (zg_console g = None \<longleftrightarrow> equal_fold encoder ''json'')"
  "zl_ParseLevel Z level = Inl e \<Longrightarrow> zero_init Z encoder level = Panic"
  by (simp_all add: zero_init_def setupLogger_def setupStdLibLogger_def buildLogger_def Let_def)

text \<open>The stack of an error names all its frames but the last two.\<close>

lemma stack_of_error:
  "zl_MarshalStack Z e = Frames (fs @ [r1, r2]) \<Longrightarrow> fs \<noteq> [] \<Longrightarrow>
     errorStackMarshaller Z e = Ret (Some (join_with ''<<'' (map frame_text fs)))"
  by (simp add: errorStackMarshaller_def stackFramesToSkip_def)

lemma short_stack_panics:
  "zl_MarshalStack Z e = Frames fs \<Longrightarrow> errorStackMarshaller Z e = Panic \<longleftrightarrow> length fs < 2"
  by (auto simp: errorStackMarshaller_def stackFramesToSkip_def)

end
