(* ===== verification/Config.thy ===== *)
theory Config
  imports Go_Errors
begin

text \<open>
  The configuration (\<open>config/config.go\<close>): where the file \<open>application.yaml\<close> is looked for, which of the files found is loaded, and the file of
  environment variables. The file system, viper and godotenv are the parameter \<open>config_env\<close>; Go's lexical functions on paths are modelled for Unix.
\<close>

section \<open>Paths\<close>

text \<open>\<open>filepath.Clean\<close>: the elements are kept on a stack, which two dots pop.\<close>

fun clean_elem :: "bool \<Rightarrow> string list \<Rightarrow> string \<Rightarrow> string list" where
  "clean_elem rooted st e =
     (if e = '''' \<or> e = ''.'' then st
      else if e = ''..'' then
        (case st of
           [] \<Rightarrow> if rooted then [] else [''..'']
         | x # st' \<Rightarrow> if x = ''..'' then ''..'' # st else st')
      else e # st)"

definition filepath_Clean :: "string \<Rightarrow> string" where
  "filepath_Clean p =
     (if p = '''' then ''.''
      else let rooted = (hd p = CHR ''/'');
               body = join_with ''/'' (rev (foldl (clean_elem rooted) [] (split_str p ''/''))) in
        if rooted then CHR ''/'' # body else if body = '''' then ''.'' else body)"

fun filepath_Join :: "string list \<Rightarrow> string" where
  "filepath_Join [] = ''''"
| "filepath_Join (e # es) = (if e = '''' then filepath_Join es else filepath_Clean (join_with ''/'' (e # es)))"

text \<open>\<open>filepath.Dir\<close> and \<open>path.Dir\<close>: what comes before the last slash, the slash included, cleaned.\<close>

definition filepath_Dir :: "string \<Rightarrow> string" where
  "filepath_Dir p = filepath_Clean (rev (dropWhile (\<lambda>c. c \<noteq> CHR ''/'') (rev p)))"

section \<open>Finding and loading\<close>

text \<open>\<open>Read\<close> is \<open>SetConfigFile\<close> and \<open>ReadInConfig\<close>.\<close>

record config_env =
  ce_Getwd :: "goerr + string"
  ce_Executable :: "goerr + string"
  ce_Caller :: string
  ce_Glob :: "string \<Rightarrow> goerr + string list"
  ce_Read :: "string \<Rightarrow> err"
  ce_godotenv :: "string \<Rightarrow> err"

text \<open>\<open>os.ErrNotExist\<close>, which the error of a missing file is by \<open>errors.Is\<close>.\<close>

definition os_ErrNotExist :: goerr where
  "os_ErrNotExist = Sentinel ''file does not exist''"

definition glob_files :: "config_env \<Rightarrow> string \<Rightarrow> string list" where
  "glob_files C pattern = (case ce_Glob C pattern of Inl e \<Rightarrow> [] | Inr fs \<Rightarrow> fs)"

definition relativeFiles :: "config_env \<Rightarrow> string list" where
  "relativeFiles C =
     glob_files C (filepath_Join [filepath_Dir (ce_Caller C), ''..'', ''application.yaml'']) @
     glob_files C (filepath_Join [filepath_Dir (ce_Caller C), ''..'', ''..'', ''application.yaml''])"

definition config_hints :: "config_env \<Rightarrow> string list" where
  "config_hints C =
     (case ce_Getwd C of Inl e \<Rightarrow> [] | Inr p \<Rightarrow> [p]) @
     (case ce_Executable C of Inl e \<Rightarrow> [] | Inr p \<Rightarrow> [filepath_Dir (filepath_Join [p, ''..''])])"

definition findAllApplicationConfigFiles :: "config_env \<Rightarrow> string list" where
  "findAllApplicationConfigFiles C =
     concat (map (\<lambda>dir. glob_files C (filepath_Join [dir, ''.testdata'', ''application.yaml'']) @
       glob_files C (filepath_Join [dir, ''application.yaml''])) (config_hints C)) @ relativeFiles C"

text \<open>The first file that can be read is loaded; one that has vanished is passed over, any other error panics.\<close>

fun load_first :: "config_env \<Rightarrow> string list \<Rightarrow> string outcome" where
  "load_first C [] = Panic"
| "load_first C (f # fs) = (case ce_Read C f of
     None \<Rightarrow> Ret f
   | Some e \<Rightarrow> if errors_is e os_ErrNotExist then load_first C fs else Panic)"

definition loadFirstApplicationConfigFile :: "config_env \<Rightarrow> string outcome" where
  "loadFirstApplicationConfigFile C = load_first C (findAllApplicationConfigFiles C)"

fun load_dotenv :: "nat \<Rightarrow> config_env \<Rightarrow> string \<Rightarrow> string option" where
  "load_dotenv 0 C p = None"
| "load_dotenv (Suc n) C p = (if ce_godotenv C p = None then Some p else load_dotenv n C (''../'' @ p))"

text \<open>\<open>init\<close>: the configuration file that was loaded, and the file of environment variables, if there is one.\<close>

definition config_init :: "config_env \<Rightarrow> (string \<times> string option) outcome" where
  "config_init C = obind (loadFirstApplicationConfigFile C) (\<lambda>f. Ret (f, load_dotenv 5 C ''.env''))"

definition MustLoadFromKey :: "(string \<Rightarrow> 'c \<Rightarrow> err \<times> 'c) \<Rightarrow> string \<Rightarrow> 'c \<Rightarrow> 'c outcome" where
  "MustLoadFromKey UnmarshalKey key cfg = (case UnmarshalKey key cfg of (None, c) \<Rightarrow> Ret c | (Some e, c) \<Rightarrow> Panic)"

section \<open>Paths as their elements\<close>

definition path_of :: "string list \<Rightarrow> string" where
  "path_of es = CHR ''/'' # join_with ''/'' es"

definition plain_elem :: "string \<Rightarrow> bool" where
  "plain_elem e \<longleftrightarrow> CHR ''/'' \<notin> set e \<and> e \<notin> {'''', ''.'', ''..''}"

lemma split_slash_simps:
  "split_seq ''/'' acc [] = [rev acc]"
  "split_seq ''/'' acc (CHR ''/'' # s) = rev acc # split_seq ''/'' [] s"
  "c \<noteq> CHR ''/'' \<Longrightarrow> split_seq ''/'' acc (c # s) = split_seq ''/'' (c # acc) s"
  "CHR ''/'' \<noteq> c \<Longrightarrow> split_seq ''/'' acc (c # s) = split_seq ''/'' (c # acc) s"
  by (subst split_seq.simps; simp)+

lemma split_slash_append: "split_seq ''/'' acc (s @ CHR ''/'' # t) = split_seq ''/'' acc s @ split_seq ''/'' [] t"
proof (induction s arbitrary: acc)
  case Nil
  then show ?case by (simp add: split_slash_simps)
next
  case (Cons c s)
  then show ?case by (cases "c = CHR ''/''") (simp_all add: split_slash_simps)
qed

lemma split_slash_plain: "CHR ''/'' \<notin> set s \<Longrightarrow> split_seq ''/'' acc s = [rev acc @ s]"
  by (induction s arbitrary: acc) (auto simp: split_slash_simps)

lemma split_join_slash:
  "es \<noteq> [] \<Longrightarrow> \<forall>e \<in> set es. CHR ''/'' \<notin> set e \<Longrightarrow> split_seq ''/'' [] (join_with ''/'' es) = es"
  by (induction "''/''" es rule: join_with.induct) (simp_all add: split_slash_plain split_slash_append)

lemma split_path_of:
  assumes "list_all plain_elem es"
  shows "split_str (path_of es) ''/'' = '''' # (if es = [] then [''''] else es)"
  using assms split_join_slash [of es]
  by (cases "es = []") (auto simp: split_str_def path_of_def split_slash_simps plain_elem_def list_all_iff)

lemma clean_elem_plain [simp]: "plain_elem e \<Longrightarrow> clean_elem r st e = e # st"
  by (simp add: plain_elem_def)

lemma clean_elem_dots [simp]: "plain_elem e \<Longrightarrow> clean_elem r (e # st) ''..'' = st"
  by (simp add: plain_elem_def)

lemma clean_elem_empty [simp]: "clean_elem r st '''' = st"
  by simp

declare clean_elem.simps [simp del] filepath_Join.simps [simp del]

lemma clean_plain: "list_all plain_elem es \<Longrightarrow> foldl (clean_elem r) st es = rev es @ st"
  by (induction es arbitrary: st) simp_all

lemma clean_path_of: "list_all plain_elem es \<Longrightarrow> foldl (clean_elem True) [] (split_str (path_of es) ''/'') = rev es"
  by (simp add: split_path_of clean_plain)

lemma Clean_rooted:
  "filepath_Clean (CHR ''/'' # s) = path_of (rev (foldl (clean_elem True) [] (split_str (CHR ''/'' # s) ''/'')))"
  by (simp add: filepath_Clean_def path_of_def)

text \<open>Joining elements to a path, and the directory of a path.\<close>

lemma Join_path:
  assumes "list_all plain_elem es"
  shows "filepath_Join (path_of es # fs) = path_of (rev (foldl (clean_elem True) (rev es) (concat (map (\<lambda>f. split_str f ''/'') fs))))"
proof -
  have split: "split_str (join_with ''/'' (s # gs)) ''/'' = split_str s ''/'' @ concat (map (\<lambda>f. split_str f ''/'') gs)" for s gs
    by (induction gs arbitrary: s) (simp_all add: split_str_def split_slash_append)
  obtain s where s: "join_with ''/'' (path_of es # fs) = CHR ''/'' # s"
    by (cases fs) (simp_all add: path_of_def)
  have "filepath_Join (path_of es # fs) = filepath_Clean (join_with ''/'' (path_of es # fs))"
    by (simp add: path_of_def filepath_Join.simps)
  also have "\<dots> = path_of (rev (foldl (clean_elem True) [] (split_str (join_with ''/'' (path_of es # fs)) ''/'')))"
    unfolding s by (rule Clean_rooted)
  finally show ?thesis
    by (simp only: split foldl_append clean_path_of [OF assms])
qed

lemma split_plain [simp]: "plain_elem e \<Longrightarrow> split_str e ''/'' = [e]"
  by (simp add: split_str_def split_slash_plain plain_elem_def)

lemma split_dots [simp]: "split_str ''..'' ''/'' = [''..'']"
  by (simp add: split_str_def split_slash_plain)

lemma Dir_path:
  assumes "list_all plain_elem (es @ [e])"
  shows "filepath_Dir (path_of (es @ [e])) = path_of es"
proof -
  have e: "CHR ''/'' \<notin> set e" and es: "list_all plain_elem es" using assms by (simp_all add: plain_elem_def)
  have snoc: "path_of (es @ [e]) = (if es = [] then ''/'' else path_of es @ ''/'') @ e"
  proof -
    have "es \<noteq> [] \<Longrightarrow> join_with ''/'' (es @ [e]) = join_with ''/'' es @ CHR ''/'' # e"
      by (induction "''/''" es rule: join_with.induct) simp_all
    then show ?thesis by (simp add: path_of_def)
  qed
  have drop: "rev (dropWhile (\<lambda>c. c \<noteq> CHR ''/'') (rev (p @ CHR ''/'' # e))) = p @ ''/''" for p
    using e by (simp add: dropWhile_append)
  have "filepath_Dir (path_of (es @ [e])) = filepath_Clean (if es = [] then ''/'' else path_of es @ ''/'')"
    using drop [of "[]"] drop [of "path_of es"] unfolding filepath_Dir_def snoc by simp
  also have "\<dots> = path_of es"
  proof (cases "es = []")
    case True
    then show ?thesis by (simp add: filepath_Clean_def path_of_def split_str_def split_slash_simps)
  next
    case False
    have "split_str (path_of es @ ''/'') ''/'' = split_str (path_of es) ''/'' @ ['''']"
      by (simp add: split_str_def split_slash_append split_slash_simps)
    then have "foldl (clean_elem True) [] (split_str (path_of es @ ''/'') ''/'') = rev es"
      by (simp add: clean_path_of [OF es])
    then show ?thesis
      using False Clean_rooted [of "join_with ''/'' es @ ''/''"] by (simp add: path_of_def)
  qed
  finally show ?thesis .
qed

section \<open>Which file is loaded\<close>

lemma load_first_find:
  "(\<And>f. f \<in> set fs \<Longrightarrow> ce_Read C f = None) \<Longrightarrow> load_first C fs = (case fs of [] \<Rightarrow> Panic | f # _ \<Rightarrow> Ret f)"
  by (cases fs) simp_all

text \<open>
  C19. In a program started from \<open>/ws\<close> whose executable is \<open>/xs/x/b\<close> and which was built with this package in \<open>/rs/r/c\<close>, the configuration that is
  loaded is the first that exists of: \<open>application.yaml\<close> in the directory \<open>.testdata\<close> of \<open>/ws\<close>, in \<open>/ws\<close>, then the same two of \<open>/xs\<close>, which is the
  parent of the directory the executable is in, and last in \<open>/rs/r\<close> and in \<open>/rs\<close>. If there is none, the program panics when it starts.
\<close>

theorem config_file_choice:
  assumes "list_all plain_elem ws" and "list_all plain_elem (xs @ [x, b])" and "list_all plain_elem (rs @ [r, c, f])"
    and "ce_Getwd C = Inr (path_of ws)" and "ce_Executable C = Inr (path_of (xs @ [x, b]))" and "ce_Caller C = path_of (rs @ [r, c, f])"
    and glob: "\<And>p. ce_Glob C p = Inr (if ex p then [p] else [])" and readable: "\<And>p. ex p \<Longrightarrow> ce_Read C p = None"
  shows "loadFirstApplicationConfigFile C =
    (case find ex (map (\<lambda>es. path_of (es @ [''application.yaml''])) [ws @ [''.testdata''], ws, xs @ [''.testdata''], xs, rs @ [r], rs]) of
       None \<Rightarrow> Panic | Some f \<Rightarrow> Ret f)"
proof -
  have plain: "plain_elem ''application.yaml''" "plain_elem ''.testdata''"
    by (simp_all add: plain_elem_def)
  have hint: "filepath_Dir (filepath_Join [path_of (xs @ [x, b]), ''..'']) = path_of xs"
    using assms(2) Dir_path [of xs x] by (simp add: Join_path)
  have caller: "filepath_Dir (ce_Caller C) = path_of ((rs @ [r]) @ [c])"
    using assms(3,6) Dir_path [of "rs @ [r, c]" f] by simp
  have in_dir: "filepath_Join [path_of es, ''application.yaml''] = path_of (es @ [''application.yaml''])"
    "filepath_Join [path_of es, ''.testdata'', ''application.yaml''] = path_of ((es @ [''.testdata'']) @ [''application.yaml''])"
    if "list_all plain_elem es" for es
    using that plain by (simp_all add: Join_path clean_plain)
  have up: "filepath_Join [path_of ((rs @ [r]) @ [c]), ''..'', ''application.yaml''] = path_of ((rs @ [r]) @ [''application.yaml''])"
    "filepath_Join [path_of ((rs @ [r]) @ [c]), ''..'', ''..'', ''application.yaml''] = path_of (rs @ [''application.yaml''])"
    using assms(3) plain by (simp_all add: Join_path)
  let ?ps = "map (\<lambda>es. path_of (es @ [''application.yaml''])) [ws @ [''.testdata''], ws, xs @ [''.testdata''], xs, rs @ [r], rs]"
  have "findAllApplicationConfigFiles C = filter ex ?ps"
    using assms(1-5) in_dir [of ws] in_dir [of xs] up
    by (simp add: findAllApplicationConfigFiles_def config_hints_def relativeFiles_def glob_files_def glob hint caller)
  moreover have "load_first C (filter ex ps) = (case find ex ps of None \<Rightarrow> Panic | Some f \<Rightarrow> Ret f)" for ps
    using readable by (induction ps) simp_all
  ultimately show ?thesis
    unfolding loadFirstApplicationConfigFile_def by (simp only:)
qed

definition sample_config_env :: config_env where
  "sample_config_env = \<lparr>ce_Getwd = Inr (path_of [''srv'']), ce_Executable = Inr (path_of [''app'', ''bin'', ''svc'']),
     ce_Caller = path_of [''src'', ''wintr'', ''config'', ''config.go''],
     ce_Glob = \<lambda>p. Inr (if p = path_of [''app'', ''application.yaml''] then [p] else []), ce_Read = \<lambda>p. None, ce_godotenv = \<lambda>p. None\<rparr>"

theorem config_file_choice_witness:
  "loadFirstApplicationConfigFile sample_config_env = Ret ''/app/application.yaml''"
  using config_file_choice [of "[''srv'']" "[''app'']" "''bin''" "''svc''" "[''src'']" "''wintr''" "''config''" "''config.go''"
      sample_config_env "\<lambda>p. p = path_of [''app'', ''application.yaml'']"]
  by (simp add: sample_config_env_def plain_elem_def path_of_def)

end
