(* ===== verification/Go_Time.thy ===== *)
theory Go_Time
  imports Time_Text "HOL-Library.Word"
begin

text \<open>
  The time type (\<open>time/time.go\<close>): how a time is written to and read from MessagePack, SQL, JSON and text. Go's own times and their textual
  forms are those of \<open>Time_Text\<close>.
\<close>

section \<open>Times\<close>

text \<open>\<open>UnixNano\<close> has 64 bits; \<open>Unix\<close> and \<open>UnixMilli\<close> make an instant, here shown in UTC.\<close>

definition UnixNano :: "go_time \<Rightarrow> int" where
  "UnixNano t = sint (word_of_int (ti_nanos t) :: 64 word)"

definition at_nanos :: "int \<Rightarrow> go_time" where
  "at_nanos n = \<lparr>ti_nanos = n, ti_zone = UTC\<rparr>"

definition at_millis :: "int \<Rightarrow> go_time" where
  "at_millis n = \<lparr>ti_nanos = n * 1000000, ti_zone = UTC\<rparr>"

text \<open>A \<open>*Time\<close>: nil, or a struct that holds a pointer to a time.\<close>

type_synonym time_ptr = "go_time option option"

definition Now :: "go_time \<Rightarrow> time_ptr" where
  "Now clock = Some (Some (utc clock))"

definition New_time :: "go_time \<Rightarrow> time_ptr" where
  "New_time t = Some (Some t)"

definition IsNil :: "time_ptr \<Rightarrow> bool" where
  "IsNil t \<longleftrightarrow> t = None \<or> t = Some None"

definition inner :: "time_ptr \<Rightarrow> go_time option" where
  "inner t = (case t of None \<Rightarrow> None | Some x \<Rightarrow> x)"

section \<open>MessagePack and SQL\<close>

text \<open>A time that is not there is written as zero.\<close>

definition time_EncodeMsgpack :: "time_ptr \<Rightarrow> 64 word" where
  "time_EncodeMsgpack t = (case inner t of
     None \<Rightarrow> 0
   | Some x \<Rightarrow> if ti_zone x \<noteq> UTC then word_of_int (UnixNano (utc x)) else word_of_int (UnixNano x))"

definition time_DecodeMsgpack :: "goerr + 64 word \<Rightarrow> go_time option \<Rightarrow> err \<times> go_time option" where
  "time_DecodeMsgpack d t = (case d of
     Inl e \<Rightarrow> (Some (Wrapped ''failed to Time.DecodeMsgpack.DecodeBytes'' e), t)
   | Inr n \<Rightarrow> (None, Some (at_nanos (sint n))))"

text \<open>\<open>src\<close> is a time or, printed, anything else.\<close>

definition time_Scan :: "string + go_time \<Rightarrow> go_time option \<Rightarrow> err \<times> go_time option" where
  "time_Scan src t = (case src of
     Inr x \<Rightarrow> (None, Some (utc x))
   | Inl s \<Rightarrow> (Some (Sentinel (''unexpected type for src:'' @ s)), t))"

section \<open>Text\<close>

text \<open>The result \<open>Inr None\<close> is a nil slice. \<open>MarshalBinary\<close> is the same function.\<close>

definition time_MarshalText :: "time_ptr \<Rightarrow> goerr + string option" where
  "time_MarshalText t = (case inner t of
     None \<Rightarrow> Inr None
   | Some x \<Rightarrow> if UnixNano x = 0 then Inr None else (case go_MarshalText x of Inl e \<Rightarrow> Inl e | Inr s \<Rightarrow> Inr (Some s)))"

definition time_UnmarshalText :: "string \<Rightarrow> go_time option \<Rightarrow> err \<times> go_time option" where
  "time_UnmarshalText s t =
     (if s = '''' then (None, t)
      else (case go_UnmarshalText s of Inl e \<Rightarrow> (Some e, Some zero_time) | Inr x \<Rightarrow> (None, Some x)))"

definition time_String :: "time_ptr \<Rightarrow> string" where
  "time_String t = (case inner t of
     None \<Rightarrow> ''''
   | Some x \<Rightarrow> (case go_MarshalText x of Inl e \<Rightarrow> ''<nil>'' | Inr s \<Rightarrow> if s = '''' then ''<nil>'' else s))"

text \<open>The time is changed to UTC in place.\<close>

definition time_MarshalJSON :: "time_ptr \<Rightarrow> (goerr + string) \<times> time_ptr" where
  "time_MarshalJSON t = (case inner t of
     None \<Rightarrow> (Inr ''null'', t)
   | Some x \<Rightarrow>
       (if UnixNano x = 0 then (Inr ''null'', t)
        else (let y = (if ti_zone x \<noteq> UTC then utc x else x) in (go_MarshalJSON y, Some (Some y)))))"

text \<open>A text of digits alone is a number: of milliseconds if it has thirteen digits, else of nanoseconds. A number that does not fit into 64
  bits makes \<open>Atoi\<close> fail, and the program panics.\<close>

definition unmarshallUint64 :: "string \<Rightarrow> go_time option \<Rightarrow> go_time option outcome" where
  "unmarshallUint64 s t =
     (if list_ex (\<lambda>c. \<not> is_digit c) s then Ret t
      else if s = '''' then Ret t
      else if 2 ^ 63 \<le> dec_val s then Panic
      else Ret (Some (if length s = 13 then at_millis (int (dec_val s)) else at_nanos (int (dec_val s)))))"

definition unmarshallString :: "string \<Rightarrow> go_time option \<Rightarrow> err \<times> go_time option" where
  "unmarshallString s t =
     (if s = ''null'' \<or> s = [CHR 0x22, CHR 0x22] \<or> s = '''' then (None, t)
      else (case go_ParseJSON s of
          Inl e \<Rightarrow> (Some (Wrapped (''invalid time format: '' @ s) e), t)
        | Inr x \<Rightarrow> (None, Some (utc x))))"

definition time_UnmarshalJSON :: "string \<Rightarrow> go_time option \<Rightarrow> (err \<times> go_time option) outcome" where
  "time_UnmarshalJSON s t = obind (unmarshallUint64 s t) (\<lambda>t1.
     if t1 \<noteq> None then Ret (None, t1) else Ret (unmarshallString s t1))"

section \<open>Properties\<close>

lemma at_nanos_nanos: "ti_nanos (at_nanos n) = n" "ti_zone (at_nanos n) = UTC"
  by (simp_all add: at_nanos_def)

lemma sint_word_of_int:
  "- (2 ^ 63) \<le> n \<Longrightarrow> n < 2 ^ 63 \<Longrightarrow> sint (word_of_int n :: 64 word) = n"
  by (simp add: sint_sbintrunc' signed_take_bit_int_eq_self)

text \<open>MessagePack: a time is read back as the same instant, in UTC, when its nanoseconds fit into 64 bits; none is read as 1970.\<close>

theorem time_msgpack_roundtrip:
  assumes "- (2 ^ 63) \<le> ti_nanos x" and "ti_nanos x < 2 ^ 63"
  shows "time_DecodeMsgpack (Inr (time_EncodeMsgpack (Some (Some x)))) t = (None, Some (utc x))"
    and "time_DecodeMsgpack (Inr (time_EncodeMsgpack None)) t = (None, Some (at_nanos 0))"
  using sint_word_of_int [OF assms]
  by (simp_all add: time_DecodeMsgpack_def time_EncodeMsgpack_def inner_def UnixNano_def utc_def at_nanos_def)

text \<open>
  C27. Numbers in JSON, as printed in decimal: one of thirteen digits is read as milliseconds, any other below two to the 63 as nanoseconds, whatever the time
  was before; a larger one panics. But a time that is set already ignores every text that is not a number, the null included:
  \<open>UnmarshalJSON\<close> takes the old value for the result of reading a number.
\<close>

theorem time_from_json:
  "time_UnmarshalJSON (dec_string n) t =
     (if 2 ^ 63 \<le> n then Panic
      else Ret (None, Some (if length (dec_string n) = 13 then at_millis (int n) else at_nanos (int n)))) \<and>
   (\<forall>s x. list_ex (\<lambda>c. \<not> is_digit c) s \<longrightarrow> time_UnmarshalJSON s (Some x) = Ret (None, Some x)) \<and>
   (\<forall>s x. list_ex (\<lambda>c. \<not> is_digit c) s \<and> s \<notin> {''null'', [CHR 0x22, CHR 0x22]} \<and> go_ParseJSON s = Inr x \<longrightarrow>
      time_UnmarshalJSON s None = Ret (None, Some (utc x)))"
proof -
  have digits: "\<not> list_ex (\<lambda>c. \<not> is_digit c) (dec_string n)"
    using dec_string_digits [of n] by (auto simp: list_ex_iff)
  have "time_UnmarshalJSON (dec_string n) t =
     (if 2 ^ 63 \<le> n then Panic
      else Ret (None, Some (if length (dec_string n) = 13 then at_millis (int n) else at_nanos (int n))))"
    by (simp add: time_UnmarshalJSON_def unmarshallUint64_def digits)
  then show ?thesis
    by (auto simp: time_UnmarshalJSON_def unmarshallUint64_def unmarshallString_def)
qed

theorem time_from_json_witness:
  "time_UnmarshalJSON ''null'' (Some (at_nanos 7)) = Ret (None, Some (at_nanos 7)) \<and>
   time_UnmarshalJSON ([quote_char] @ ''2006-01-02T15:04:05.5+01:00'' @ [quote_char]) None = Ret (None, Some (at_nanos 1136210645500000000))"
proof -
  have p: "go_ParseJSON ([quote_char] @ ''2006-01-02T15:04:05.5+01:00'' @ [quote_char]) =
    Inr \<lparr>ti_nanos = 1136210645500000000, ti_zone = Offset 3600\<rparr>"
    by (simp add: go_ParseJSON_def parse_RFC3339_def parse_year_def quote_char_def is_digit_def dec_val_def digit_val_def parse_field_def
        parse_frac_def parse_zone_def days_in_def month_lengths_def go_Date_def days_of_civil_def days_to_year_def epoch_days_def leap_year_def)
  have q: "list_ex (\<lambda>c. \<not> is_digit c) ([quote_char] @ ''2006-01-02T15:04:05.5+01:00'' @ [quote_char])"
    "list_ex (\<lambda>c. \<not> is_digit c) ''null''"
    "[quote_char] @ ''2006-01-02T15:04:05.5+01:00'' @ [quote_char] \<notin> {''null'', [CHR 0x22, CHR 0x22]}"
    by (simp_all add: is_digit_def quote_char_def)
  have u: "utc \<lparr>ti_nanos = 1136210645500000000, ti_zone = Offset 3600\<rparr> = at_nanos 1136210645500000000"
    by (simp add: utc_def at_nanos_def)
  show ?thesis
    using time_from_json [of 0 None] p q u by metis
qed

text \<open>The instants that count as none: 1970, and every 584 years from it, since \<open>UnixNano\<close> has 64 bits.\<close>

lemma UnixNano_0: "UnixNano x = 0 \<longleftrightarrow> 2 ^ 64 dvd ti_nanos x"
proof -
  have "UnixNano x = 0 \<longleftrightarrow> (word_of_int (ti_nanos x) :: 64 word) = 0"
    unfolding UnixNano_def by (metis signed_0 signed_eq_0_iff)
  also have "\<dots> \<longleftrightarrow> 2 ^ 64 dvd ti_nanos x"
    using word_of_int_eq_0_iff [where 'a = 64] by simp
  finally show ?thesis .
qed

text \<open>
  C15. JSON. A time is written in UTC, in quotes, and read back into a nil pointer as the same instant to the nanosecond, if its year has four digits; else
  writing it fails. But the instants at which the nanoseconds since 1970, taken to 64 bits, are zero are written as null, and read back as
  nothing: not only 1 January 1970 but also an instant in the year 2554.
\<close>

theorem time_JSON_roundtrip:
  "case time_MarshalJSON (Some (Some x)) of
     (Inl e, t) \<Rightarrow> (local_year (utc x) < 0 \<or> 9999 < local_year (utc x)) \<and> \<not> 2 ^ 64 dvd ti_nanos x \<and>
       e = Sentinel ''Time.MarshalJSON: year outside of range [0,9999]''
   | (Inr s, t) \<Rightarrow>
       if 2 ^ 64 dvd ti_nanos x then s = ''null'' \<and> time_UnmarshalJSON s None = Ret (None, None)
       else t = Some (Some (utc x)) \<and> time_UnmarshalJSON s None = Ret (None, Some (utc x))"
proof (cases "UnixNano x = 0")
  case True
  moreover have "time_UnmarshalJSON ''null'' None = Ret (None, None)"
    by (simp add: time_UnmarshalJSON_def unmarshallUint64_def unmarshallString_def is_digit_def)
  ultimately show ?thesis
    by (simp add: time_MarshalJSON_def inner_def UnixNano_0)
next
  case False
  let ?y = "if ti_zone x \<noteq> UTC then utc x else x"
  have y: "?y = utc x" by (cases x) (simp add: utc_def)
  have z: "zone_offset (ti_zone (utc x)) = 0" by (simp add: utc_def)
  show ?thesis
  proof (cases "local_year (utc x) < 0 \<or> 9999 < local_year (utc x)")
    case year: True
    then show ?thesis
      using False y by (simp add: time_MarshalJSON_def inner_def go_MarshalJSON_def strict_RFC3339_eq prefix_error_def UnixNano_0)
  next
    case year: False
    define s where "s = [quote_char] @ format_RFC3339 (utc x) @ [quote_char]"
    have m: "time_MarshalJSON (Some (Some x)) = (Inr s, Some (Some (utc x)))"
      using False y year z by (simp add: time_MarshalJSON_def inner_def go_MarshalJSON_def strict_RFC3339_eq prefix_error_def s_def Let_def)
    have "parse_RFC3339 [quote_char] s = Inr (utc x)"
      using parse_format [of "utc x" "[quote_char]"] year z by (simp add: s_def whole_minutes_def utc_def)
    then have p: "go_ParseJSON s = Inr (utc x)" by (simp add: go_ParseJSON_def)
    have "s \<noteq> ''null''" "s \<noteq> [CHR 0x22, CHR 0x22]" "s \<noteq> ''''" "list_ex (\<lambda>c. \<not> is_digit c) s"
      using format_nonempty [of "utc x"] by (auto simp: s_def quote_char_def is_digit_def)
    then have "time_UnmarshalJSON s None = Ret (None, Some (utc x))"
      using p by (simp add: time_UnmarshalJSON_def unmarshallUint64_def unmarshallString_def utc_def)
    then show ?thesis using m False by (simp add: UnixNano_0)
  qed
qed

text \<open>
  Text (and binary). A time whose year has four digits and whose offset is less than a day is written with its offset in minutes, and read back in a
  zone of that offset: as the same instant if the offset is in whole minutes, else off by the seconds that were not written.
  The instants that count as none are written as nothing, and nothing read leaves the time as it was.
\<close>

theorem time_text_roundtrip:
  "case time_MarshalText (Some (Some x)) of
     Inl e \<Rightarrow> \<not> 2 ^ 64 dvd ti_nanos x \<and>
       (if local_year x < 0 \<or> 9999 < local_year x then e = Sentinel ''Time.MarshalText: year outside of range [0,9999]''
        else e = Sentinel ''Time.MarshalText: timezone hour outside of range [0,23]'' \<and> 86400 \<le> \<bar>zone_offset (ti_zone x)\<bar>)
   | Inr None \<Rightarrow> 2 ^ 64 dvd ti_nanos x \<and> time_UnmarshalText '''' t = (None, t)
   | Inr (Some s) \<Rightarrow> \<not> 2 ^ 64 dvd ti_nanos x \<and>
       (\<exists>y. time_UnmarshalText s t = (None, Some y) \<and>
         ti_nanos y = ti_nanos x + (zone_offset (ti_zone x) - zone_offset (ti_zone y)) * 1000000000 \<and>
         zone_offset (ti_zone y) = whole_minutes (zone_offset (ti_zone x)) \<and>
         (ti_nanos y = ti_nanos x \<longleftrightarrow> 60 dvd zone_offset (ti_zone x)))"
proof (cases "UnixNano x = 0")
  case True
  then show ?thesis by (simp add: time_MarshalText_def inner_def time_UnmarshalText_def UnixNano_0)
next
  case False
  let ?off = "zone_offset (ti_zone x)"
  consider (year) "local_year x < 0 \<or> 9999 < local_year x" | (zone) "0 \<le> local_year x" "local_year x \<le> 9999" "86400 \<le> \<bar>?off\<bar>"
    | (ok) "0 \<le> local_year x" "local_year x \<le> 9999" "\<bar>?off\<bar> < 86400"
    by linarith
  then show ?thesis
  proof cases
    case ok
    have "parse_RFC3339 '''' (format_RFC3339 x) = Inr
      \<lparr>ti_nanos = ti_nanos x + (?off - whole_minutes ?off) * 1000000000, ti_zone = (if ?off = 0 then UTC else Offset (whole_minutes ?off))\<rparr>"
      using parse_format [of x "''''"] ok by simp
    moreover have "time_MarshalText (Some (Some x)) = Inr (Some (format_RFC3339 x))"
      using ok False by (simp add: time_MarshalText_def inner_def go_MarshalText_def strict_RFC3339_eq prefix_error_def)
    ultimately show ?thesis
      using False format_nonempty [of x] whole_minutes_exact [of ?off] whole_minutes_0
      by (simp add: time_UnmarshalText_def go_UnmarshalText_def UnixNano_0)
  qed (use False in \<open>simp_all add: time_MarshalText_def inner_def go_MarshalText_def strict_RFC3339_eq prefix_error_def UnixNano_0\<close>)
qed

end
