(* ===== verification/Totp.thy ===== *)
theory Totp
  imports Go_Time Config
begin

text \<open>
  One-time codes (\<open>totp\<close>). The library \<open>gotp\<close> is the parameter \<open>gotp_lib\<close>; its generator is made of a secret in base32, the number of digits and the
  length of a code's window. Go's base32 encoding without padding is modelled.
\<close>

section \<open>Base32\<close>

text \<open>Numbers as bits, most significant first.\<close>

fun bits_of :: "nat \<Rightarrow> nat \<Rightarrow> bool list" where
  "bits_of 0 n = []"
| "bits_of (Suc k) n = bits_of k (n div 2) @ [odd n]"

definition bits_val :: "bool list \<Rightarrow> nat" where
  "bits_val bs = foldl (\<lambda>a b. 2 * a + of_bool b) 0 bs"

text \<open>Groups of \<open>k\<close> bits; the last one is filled with zeros.\<close>

function bit_groups :: "nat \<Rightarrow> bool list \<Rightarrow> nat list" where
  "bit_groups k bs =
     (if k = 0 \<or> bs = [] then []
      else bits_val (take k (bs @ replicate k False)) # bit_groups k (drop k bs))"
  by pat_completeness auto
termination
  by (relation "measure (\<lambda>(k, bs). length bs)") auto

declare bit_groups.simps [simp del]

definition base32_alphabet :: string where
  "base32_alphabet = ''ABCDEFGHIJKLMNOPQRSTUVWXYZ234567''"

definition base32_encode :: "string \<Rightarrow> string" where
  "base32_encode s = map (\<lambda>v. base32_alphabet ! v) (bit_groups 5 (concat (map (\<lambda>c. bits_of 8 (of_char c)) s)))"

text \<open>The decoder drops the bits that do not fill a byte.\<close>

definition base32_decode :: "string \<Rightarrow> string" where
  "base32_decode t = (let bs = concat (map (\<lambda>c. bits_of 5 (case index_of c base32_alphabet of None \<Rightarrow> 0 | Some i \<Rightarrow> i)) t) in
     map char_of (bit_groups 8 (take (8 * (length bs div 8)) bs)))"

section \<open>Codes\<close>

definition digitsInCode :: int where
  "digitsInCode = 6"

definition rotationDuration :: int where
  "rotationDuration = 30"

record totp_generator =
  tg_secret :: string
  tg_digits :: int
  tg_interval :: int

record gotp_lib =
  gl_ProvisioningUri :: "totp_generator \<Rightarrow> string \<Rightarrow> string \<Rightarrow> string"
  gl_AtTime :: "totp_generator \<Rightarrow> go_time \<Rightarrow> string"
  gl_VerifyTime :: "totp_generator \<Rightarrow> string \<Rightarrow> go_time \<Rightarrow> bool"

text \<open>The client is its configuration; without one the program panics.\<close>

record totp_client =
  tp_Issuer :: string

definition totp_New :: "(string \<Rightarrow> totp_client \<Rightarrow> err \<times> totp_client) \<Rightarrow> string \<Rightarrow> totp_client outcome" where
  "totp_New UnmarshalKey applicationYamlKey = MustLoadFromKey UnmarshalKey applicationYamlKey \<lparr>tp_Issuer = ''''\<rparr>"

definition CreateCode :: "string \<Rightarrow> totp_generator" where
  "CreateCode secret = \<lparr>tg_secret = base32_encode secret, tg_digits = digitsInCode, tg_interval = rotationDuration\<rparr>"

definition GenerateURI :: "gotp_lib \<Rightarrow> totp_client \<Rightarrow> string \<Rightarrow> string \<Rightarrow> string" where
  "GenerateURI G T userSecret account = gl_ProvisioningUri G (CreateCode userSecret) account (tp_Issuer T)"

text \<open>A time that is not there is a nil pointer that is dereferenced.\<close>

definition totp_Verify :: "gotp_lib \<Rightarrow> time_ptr \<Rightarrow> string \<Rightarrow> string \<Rightarrow> bool outcome" where
  "totp_Verify G now userSecret totpCode =
     (let code = CreateCode userSecret in
      (case inner now of None \<Rightarrow> Panic | Some t \<Rightarrow> Ret (gl_VerifyTime G code totpCode t)))"

definition GenerateCode :: "gotp_lib \<Rightarrow> time_ptr \<Rightarrow> string \<Rightarrow> string outcome" where
  "GenerateCode G now userSecret =
     (let code = CreateCode userSecret in
      (case inner now of None \<Rightarrow> Panic | Some t \<Rightarrow> Ret (gl_AtTime G code t)))"

section \<open>Base32 is read back\<close>

lemma length_bits_of [simp]: "length (bits_of k n) = k"
  by (induction k arbitrary: n) simp_all

lemma bits_val_snoc: "bits_val (bs @ [b]) = 2 * bits_val bs + of_bool b"
  by (simp add: bits_val_def)

lemma bits_val_bits_of: "n < 2 ^ k \<Longrightarrow> bits_val (bits_of k n) = n"
proof (induction k arbitrary: n)
  case 0
  then show ?case by (simp add: bits_val_def)
next
  case (Suc k)
  then have "n div 2 < 2 ^ k" by simp
  with Suc.IH show ?case by (simp add: bits_val_snoc)
qed

lemma bits_val_less: "bits_val bs < 2 ^ length bs"
  by (induction bs rule: rev_induct) (auto simp: bits_val_snoc bits_val_def)

lemma bits_of_bits_val: "bits_of (length bs) (bits_val bs) = bs"
  by (induction bs rule: rev_induct) (auto simp: bits_val_snoc)

text \<open>Groups of five bits are the bits with a few zeros at the end; groups of eight that fill bytes are the bytes.\<close>

lemma bits_of_groups:
  "0 < k \<Longrightarrow> \<exists>z < k. concat (map (bits_of k) (bit_groups k bs)) = bs @ replicate z False"
proof (induction k bs rule: bit_groups.induct)
  case (1 k bs)
  show ?case
  proof (cases "bs = []")
    case True
    then show ?thesis using "1.prems" by (auto simp: bit_groups.simps)
  next
    case False
    let ?g = "take k (bs @ replicate k False)"
    have g: "bits_of k (bits_val ?g) = ?g" proof -
      have "length ?g = k" by simp
      then show ?thesis using bits_of_bits_val [of ?g] by (simp only:)
    qed
    have step: "concat (map (bits_of k) (bit_groups k bs)) = ?g @ concat (map (bits_of k) (bit_groups k (drop k bs)))"
      using False "1.prems" g by (subst bit_groups.simps) simp
    show ?thesis
    proof (cases "k \<le> length bs")
      case True
      obtain z where "z < k" "concat (map (bits_of k) (bit_groups k (drop k bs))) = drop k bs @ replicate z False"
        using "1.IH" False "1.prems" by auto
      then show ?thesis using step True by (auto intro!: exI [of _ z])
    next
      case short: False
      then have "concat (map (bits_of k) (bit_groups k bs)) = bs @ replicate (k - length bs) False"
        using step by (simp add: bit_groups.simps)
      then show ?thesis using False "1.prems" by (intro exI [of _ "k - length bs"]) simp
    qed
  qed
qed

lemma of_char_less_256: "(of_char c :: nat) < 256"
proof -
  have "of_char c mod 256 = (of_char c :: nat)" by (rule of_char_mod_256)
  then show ?thesis by (metis mod_less_divisor zero_less_numeral)
qed

lemma groups_of_bytes: "bit_groups 8 (concat (map (\<lambda>c. bits_of 8 (of_char c)) s)) = map of_char s"
proof (induction s)
  case Nil
  then show ?case by (simp add: bit_groups.simps)
next
  case (Cons c s)
  have ne: "bits_of 8 (of_char c) \<noteq> []" by (metis length_bits_of list.size(3) zero_neq_numeral)
  have "bits_val (bits_of 8 (of_char c)) = of_char c"
    using of_char_less_256 [of c] by (intro bits_val_bits_of) simp
  then show ?case using Cons ne by (subst bit_groups.simps) simp
qed

lemma alphabet_index: "v < 32 \<Longrightarrow> index_of (base32_alphabet ! v) base32_alphabet = Some v"
proof -
  have "\<forall>v \<in> set [0..<32]. index_of (base32_alphabet ! v) base32_alphabet = Some v" by code_simp
  then show "v < 32 \<Longrightarrow> ?thesis" by simp
qed

lemma bit_groups_less: "\<forall>v \<in> set (bit_groups k bs). v < 2 ^ k"
proof (induction k bs rule: bit_groups.induct)
  case (1 k bs)
  have "length (take k (bs @ replicate k False)) = k" by simp
  then have "bits_val (take k (bs @ replicate k False)) < 2 ^ k"
    using bits_val_less [of "take k (bs @ replicate k False)"] by (simp only:)
  then show ?case using 1 by (subst bit_groups.simps) auto
qed

lemma length_bytes: "length (concat (map (\<lambda>c. bits_of 8 (of_char c)) s)) = 8 * length s"
  by (induction s) simp_all

text \<open>
  C26. Whatever bytes a user's secret has, the text that the generator is made of decodes to exactly them; so two users' generators are the same
  only if their secrets are. The text consists of the letters and digits of the alphabet, and is never padded.
\<close>

theorem CreateCode_keeps_secret:
  "base32_decode (tg_secret (CreateCode s)) = s \<and> (CreateCode s = CreateCode s' \<longleftrightarrow> s = s') \<and>
   set (tg_secret (CreateCode s)) \<subseteq> set base32_alphabet"
proof -
  have decode: "base32_decode (base32_encode s) = s" for s
  proof -
    let ?bs = "concat (map (\<lambda>c. bits_of 8 (of_char c)) s)"
    obtain z where z: "z < 5" "concat (map (bits_of 5) (bit_groups 5 ?bs)) = ?bs @ replicate z False"
      using bits_of_groups [of 5 ?bs] by auto
    have v: "v \<in> set (bit_groups 5 ?bs) \<Longrightarrow> v < 32" for v
      using bit_groups_less [of 5 ?bs] by auto
    have "map (\<lambda>c. bits_of 5 (case index_of c base32_alphabet of None \<Rightarrow> 0 | Some i \<Rightarrow> i)) (base32_encode s) = map (bits_of 5) (bit_groups 5 ?bs)"
      using v by (simp add: base32_encode_def alphabet_index)
    then have bs: "concat (map (\<lambda>c. bits_of 5 (case index_of c base32_alphabet of None \<Rightarrow> 0 | Some i \<Rightarrow> i)) (base32_encode s)) = ?bs @ replicate z False"
      using z(2) by (simp only:)
    have "length (?bs @ replicate z False) div 8 = length s"
      using z(1) by (simp add: length_bytes)
    then have "take (8 * (length (?bs @ replicate z False) div 8)) (?bs @ replicate z False) = ?bs"
      by (simp add: length_bytes)
    then show ?thesis
      unfolding base32_decode_def Let_def bs by (simp add: groups_of_bytes comp_def)
  qed
  have "set (base32_encode s) \<subseteq> set base32_alphabet"
  proof -
    have "length base32_alphabet = 32" by (simp add: base32_alphabet_def)
    then show ?thesis
      using bit_groups_less [of 5 "concat (map (\<lambda>c. bits_of 8 (of_char c)) s)"] by (auto simp: base32_encode_def intro!: nth_mem)
  qed
  then show ?thesis
    using decode by (simp add: CreateCode_def) metis
qed

section \<open>Codes verify within their window\<close>

text \<open>What gotp documents: a code depends on the number of the window only, and verifying compares with the code of the time given.\<close>

definition unix_secs :: "go_time \<Rightarrow> int" where
  "unix_secs t = ti_nanos t div 1000000000"

definition gotp_ok :: "gotp_lib \<Rightarrow> bool" where
  "gotp_ok G \<longleftrightarrow>
     (\<forall>g t t'. 0 < tg_interval g \<longrightarrow> unix_secs t div tg_interval g = unix_secs t' div tg_interval g \<longrightarrow> gl_AtTime G g t = gl_AtTime G g t') \<and>
     (\<forall>g c t. gl_VerifyTime G g c t \<longleftrightarrow> c = gl_AtTime G g t)"

text \<open>
  A generated code is accepted for the same secret at every time of the same half minute, in whatever zone the times are shown, also after the time went
  through JSON; at any other time it is accepted exactly if the code generated then is the same. Without a time both panic.
\<close>

theorem generated_codes_verify:
  assumes "gotp_ok G" and "GenerateCode G (Some (Some t)) secret = Ret code"
  shows "totp_Verify G (Some (Some t')) secret code = Ret (GenerateCode G (Some (Some t')) secret = Ret code) \<and>
    (unix_secs t div 30 = unix_secs t' div 30 \<longrightarrow> totp_Verify G (Some (Some t')) secret code = Ret True) \<and>
    totp_Verify G (Some (Some (utc t))) secret code = Ret True \<and>
    totp_Verify G None secret code = Panic \<and> GenerateCode G (Some None) secret = Panic"
proof -
  have window: "gl_AtTime G g x = gl_AtTime G g y"
    if "0 < tg_interval g" "unix_secs x div tg_interval g = unix_secs y div tg_interval g" for g x y
    using assms(1) that unfolding gotp_ok_def by blast
  have verify: "gl_VerifyTime G g c x \<longleftrightarrow> c = gl_AtTime G g x" for g c x
    using assms(1) unfolding gotp_ok_def by blast
  have i: "tg_interval (CreateCode secret) = 30" by (simp add: CreateCode_def rotationDuration_def)
  have code: "gl_AtTime G (CreateCode secret) t = code"
    using assms(2) by (simp add: GenerateCode_def inner_def)
  have same: "totp_Verify G (Some (Some x)) secret code = Ret True" if "unix_secs t div 30 = unix_secs x div 30" for x
    using window [of "CreateCode secret" t x] that code i by (simp add: totp_Verify_def inner_def verify)
  have "totp_Verify G (Some (Some t')) secret code = Ret (GenerateCode G (Some (Some t')) secret = Ret code)"
    by (auto simp: totp_Verify_def GenerateCode_def inner_def verify)
  moreover have "totp_Verify G (Some (Some (utc t))) secret code = Ret True"
    by (rule same) (simp add: unix_secs_def utc_def)
  moreover have "totp_Verify G None secret code = Panic \<and> GenerateCode G (Some None) secret = Panic"
    by (simp add: totp_Verify_def GenerateCode_def inner_def)
  ultimately show ?thesis using same by blast
qed

definition sample_gotp :: gotp_lib where
  "sample_gotp = \<lparr>gl_ProvisioningUri = \<lambda>g a i. i @ '':'' @ a @ ''?secret='' @ tg_secret g,
     gl_AtTime = \<lambda>g t. tg_secret g @ dec_string (nat (unix_secs t div tg_interval g)),
     gl_VerifyTime = \<lambda>g c t. c = tg_secret g @ dec_string (nat (unix_secs t div tg_interval g))\<rparr>"

theorem generated_codes_verify_witness:
  "totp_Verify sample_gotp (Some (Some (at_nanos 59999999999))) ''bogusSecret'' (base32_encode ''bogusSecret'' @ ''1'') = Ret True"
proof -
  have "digit 1 = CHR ''1''" by code_simp
  then have d1: "dec_string 1 = ''1''" by (subst dec_string.simps) simp
  have "gotp_ok sample_gotp" by (simp add: gotp_ok_def sample_gotp_def)
  moreover have "GenerateCode sample_gotp (Some (Some (at_nanos 30000000000))) ''bogusSecret'' = Ret (base32_encode ''bogusSecret'' @ ''1'')"
    using d1 by (simp add: GenerateCode_def inner_def sample_gotp_def CreateCode_def rotationDuration_def unix_secs_def at_nanos_def)
  moreover have "unix_secs (at_nanos 30000000000) div 30 = unix_secs (at_nanos 59999999999) div 30"
    by (simp add: unix_secs_def at_nanos_def)
  ultimately show ?thesis
    using generated_codes_verify [of sample_gotp "at_nanos 30000000000" "''bogusSecret''" _ "at_nanos 59999999999"] by blast
qed

end
