(* ===== verification/Retry_Policies.thy ===== *)
theory Retry_Policies
  imports Email Sms Inapp Push_Client Storage_V2 Complex_Main
begin

text \<open>
  How often the clients try. Each of them hands its operation to \<open>backoff.RetryNotify\<close> with an exponential policy of its own
  (\<open>email/email.go\<close>, \<open>sms/sms.go\<close>, \<open>notifications/inapp/inapp.go\<close>, \<open>notifications/push/push.go\<close>, \<open>connectors/storage/v2/storage.go\<close>). The
  library is a parameter here too: what is relied on is the documented timing of \<open>ExponentialBackOff\<close>. It follows that a client sends
  a bounded number of requests for one operation, whatever the service answers.
\<close>

section \<open>Policies\<close>

text \<open>The fields of \<open>ExponentialBackOff\<close> that the code sets; times are nanoseconds, \<open>0\<close> for \<open>MaxElapsedTime\<close> means no limit.\<close>

record backoff_policy =
  InitialInterval :: int
  RandomizationFactor :: rat
  Multiplier :: rat
  MaxInterval :: int
  MaxElapsedTime :: int

definition Millisecond :: int where "Millisecond = 1000000"
definition Second :: int where "Second = 1000000000"

text \<open>The library: a policy to a way of running an operation.\<close>

type_synonym 's retry_lib = "backoff_policy \<Rightarrow> 's retrier"

definition email_retry :: "'s retry_lib \<Rightarrow> 's retrier" where
  "email_retry RetryNotify oper = RetryNotify
     \<lparr>InitialInterval = 100 * Millisecond, RandomizationFactor = 1 / 2, Multiplier = 5 / 2, MaxInterval = Second,
      MaxElapsedTime = 25 * Second\<rparr> oper"

definition sms_retry :: "'s retry_lib \<Rightarrow> 's retrier" where
  "sms_retry RetryNotify oper = RetryNotify
     \<lparr>InitialInterval = 100 * Millisecond, RandomizationFactor = 1 / 2, Multiplier = 5 / 2, MaxInterval = Second,
      MaxElapsedTime = 25 * Second\<rparr> oper"

definition inapp_retry :: "'s retry_lib \<Rightarrow> 's retrier" where
  "inapp_retry RetryNotify oper = RetryNotify
     \<lparr>InitialInterval = 100 * Millisecond, RandomizationFactor = 1 / 2, Multiplier = 5 / 2, MaxInterval = Second,
      MaxElapsedTime = 25 * Second\<rparr> oper"

definition push_retry :: "'s retry_lib \<Rightarrow> 's retrier" where
  "push_retry RetryNotify oper = RetryNotify
     \<lparr>InitialInterval = 300 * Millisecond, RandomizationFactor = 1 / 2, Multiplier = 5 / 2, MaxInterval = 2 * Second,
      MaxElapsedTime = 25 * Second\<rparr> oper"

definition storage_retry :: "'s retry_lib \<Rightarrow> 's retrier" where
  "storage_retry RetryNotify oper = RetryNotify
     \<lparr>InitialInterval = 100 * Millisecond, RandomizationFactor = 1 / 2, Multiplier = 5 / 2, MaxInterval = Second,
      MaxElapsedTime = 25 * Second\<rparr> oper"

text \<open>The listener of \<open>connectors/storage/v2/api.go\<close> asks for the waits itself, and its policy has no limit.\<close>

definition createBackoff :: backoff_policy where
  "createBackoff = \<lparr>InitialInterval = 100 * Millisecond, RandomizationFactor = 1 / 2, Multiplier = 5 / 2, MaxInterval = Second,
     MaxElapsedTime = 0\<rparr>"

section \<open>The documented timing\<close>

text \<open>The interval before retry \<open>k\<close> (from 0) grows by the multiplier and is capped; the wait is the interval, randomised by the
  factor.\<close>

fun interval :: "backoff_policy \<Rightarrow> nat \<Rightarrow> rat" where
  "interval p 0 = of_int (InitialInterval p)"
| "interval p (Suc k) = min (of_int (MaxInterval p)) (Multiplier p * interval p k)"

definition least_wait :: "backoff_policy \<Rightarrow> nat \<Rightarrow> rat" where
  "least_wait p k = (1 - RandomizationFactor p) * interval p k"

text \<open>
  \<open>timed_run p oper k t s r s'\<close>: attempt \<open>k\<close> (from 0) begins at time \<open>t\<close> after the start in state \<open>s\<close>, and the run that follows ends with \<open>r\<close> in \<open>s'\<close>.
  An attempt takes some time. Another one follows only if the elapsed time has not gone past the limit, and not before the
  wait is over; the library may give up earlier, when the context ends.
\<close>

inductive timed_run :: "backoff_policy \<Rightarrow> 's retried \<Rightarrow> nat \<Rightarrow> rat \<Rightarrow> 's \<Rightarrow> err outcome \<Rightarrow> 's \<Rightarrow> bool" for p oper where
  timed_done: "oper s = (OpDone, s') \<Longrightarrow> timed_run p oper k t s (Ret None) s'"
| timed_permanent: "oper s = (OpPermanent e, s') \<Longrightarrow> timed_run p oper k t s (Ret (Some e)) s'"
| timed_panic: "oper s = (OpPanic, s') \<Longrightarrow> timed_run p oper k t s Panic s'"
| timed_stop: "oper s = (OpTransient e, s') \<Longrightarrow> r = e \<or> r = Canceled \<or> r = DeadlineExceeded \<Longrightarrow> timed_run p oper k t s (Ret (Some r)) s'"
| timed_again: "oper s = (OpTransient e, s') \<Longrightarrow> t \<le> failed \<Longrightarrow> MaxElapsedTime p = 0 \<or> failed \<le> of_int (MaxElapsedTime p) \<Longrightarrow>
     failed + least_wait p k \<le> t' \<Longrightarrow> timed_run p oper (Suc k) t' s' r s'' \<Longrightarrow> timed_run p oper k t s r s''"

definition backoff_ok :: "'s retry_lib \<Rightarrow> bool" where
  "backoff_ok lib \<longleftrightarrow> (\<forall>p oper s. timed_run p oper 0 0 s (fst (lib p oper s)) (snd (lib p oper s)))"

text \<open>A library that behaves so: it waits as short as it may, and its operations take no time.\<close>

fun starts :: "backoff_policy \<Rightarrow> nat \<Rightarrow> rat" where
  "starts p 0 = 0"
| "starts p (Suc k) = starts p k + least_wait p k"

fun eager_from :: "nat \<Rightarrow> nat \<Rightarrow> 's retry_lib" where
  "eager_from fuel k p oper s = (case oper s of
     (OpDone, s') \<Rightarrow> (Ret None, s')
   | (OpPermanent e, s') \<Rightarrow> (Ret (Some e), s')
   | (OpPanic, s') \<Rightarrow> (Panic, s')
   | (OpTransient e, s') \<Rightarrow>
       (case fuel of 0 \<Rightarrow> (Ret (Some e), s')
        | Suc n \<Rightarrow> if MaxElapsedTime p = 0 \<or> starts p k \<le> of_int (MaxElapsedTime p) then eager_from n (Suc k) p oper s'
                   else (Ret (Some e), s')))"

declare eager_from.simps [simp del]

definition eager_lib :: "'s retry_lib" where
  "eager_lib = eager_from 100 0"

section \<open>Lemmas\<close>

text \<open>Timed runs are runs: the contract that the other theories rest on follows.\<close>

lemma timed_run_retry_run: "timed_run p oper k t s r s' \<Longrightarrow> retry_run oper s r s'"
proof (induction rule: timed_run.induct)
  case timed_again
  then show ?case using run_again by metis
qed (simp_all add: run_done run_permanent run_panic run_stop)

lemma backoff_ok_contract: "backoff_ok lib \<Longrightarrow> retry_contract (lib p)"
  unfolding retry_contract_def
proof (intro allI)
  fix oper s
  assume "backoff_ok lib"
  then have "timed_run p oper 0 0 s (fst (lib p oper s)) (snd (lib p oper s))" unfolding backoff_ok_def by blast
  then show "retry_run oper s (fst (lib p oper s)) (snd (lib p oper s))" by (rule timed_run_retry_run)
qed

lemma eager_from_run: "timed_run p oper k (starts p k) s (fst (eager_from n k p oper s)) (snd (eager_from n k p oper s))"
proof (induction n arbitrary: k s)
  case 0
  obtain r s' where "oper s = (r, s')" by (cases "oper s")
  then show ?case
    by (cases r) (auto simp: eager_from.simps [of 0] intro: timed_done timed_permanent timed_panic timed_stop)
next
  case (Suc n)
  obtain r s' where o: "oper s = (r, s')" by (cases "oper s")
  show ?case
  proof (cases "\<exists>e. r = OpTransient e \<and> (MaxElapsedTime p = 0 \<or> starts p k \<le> of_int (MaxElapsedTime p))")
    case True
    then obtain e where "r = OpTransient e" and "MaxElapsedTime p = 0 \<or> starts p k \<le> of_int (MaxElapsedTime p)" by blast
    with o Suc.IH [of "Suc k" s'] show ?thesis
      by (auto simp: eager_from.simps [of "Suc n"] intro: timed_again [where failed = "starts p k"])
  next
    case False
    with o show ?thesis
      by (cases r) (auto simp: eager_from.simps [of "Suc n"] intro: timed_done timed_permanent timed_panic timed_stop)
  qed
qed

lemma eager_lib_ok: "backoff_ok eager_lib"
  unfolding backoff_ok_def eager_lib_def using eager_from_run [where k = 0] by (metis starts.simps(1))

text \<open>Attempt \<open>k\<close> does not begin before the sum of the least waits.\<close>

definition sane :: "backoff_policy \<Rightarrow> bool" where
  "sane p \<longleftrightarrow> 0 \<le> InitialInterval p \<and> 0 \<le> MaxInterval p \<and> 0 \<le> Multiplier p \<and> RandomizationFactor p \<le> 1"

lemma interval_nonneg: "sane p \<Longrightarrow> 0 \<le> interval p k"
  by (induction k) (simp_all add: sane_def)

lemma least_wait_nonneg: "sane p \<Longrightarrow> 0 \<le> least_wait p k"
  using interval_nonneg [of p k] by (simp add: least_wait_def sane_def)

lemma starts_mono: "sane p \<Longrightarrow> i \<le> j \<Longrightarrow> starts p i \<le> starts p j"
proof (induction j)
  case (Suc j)
  then show ?case using least_wait_nonneg [of p j] by (cases "i = Suc j") auto
qed simp

text \<open>Once the least waits before attempt \<open>K\<close> exceed the limit, no attempt follows it. A count that an attempt raises by at most
  \<open>c\<close> is raised by at most \<open>c * (K + 1)\<close>.\<close>

lemma timed_run_count:
  fixes requests :: "'s \<Rightarrow> nat"
  assumes "timed_run p oper k t s r s'" and "sane p" and "starts p k \<le> t" and "k \<le> K"
    and "MaxElapsedTime p \<noteq> 0" and "of_int (MaxElapsedTime p) < starts p K" and "\<And>s. requests (snd (oper s)) \<le> requests s + c"
  shows "requests s' \<le> requests s + c * (K + 1 - k)"
proof -
  have one_attempt: "requests (snd (oper s)) \<le> requests s + c * (K + 1 - k)" if "k \<le> K" for s k
  proof -
    have "c * 1 \<le> c * (K + 1 - k)" using that by (intro mult_le_mono2) simp
    then show ?thesis using assms(7) [of s] by linarith
  qed
  show ?thesis
    using assms(1,3,4)
  proof (induction rule: timed_run.induct)
    case (timed_again s e s' t failed k t' r s'')
    have "starts p k < starts p K" using timed_again.hyps(2,3) timed_again.prems(1) assms(5,6) by linarith
    then have k: "k < K" using starts_mono [OF assms(2), of K k] by (cases "k < K") auto
    have "starts p (Suc k) \<le> t'" using timed_again.hyps(2,4) timed_again.prems(1) by simp
    then have "requests s'' \<le> requests s' + c * (K - k)" using timed_again.IH k by simp
    moreover have "requests s' \<le> requests s + c" using assms(7) [of s] timed_again.hyps(1) by simp
    moreover have "c * (K + 1 - k) = c + c * (K - k)" using k by (simp add: Suc_diff_le)
    ultimately show ?case by simp
  next
    case (timed_done s s' k t)
    then show ?case using one_attempt [OF timed_done.prems(2), of s] by simp
  next
    case (timed_permanent s e s' k t)
    then show ?case using one_attempt [OF timed_permanent.prems(2), of s] by simp
  next
    case (timed_panic s s' k t)
    then show ?case using one_attempt [OF timed_panic.prems(2), of s] by simp
  next
    case (timed_stop s e s' r k t)
    then show ?case using one_attempt [OF timed_stop.prems(2), of s] by simp
  qed
qed

text \<open>The sums of the least waits: from the third retry on the interval is the greatest.\<close>

lemma interval_capped: "interval p 3 = of_int (MaxInterval p) \<Longrightarrow> 1 \<le> Multiplier p \<Longrightarrow> 0 \<le> MaxInterval p \<Longrightarrow> interval p (3 + n) = of_int (MaxInterval p)"
proof (induction n)
  case (Suc n)
  have "interval p (3 + Suc n) = min (of_int (MaxInterval p)) (Multiplier p * of_int (MaxInterval p))"
    using Suc by (simp only: add_Suc_right interval.simps)
  moreover have "1 * of_int (MaxInterval p) \<le> Multiplier p * of_int (MaxInterval p)"
    using Suc.prems by (intro mult_right_mono) simp_all
  ultimately show ?case by simp
qed simp

lemma starts_capped:
  assumes "interval p 3 = of_int (MaxInterval p)" and "1 \<le> Multiplier p" and "0 \<le> MaxInterval p"
  shows "starts p (3 + n) = starts p 3 + of_nat n * ((1 - RandomizationFactor p) * of_int (MaxInterval p))"
proof (induction n)
  case (Suc n)
  have "starts p (3 + Suc n) = starts p (3 + n) + least_wait p (3 + n)"
    by (simp only: add_Suc_right starts.simps)
  then show ?case using Suc interval_capped [OF assms, of n] by (simp add: least_wait_def algebra_simps)
qed simp

text \<open>The library that waits as short as it may makes all the attempts there can be of an operation that always asks again.\<close>

lemma eager_from_busy:
  assumes "\<And>s. oper s = (OpTransient e, f s)" and "MaxElapsedTime p \<noteq> 0" and "\<And>i. i < K \<Longrightarrow> starts p i \<le> of_int (MaxElapsedTime p)"
    and "of_int (MaxElapsedTime p) < starts p K"
  shows "k \<le> K \<Longrightarrow> K \<le> k + n \<Longrightarrow> eager_from n k p oper s = (Ret (Some e), (f ^^ (K + 1 - k)) s)"
proof (induction n arbitrary: k s)
  case 0
  then show ?case using assms(1) by (simp add: eager_from.simps [of 0])
next
  case (Suc n)
  show ?case
  proof (cases "k = K")
    case True
    then show ?thesis using assms(1,2,4) by (simp add: eager_from.simps [of "Suc n"])
  next
    case False
    then have "eager_from n (Suc k) p oper (f s) = (Ret (Some e), (f ^^ (K + 1 - Suc k)) (f s))" using Suc by simp
    moreover have "K + 1 - k = Suc (K + 1 - Suc k)" using Suc.prems False by simp
    ultimately show ?thesis
      using assms(1) [of s] assms(3) [of k] Suc.prems False by (simp add: eager_from.simps [of "Suc n"] funpow_swap1)
  qed
qed

section \<open>The clients\<close>

text \<open>What the policies come to: at most 54 attempts, and 28 for push notifications.\<close>

lemma second_policy:
  assumes "p = \<lparr>InitialInterval = 100 * Millisecond, RandomizationFactor = 1 / 2, Multiplier = 5 / 2, MaxInterval = Second,
      MaxElapsedTime = 25 * Second\<rparr>"
  shows "sane p" "MaxElapsedTime p \<noteq> 0" "of_int (MaxElapsedTime p) < starts p 53"
proof -
  have "starts p (3 + 50) = starts p 3 + of_nat 50 * ((1 - RandomizationFactor p) * of_int (MaxInterval p))"
    by (rule starts_capped) (simp_all add: assms numeral_3_eq_3 Millisecond_def Second_def)
  moreover have "starts p 3 = 487500000"
    by (simp add: assms numeral_3_eq_3 least_wait_def Millisecond_def Second_def)
  ultimately show "of_int (MaxElapsedTime p) < starts p 53" by (simp add: assms Second_def)
qed (simp_all add: assms sane_def Millisecond_def Second_def)

lemma push_policy:
  assumes "p = \<lparr>InitialInterval = 300 * Millisecond, RandomizationFactor = 1 / 2, Multiplier = 5 / 2, MaxInterval = 2 * Second,
      MaxElapsedTime = 25 * Second\<rparr>"
  shows "sane p" "MaxElapsedTime p \<noteq> 0" "of_int (MaxElapsedTime p) < starts p 27"
proof -
  have "starts p (3 + 24) = starts p 3 + of_nat 24 * ((1 - RandomizationFactor p) * of_int (MaxInterval p))"
    by (rule starts_capped) (simp_all add: assms numeral_3_eq_3 Millisecond_def Second_def)
  moreover have "starts p 3 = 1462500000"
    by (simp add: assms numeral_3_eq_3 least_wait_def Millisecond_def Second_def)
  ultimately show "of_int (MaxElapsedTime p) < starts p 27" by (simp add: assms Second_def)
qed (simp_all add: assms sane_def Millisecond_def Second_def)

text \<open>The bound is the least one: a library as documented may make all 54 attempts.\<close>

lemma email_attempts_reached:
  assumes "\<And>s. oper s = (OpTransient e, f s)"
  shows "email_retry eager_lib oper s = (Ret (Some e), (f ^^ 54) s)"
proof -
  define p where "p = \<lparr>InitialInterval = 100 * Millisecond, RandomizationFactor = 1 / 2, Multiplier = 5 / 2, MaxInterval = Second,
      MaxElapsedTime = 25 * Second\<rparr>"
  have "starts p (3 + 49) = starts p 3 + of_nat 49 * ((1 - RandomizationFactor p) * of_int (MaxInterval p))"
    by (rule starts_capped) (simp_all add: p_def numeral_3_eq_3 Millisecond_def Second_def)
  moreover have "starts p 3 = 487500000"
    by (simp add: p_def numeral_3_eq_3 least_wait_def Millisecond_def Second_def)
  ultimately have last_start: "starts p 52 \<le> of_int (MaxElapsedTime p)" by (simp add: p_def Second_def)
  have "starts p i \<le> of_int (MaxElapsedTime p)" if "i < 53" for i
    using starts_mono [OF second_policy(1) [OF p_def], of i 52] last_start that by simp
  then have "eager_from 100 0 p oper s = (Ret (Some e), (f ^^ (53 + 1 - 0)) s)"
    by (intro eager_from_busy [where K = 53] assms second_policy(2,3) [OF p_def]) simp_all
  then show ?thesis by (simp add: email_retry_def eager_lib_def p_def)
qed

text \<open>The listener's waits go on for ever: each is at least 50 and, before it is randomised, at most 1000 milliseconds.\<close>

lemma createBackoff_waits:
  "MaxElapsedTime createBackoff = 0" "of_int (50 * Millisecond) \<le> least_wait createBackoff k" "interval createBackoff k \<le> of_int Second"
proof -
  have "of_int (100 * Millisecond) \<le> interval createBackoff k \<and> interval createBackoff k \<le> of_int Second" for k
  proof (induction k)
    case (Suc k)
    have "of_int (100 * Millisecond) \<le> Multiplier createBackoff * interval createBackoff k"
      using Suc by (simp add: createBackoff_def Millisecond_def)
    then show ?case by (simp add: createBackoff_def Millisecond_def Second_def)
  qed (simp add: createBackoff_def Millisecond_def Second_def)
  then show "of_int (50 * Millisecond) \<le> least_wait createBackoff k" "interval createBackoff k \<le> of_int Second"
    by (simp_all add: least_wait_def createBackoff_def Millisecond_def)
qed (simp add: createBackoff_def)

lemma lib_count:
  assumes "backoff_ok lib" and "sane p" "MaxElapsedTime p \<noteq> 0" "of_int (MaxElapsedTime p) < starts p K"
    and "\<And>s. requests (snd (oper s)) \<le> requests s + (1 :: nat)"
  shows "requests (snd (lib p oper s)) \<le> requests s + (K + 1)"
proof -
  have "timed_run p oper 0 0 s (fst (lib p oper s)) (snd (lib p oper s))" using assms(1) unfolding backoff_ok_def by blast
  from timed_run_count [where requests = requests and K = K and c = 1, OF this assms(2) _ _ assms(3,4,5)] show ?thesis by simp
qed

lemmas second_count = lib_count [OF _ second_policy [OF refl]]
lemmas push_count = lib_count [OF _ push_policy [OF refl]]

lemma retry_counts:
  assumes "backoff_ok lib" and "\<And>s. requests (snd (oper s)) \<le> requests s + (1 :: nat)"
  shows "requests (snd (email_retry lib oper s)) \<le> requests s + 54" "requests (snd (sms_retry lib oper s)) \<le> requests s + 54"
    "requests (snd (inapp_retry lib oper s)) \<le> requests s + 54" "requests (snd (storage_retry lib oper s)) \<le> requests s + 54"
    "requests (snd (push_retry lib oper s)) \<le> requests s + 28"
  using second_count [where requests = requests, OF assms(1,2)] push_count [where requests = requests, OF assms(1,2)]
  by (simp_all add: email_retry_def sms_retry_def inapp_retry_def storage_retry_def push_retry_def)

text \<open>An attempt of each client is at most one request.\<close>

definition one_each :: "('w \<Rightarrow> nat) \<Rightarrow> ('w \<Rightarrow> 'a \<times> 'w) \<Rightarrow> bool" where
  "one_each requests f \<longleftrightarrow> (\<forall>w. requests (snd (f w)) \<le> requests w + 1)"

lemma one_eachD: "one_each requests f \<Longrightarrow> f w = (a, w') \<Longrightarrow> requests w' \<le> Suc (requests w)"
  unfolding one_each_def by (metis snd_conv Suc_eq_plus1)

lemma email_attempt_one:
  assumes "\<And>m. one_each requests (sg_Send S m)"
  shows "requests (snd (email_attempt S p ds w)) \<le> requests w + 1"
  by (auto simp: email_attempt_def email_send_def dest: one_eachD [OF assms] split: prod.splits sum.splits)

lemma sms_attempt_one:
  assumes "\<And>m. one_each requests (tw_CreateMessage T m)"
  shows "requests (snd (sms_attempt T senders p w)) \<le> requests w + 1"
  by (auto simp: sms_attempt_def dest: one_eachD [OF assms] split: prod.splits sum.splits option.splits twilio_error.splits)

lemma verifyPhoneNumber_one:
  assumes "\<And>n. one_each requests (tw_FetchPhoneNumber T n)"
  shows "requests (snd (verifyPhoneNumber T number w)) \<le> requests w + 1"
  by (auto simp: verifyPhoneNumber_def dest: one_eachD [OF assms] split: prod.splits sum.splits option.splits twilio_error.splits)

lemma fcmSendAll_one:
  assumes "\<And>ms. one_each requests (SendAll X ms)"
  shows "requests (snd (snd (fcmSendAll X key s))) \<le> requests (snd s) + 1"
  by (auto simp: fcmSendAll_def dest: one_eachD [OF assms] split: prod.splits sum.splits outcome.splits)

lemma broadcast_one:
  assumes "\<And>m. one_each requests (fcm_Send X m)"
  shows "requests (snd (apfst plain (fcm_Send X m w))) \<le> requests w + 1"
  using assms [of m] by (simp add: one_each_def)

lemma inapp_attempt_one:
  assumes "\<And>u a. one_each requests (gs_AddActivity G u a)" and "\<And>us a. one_each requests (gs_AddToMany G us a)"
  shows "requests (snd (snd (inapp_attempt G users s))) \<le> requests (snd s) + 1"
proof -
  obtain p w where s: "s = (p, w)" by (cases s)
  have broadcast: "requests (snd (snd x)) \<le> Suc (requests w)" if "inapp_broadcast G us (p, w) = Ret x" for us x
    using that by (auto simp: inapp_broadcast_def Let_def omap_Ret_iff dest: one_eachD [OF assms(2)] split: option.splits if_splits prod.splits)
      (metis surj_pair snd_conv one_eachD [OF assms(2)])
  have "requests (snd (snd x)) \<le> Suc (requests w)" if "inapp_send G users (p, w) = Ret x" for x
    using that by (auto simp: inapp_send_def Let_def omap_Ret_iff dest: one_eachD [OF assms(1)] broadcast
        split: option.splits if_splits prod.splits list.splits)
      (metis surj_pair snd_conv one_eachD [OF assms(1)])
  then show ?thesis by (auto simp: s inapp_attempt_def split: outcome.splits prod.splits)
qed

lemma read_attempt_one:
  assumes "\<And>c sql args. one_each requests (pgx_Get X c sql args)"
  shows "requests (snd (snd (attempt None (get_v2 X q sql args (d, w))))) \<le> requests w + 1"
  by (auto simp: attempt_def get_v2_def dest: one_eachD [OF assms] split: outcome.splits prod.splits sum.splits)

lemma write_attempt_one:
  assumes "\<And>c. one_each requests (run c)"
  shows "requests (snd (snd (write_attempt zero run q prev (d, w)))) \<le> requests w + 1"
  by (auto simp: write_attempt_def dest: one_eachD [OF assms] split: outcome.splits prod.splits)

lemma retried_op:
  "retry R zero oper s = (omap (\<lambda>e. (fst x, e)) r, snd (snd x))" if "R (retry_body oper) (zero, None, s) = (r, x)"
  using that by (simp add: retry_def split: prod.splits)

lemma storage_requests:
  assumes "backoff_ok lib" and "\<And>prev d w. requests (snd (snd (oper prev (d, w)))) \<le> requests w + (1 :: nat)"
  shows "requests (snd (snd (retry (storage_retry lib) zero oper (d, w)))) \<le> requests w + 54"
proof -
  have one: "requests (snd (snd (snd (snd (retry_body oper s))))) \<le> requests (snd (snd (snd s))) + 1" for s
    using assms(2) [of "fst (snd s)" "fst (snd (snd s))" "snd (snd (snd s))"] by (cases s) (auto simp: retry_body_def split: prod.splits)
  obtain r x where x: "storage_retry lib (retry_body oper) (zero, None, d, w) = (r, x)" by (metis prod.exhaust)
  show ?thesis
    using retry_counts(4) [where requests = "\<lambda>s. requests (snd (snd (snd s)))" and oper = "retry_body oper" and s = "(zero, None, d, w)",
        OF assms(1) one] x retried_op [where R = "storage_retry lib", OF x] by simp
qed

text \<open>
  C12. However a service answers, one call of a client sends it a bounded number of requests, because every policy has a deadline and its
  waits do not get shorter: at most 54 for an e-mail, a text message, the verification of a number, an in-app notification, a query or
  a statement, and at most 28 for a batch of push notifications or a broadcast.
\<close>

theorem requests_are_bounded:
  assumes "backoff_ok lib" "backoff_ok lib_i" "backoff_ok lib_p" "backoff_ok lib_q" "backoff_ok lib_x"
    and "\<And>m. one_each requests (sg_Send S m)"
    and "\<And>m. one_each requests (tw_CreateMessage T m)" "\<And>n. one_each requests (tw_FetchPhoneNumber T n)"
    and "\<And>u a. one_each requests (gs_AddActivity G u a)" "\<And>us a. one_each requests (gs_AddToMany G us a)"
    and "\<And>ms. one_each requests (SendAll F ms)" "\<And>m. one_each requests (fcm_Send F m)"
    and "\<And>c sql args. one_each requests (pgx_Get X c sql args)" "\<And>c sql args. one_each requests (pgx_Exec X c sql args)"
  shows "requests (snd (email_Send (email_retry lib) S parcel ds w)) \<le> requests w + 54 \<and>
    requests (snd (sms_Send (sms_retry lib) T senders message w)) \<le> requests w + 54 \<and>
    requests (snd (VerifyPhoneNumber (sms_retry lib) T number w)) \<le> requests w + 54 \<and>
    requests (snd (snd (inapp_Send (inapp_retry lib_i) G users (notification, w)))) \<le> requests w + 54 \<and>
    requests (snd (snd (Get (storage_retry lib_q) X q sql args (d, w)))) \<le> requests w + 54 \<and>
    requests (snd (snd (Exec (storage_retry lib_x) X q sql args (d, w)))) \<le> requests w + 54 \<and>
    (case process (push_retry lib_p) F key ns w of Panic \<Rightarrow> True | Ret (answers, b, w') \<Rightarrow> requests w' \<le> requests w + 28) \<and>
    requests (snd (Broadcast (push_retry lib) F key topic w)) \<le> requests w + 28"
proof -
  note bound = retry_counts [where requests = requests, OF assms(1)]
  have "requests (snd (email_Send (email_retry lib) S parcel ds w)) \<le> requests w + 54"
    unfolding email_Send_def using bound(1) [OF email_attempt_one, OF assms(6)] by simp
  moreover have "requests (snd (sms_Send (sms_retry lib) T senders message w)) \<le> requests w + 54"
    unfolding sms_Send_def using bound(2) [OF sms_attempt_one, OF assms(7)] by simp
  moreover have "requests (snd (VerifyPhoneNumber (sms_retry lib) T number w)) \<le> requests w + 54"
    unfolding VerifyPhoneNumber_def using bound(2) [OF verifyPhoneNumber_one, OF assms(8)] by simp
  moreover have inapp_one: "requests (snd (snd (inapp_attempt G users s))) \<le> requests (snd s) + 1" for s
    by (rule inapp_attempt_one [OF assms(9,10)])
  have "requests (snd (snd (inapp_Send (inapp_retry lib_i) G users (notification, w)))) \<le> requests w + 54"
    unfolding inapp_Send_def
    using retry_counts(3) [where requests = "\<lambda>s. requests (snd s)", OF assms(2) inapp_one, of "(notification, w)"]
    by simp
  moreover have "requests (snd (snd (Get (storage_retry lib_q) X q sql args (d, w)))) \<le> requests w + 54"
    unfolding Get_def by (rule storage_requests [OF assms(4)]) (rule read_attempt_one [OF assms(13)])
  moreover have "one_each requests (exec_v2 X c sql args)" for c
    unfolding one_each_def exec_v2_def by (auto dest: one_eachD [OF assms(14)] split: prod.splits sum.splits)
  then have "requests (snd (snd (Exec (storage_retry lib_x) X q sql args (d, w)))) \<le> requests w + 54"
    unfolding Exec_def by (intro storage_requests [OF assms(5)] write_attempt_one)
  moreover have batch_one: "requests (snd (snd (fcmSendAll F key s))) \<le> requests (snd s) + 1" for s
    by (rule fcmSendAll_one [OF assms(11)])
  have "case process (push_retry lib_p) F key ns w of Panic \<Rightarrow> True | Ret (answers, b, w') \<Rightarrow> requests w' \<le> requests w + 28"
    using retry_counts(5) [where requests = "\<lambda>s. requests (snd s)", OF assms(3) batch_one, of "(newNotificationBatch ns, w)"]
    by (auto simp: process_def Let_def split: prod.splits outcome.splits)
  moreover have topic_one: "requests (snd (apfst plain (fcm_Send F (topic_message topic) w))) \<le> requests w + 1" for w
    by (rule broadcast_one [OF assms(12)])
  have "requests (snd (Broadcast (push_retry lib) F key topic w)) \<le> requests w + 28"
    unfolding Broadcast_def using bound(5) [OF topic_one, of w]
    by (auto split: prod.splits outcome.splits)
  ultimately show ?thesis by blast
qed

text \<open>For the witness, services that count their requests and never do what they are asked.\<close>

definition busy_sendgrid :: "nat sendgrid" where
  "busy_sendgrid = \<lparr>sg_Send = (\<lambda>m w. (Inr (429, ''''), Suc w)), sg_ctx = (\<lambda>w. None)\<rparr>"

definition busy_twilio :: "nat twilio" where
  "busy_twilio = \<lparr>tw_FetchPhoneNumber = (\<lambda>n w. (Inl (OtherError (Sentinel ''busy'')), Suc w)),
     tw_CreateMessage = (\<lambda>m w. (Some (OtherError (Sentinel ''busy'')), Suc w)), tw_Region = (\<lambda>n. Inr ''US''),
     tw_Now = (\<lambda>w. 0), tw_ctx = (\<lambda>w. None)\<rparr>"

definition busy_getstream :: "nat getstream" where
  "busy_getstream = \<lparr>gs_Feed = (\<lambda>u. None), gs_AddActivity = (\<lambda>u a w. (Some (APIError 429 0 0 (Sentinel ''busy'')), Suc w)),
     gs_AddToMany = (\<lambda>us a w. (Some (APIError 429 0 0 (Sentinel ''busy'')), Suc w)), gs_CreateUserToken = (\<lambda>u. Inr u),
     gs_Now = (\<lambda>w. 0), gs_ctx = (\<lambda>w. None)\<rparr>"

definition busy_fcm :: "nat fcm" where
  "busy_fcm = \<lparr>SendAll = (\<lambda>ms w. (Inl (Sentinel ''busy''), Suc w)), fcm_Send = (\<lambda>m w. (Some (Sentinel ''busy''), Suc w)),
     IsInvalidArgument = (\<lambda>e. False), IsUnregistered = (\<lambda>e. False), IsSenderIDMismatch = (\<lambda>e. False), ctx_Err = (\<lambda>w. None)\<rparr>"

definition busy_pgx :: "(nat, nat, nat) pgx" where
  "busy_pgx = \<lparr>pgx_Get = (\<lambda>c q a w. (Inl (Sentinel ''busy''), Suc w)), pgx_Select = (\<lambda>c q a w. (Inl (Sentinel ''busy''), Suc w)),
     pgx_Exec = (\<lambda>c q a w. (Inl (Sentinel ''busy''), Suc w)), pgx_BeginTxFunc = (\<lambda>c f w. (None, w)), pgx_Ping = (\<lambda>c w. (None, w))\<rparr>"

lemma busy_one:
  "one_each id (sg_Send busy_sendgrid m)" "one_each id (tw_CreateMessage busy_twilio t)" "one_each id (tw_FetchPhoneNumber busy_twilio n)"
  "one_each id (gs_AddActivity busy_getstream u a)" "one_each id (gs_AddToMany busy_getstream us a)"
  "one_each id (SendAll busy_fcm ms)" "one_each id (fcm_Send busy_fcm f)"
  "one_each id (pgx_Get busy_pgx c sql args)" "one_each id (pgx_Exec busy_pgx c sql args)"
  by (simp_all add: one_each_def busy_sendgrid_def busy_twilio_def busy_getstream_def busy_fcm_def busy_pgx_def)

theorem requests_are_bounded_witness:
  "snd (snd (Get (storage_retry eager_lib) busy_pgx (Conn (ConnQ 1)) ''SELECT 1'' [] (undefined, 0))) \<le> 54 \<and>
   snd (VerifyPhoneNumber (sms_retry eager_lib) busy_twilio ''+15550100'' 0) \<le> 54"
  using requests_are_bounded [OF eager_lib_ok eager_lib_ok eager_lib_ok eager_lib_ok eager_lib_ok busy_one, where w = 0 and d = undefined
      and q = "Conn (ConnQ 1)" and sql = "''SELECT 1''" and args = "[]" and number = "''+15550100''"]
  by simp

end
