(* ===== verification/Tracking.thy ===== *)
theory Tracking
  imports Rest_Client
begin

text \<open>
  The analytics client (\<open>analytics/tracking/tracking.go\<close>): three requests with a body made of a map, and what becomes of the answer.
  HTTP and JSON are parameters; the HTTP client repeats a request by itself while \<open>tracking_retries\<close> says so.
\<close>

record tracking_config =
  tk_AppID :: string
  tk_APIKey :: string
  tk_BaseURL :: string

text \<open>A value of a request's body: a text, the attributes given by the caller, or a list of maps.\<close>

datatype 'a body_value = BText string | BAttributes 'a | BList "(string \<times> 'a body_value) list list"

type_synonym 'a body = "(string \<times> 'a body_value) list"

record ('a, 'w) tracking_api =
  tk_Post :: "string \<Rightarrow> 'a body \<Rightarrow> 'w \<Rightarrow> (goerr + http_reply) \<times> 'w"
  tk_Status :: "string \<Rightarrow> goerr + string"
  tk_Now :: "'w \<Rightarrow> string"

definition tracking_retries :: "goerr + http_reply \<Rightarrow> bool" where
  "tracking_retries r = (case r of Inl e \<Rightarrow> True | Inr x \<Rightarrow> hr_Status x = 429 \<or> 500 \<le> hr_Status x)"

definition tracking_failed :: "string \<Rightarrow> string" where
  "tracking_failed url = ''analytics/tracking post `'' @ url @ ''` failed''"

definition tracking_post :: "('a, 'w) tracking_api \<Rightarrow> string \<Rightarrow> 'a body \<Rightarrow> 'w \<Rightarrow> err \<times> 'w" where
  "tracking_post T url body w = (case tk_Post T url body w of
     (Inl e, w1) \<Rightarrow> (Some (Wrapped (tracking_failed url) e), w1)
   | (Inr r, w1) \<Rightarrow>
       (if is_error_state r
        then (Some (Wrapped (tracking_failed url) (case hr_Body r of
                Inl e \<Rightarrow> Wrapped (tracking_failed url) e
              | Inr text \<Rightarrow> Sentinel (tracking_failed url @ '', response: '' @ text))), w1)
        else (case hr_Body r of
            Inl e \<Rightarrow> (Some (Wrapped (tracking_failed url) e), w1)
          | Inr text \<Rightarrow> (case tk_Status T text of
              Inl e \<Rightarrow> (Some (Wrapped ''unmarshalling response failed'' e), w1)
            | Inr status \<Rightarrow>
                (if status \<noteq> ''success'' then (Some (Sentinel (tracking_failed url @ '', response: '' @ text)), w1) else (None, w1))))))"

definition tracking_send :: "('a, 'w) tracking_api \<Rightarrow> string \<Rightarrow> 'a body \<Rightarrow> 'w \<Rightarrow> err \<times> 'w" where
  "tracking_send T url body w = apfst (wrap_err (''unable to send post request to `'' @ url @ ''`'')) (tracking_post T url body w)"

definition TrackAction :: "('a, 'w) tracking_api \<Rightarrow> tracking_config \<Rightarrow> string \<Rightarrow> string \<Rightarrow> 'a \<Rightarrow> 'w \<Rightarrow> err \<times> 'w" where
  "TrackAction T c userID action attributes w =
     tracking_send T (tk_BaseURL c @ ''/v1/event/'' @ tk_AppID c)
       [(''type'', BText ''event''), (''customer_id'', BText userID),
        (''actions'', BList [[(''action'', BText action), (''attributes'', BAttributes attributes)]])] w"

definition SetUserAttributes :: "('a, 'w) tracking_api \<Rightarrow> tracking_config \<Rightarrow> string \<Rightarrow> 'a \<Rightarrow> 'w \<Rightarrow> err \<times> 'w" where
  "SetUserAttributes T c userID attributes w =
     tracking_send T (tk_BaseURL c @ ''/v1/customer/'' @ tk_AppID c)
       [(''type'', BText ''customer''), (''customer_id'', BText userID), (''attributes'', BAttributes attributes)] w"

definition tracking_DeleteUser :: "('a, 'w) tracking_api \<Rightarrow> tracking_config \<Rightarrow> string \<Rightarrow> 'w \<Rightarrow> err \<times> 'w" where
  "tracking_DeleteUser T c userID w =
     tracking_send T (tk_BaseURL c @ ''/v1/opengdpr_requests/'' @ tk_AppID c)
       [(''request_type'', BText ''erasure''), (''id'', BText userID), (''submitted_time'', BText (tk_Now T w)),
        (''identities'', BList [[(''identity_type'', BText ''ID''), (''identity_value'', BText userID)]]), (''api_version'', BText ''1.0'')] w"

text \<open>The client starts only if the service answers the probe with its complaint about the empty user.\<close>

definition New_tracking :: "('a, 'w) tracking_api \<Rightarrow> (string \<Rightarrow> string) \<Rightarrow> string \<Rightarrow> 'a \<Rightarrow> tracking_config \<Rightarrow> 'w \<Rightarrow> (tracking_config \<times> 'w) outcome" where
  "New_tracking T getenv key nothing loaded w =
     (let c = loaded\<lparr>tk_AppID := env_setting (\<lambda>s. s = '''') getenv key ''ANALYTICS_TRACKING_APP_ID'' (tk_AppID loaded),
                     tk_APIKey := env_setting (\<lambda>s. s = '''') getenv key ''ANALYTICS_TRACKING_API_KEY'' (tk_APIKey loaded)\<rparr>
      in (case TrackAction T c '''' '''' nothing w of
           (None, w1) \<Rightarrow> Panic
         | (Some e, w1) \<Rightarrow> if contains (err_text e) ''customer_id can not be empty Unicode String'' then Ret (c, w1) else Panic))"

section \<open>Properties\<close>

text \<open>A request is reported as done exactly when the last answer is no error, can be read, and says \<open>success\<close>.\<close>

lemma tracking_reports:
  assumes "tk_Post T url body w = (r, w1)"
  shows "tracking_send T url body w = (None, w1) \<longleftrightarrow>
    (\<exists>x text. r = Inr x \<and> \<not> is_error_state x \<and> hr_Body x = Inr text \<and> tk_Status T text = Inr ''success'')"
  using assms by (auto simp: tracking_send_def tracking_post_def wrap_err_def split: sum.splits if_splits)

end
