(* ===== verification/Request_Retries.thy ===== *)
theory Request_Retries
  imports Picture Telegram Tracking
begin

text \<open>
  The HTTP requests of the picture storage, Telegram and tracking clients: what each of them sets on a request (\<open>pictureReq\<close>,
  \<open>buildHTTPRequest\<close>), and how often a request is sent. The HTTP client (\<open>imroc/req\<close>) and what is at the other end are parameters; of the
  client its documented retries are relied on: a request is repeated while the condition holds of its answer, at most as often as
  the retry count says, unless the context ends.
\<close>

section \<open>Settings of a request\<close>

text \<open>\<open>rs_Note\<close>: what the retry hook logs of an answer. The waits are between the two intervals.\<close>

record req_settings =
  rs_Intervals :: "int \<times> int"
  rs_Note :: "goerr + http_reply \<Rightarrow> err"
  rs_RetryCount :: nat
  rs_Condition :: "goerr + http_reply \<Rightarrow> bool"
  rs_Headers :: "(string \<times> string) list"
  rs_BasicAuth :: "(string \<times> string) option"

record http_request =
  hq_Method :: string
  hq_URL :: string
  hq_Headers :: "(string \<times> string) list"
  hq_BasicAuth :: "(string \<times> string) option"
  hq_Body :: string

type_synonym 'w transport = "http_request \<Rightarrow> 'w \<Rightarrow> (goerr + http_reply) \<times> 'w"
type_synonym 'w req_lib = "req_settings \<Rightarrow> ('w \<Rightarrow> (goerr + http_reply) \<times> 'w) \<Rightarrow> 'w \<Rightarrow> (goerr + http_reply) \<times> 'w"

definition request_of :: "req_settings \<Rightarrow> string \<Rightarrow> string \<Rightarrow> string \<Rightarrow> http_request" where
  "request_of st method url body =
     \<lparr>hq_Method = method, hq_URL = url, hq_Headers = rs_Headers st, hq_BasicAuth = rs_BasicAuth st, hq_Body = body\<rparr>"

definition SetHeader :: "string \<Rightarrow> string \<Rightarrow> req_settings \<Rightarrow> req_settings" where
  "SetHeader name val st = st\<lparr>rs_Headers := rs_Headers st @ [(name, val)]\<rparr>"

definition note_by_status :: "string \<Rightarrow> string \<Rightarrow> string \<Rightarrow> goerr + http_reply \<Rightarrow> err" where
  "note_by_status failed limited internal r = (case r of
     Inl e \<Rightarrow> Some (Wrapped failed e)
   | Inr x \<Rightarrow>
       (if hr_Status x = 429 then Some (Sentinel limited)
        else if 500 \<le> hr_Status x then Some (Sentinel internal) else None))"

section \<open>The three clients\<close>

definition pictureReq :: "picture_config \<Rightarrow> req_settings" where
  "pictureReq p = \<lparr>rs_Intervals = (10000000, 1000000000),
     rs_Note = note_by_status ''failed to upload picture, retrying... '' ''rate limit for upload picture reached, retrying... ''
       ''failed to upload picture[internal server error], retrying... '',
     rs_RetryCount = 25, rs_Condition = picture_retries, rs_Headers = [(''AccessKey'', pc_AccessKey p)], rs_BasicAuth = None\<rparr>"

definition picture_put :: "'w req_lib \<Rightarrow> 'w transport \<Rightarrow> picture_config \<Rightarrow> string \<Rightarrow> string \<Rightarrow> string \<Rightarrow> 'w \<Rightarrow> (goerr + http_reply) \<times> 'w" where
  "picture_put lib http p url content_type content =
     (let st = SetHeader ''Content-Type'' content_type (pictureReq p) in lib st (http (request_of st ''PUT'' url content)))"

definition picture_delete :: "'w req_lib \<Rightarrow> 'w transport \<Rightarrow> picture_config \<Rightarrow> string \<Rightarrow> 'w \<Rightarrow> (goerr + http_reply) \<times> 'w" where
  "picture_delete lib http p url = lib (pictureReq p) (http (request_of (pictureReq p) ''DELETE'' url ''''))"

definition picture_over :: "'w req_lib \<Rightarrow> 'w transport \<Rightarrow> picture_config \<Rightarrow> 'w storage_api" where
  "picture_over lib http p = \<lparr>st_Put = picture_put lib http p, st_Delete = picture_delete lib http p\<rparr>"

definition telegram_buildHTTPRequest :: req_settings where
  "telegram_buildHTTPRequest = \<lparr>rs_Intervals = (10000000, 1000000000),
     rs_Note = note_by_status ''failed to send telegram notification, retrying... ''
       ''rate limit for telegram notification reached, retrying... ''
       ''failed to send telegram notification[internal server error], retrying... '',
     rs_RetryCount = 25, rs_Condition = telegram_retries,
     rs_Headers = [(''Content-Type'', ''application/json''), (''Accept'', ''application/json'')], rs_BasicAuth = None\<rparr>"

definition telegram_over :: "'w req_lib \<Rightarrow> 'w transport \<Rightarrow> ('u, 'w) telegram_api \<Rightarrow> ('u, 'w) telegram_api" where
  "telegram_over lib http A =
     A\<lparr>tg_Post := (\<lambda>url body. lib telegram_buildHTTPRequest (http (request_of telegram_buildHTTPRequest ''POST'' url body)))\<rparr>"

definition tracking_buildHTTPRequest :: "tracking_config \<Rightarrow> req_settings" where
  "tracking_buildHTTPRequest c = \<lparr>rs_Intervals = (10000000, 1000000000),
     rs_Note = note_by_status ''analytics/tracking request failed, retrying... ''
       ''rate limit for analytics/tracking request reached, retrying... ''
       ''analytics/tracking request failed[internal server error], retrying... '',
     rs_RetryCount = 25, rs_Condition = tracking_retries,
     rs_Headers = [(''Content-Type'', ''application/json''), (''Accept'', ''application/json'')],
     rs_BasicAuth = Some (tk_AppID c, tk_APIKey c)\<rparr>"

text \<open>\<open>json\<close> prints the body.\<close>

definition tracking_over ::
    "'w req_lib \<Rightarrow> 'w transport \<Rightarrow> ('a body \<Rightarrow> string) \<Rightarrow> tracking_config \<Rightarrow> ('a, 'w) tracking_api \<Rightarrow> ('a, 'w) tracking_api" where
  "tracking_over lib http json c T =
     T\<lparr>tk_Post := (\<lambda>url body. lib (tracking_buildHTTPRequest c) (http (request_of (tracking_buildHTTPRequest c) ''POST'' url (json body))))\<rparr>"

section \<open>The documented retries\<close>

text \<open>\<open>req_run st once k w r w'\<close>: after \<open>k\<close> retries the request is sent in \<open>w\<close>, and the run ends with \<open>r\<close> in \<open>w'\<close>.\<close>

inductive req_run :: "req_settings \<Rightarrow> ('w \<Rightarrow> (goerr + http_reply) \<times> 'w) \<Rightarrow> nat \<Rightarrow> 'w \<Rightarrow> goerr + http_reply \<Rightarrow> 'w \<Rightarrow> bool"
  for st once where
  req_final: "once w = (r, w') \<Longrightarrow> \<not> rs_Condition st r \<or> rs_RetryCount st \<le> k \<Longrightarrow> req_run st once k w r w'"
| req_cancelled: "once w = (r, w') \<Longrightarrow> rs_Condition st r \<Longrightarrow> req_run st once k w (Inl e) w'"
| req_again: "once w = (r, w') \<Longrightarrow> rs_Condition st r \<Longrightarrow> k < rs_RetryCount st \<Longrightarrow> req_run st once (Suc k) w' r' w'' \<Longrightarrow>
     req_run st once k w r' w''"

definition req_ok :: "'w req_lib \<Rightarrow> bool" where
  "req_ok lib \<longleftrightarrow> (\<forall>st once w. req_run st once 0 w (fst (lib st once w)) (snd (lib st once w)))"

text \<open>A client that meets it.\<close>

fun patient_from :: "nat \<Rightarrow> 'w req_lib" where
  "patient_from 0 st once w = once w"
| "patient_from (Suc n) st once w = (case once w of (r, w1) \<Rightarrow> if rs_Condition st r then patient_from n st once w1 else (r, w1))"

definition patient_req :: "'w req_lib" where
  "patient_req st = patient_from (rs_RetryCount st) st"

section \<open>Lemmas\<close>

lemma patient_from_run:
  "n + k = rs_RetryCount st \<Longrightarrow> req_run st once k w (fst (patient_from n st once w)) (snd (patient_from n st once w))"
proof (induction n arbitrary: k w)
  case 0
  then show ?case by (cases "once w") (auto intro: req_final)
next
  case (Suc n)
  obtain r w1 where o: "once w = (r, w1)" by (cases "once w")
  show ?case
  proof (cases "rs_Condition st r")
    case True
    have "req_run st once (Suc k) w1 (fst (patient_from n st once w1)) (snd (patient_from n st once w1))"
      using Suc.IH [of "Suc k"] Suc.prems by simp
    then show ?thesis using o True Suc.prems by (auto intro: req_again)
  next
    case False
    then show ?thesis using o by (auto intro: req_final)
  qed
qed

lemma patient_req_ok: "req_ok patient_req"
  unfolding req_ok_def patient_req_def using patient_from_run [where k = 0] by (metis add_0_right)

text \<open>Every request is counted. Then the retries are: an answer that the condition would have repeated is the last of all attempts.\<close>

definition counted :: "('w \<Rightarrow> nat) \<Rightarrow> ('w \<Rightarrow> 'a \<times> 'w) \<Rightarrow> bool" where
  "counted requests once \<longleftrightarrow> (\<forall>w. requests (snd (once w)) = requests w + 1)"

lemma req_run_counts:
  assumes "req_run st once k w r w'" and "counted requests once" and "k \<le> rs_RetryCount st"
  shows "requests w < requests w' \<and> requests w' + k \<le> requests w + rs_RetryCount st + 1 \<and>
    (\<forall>x. r = Inr x \<longrightarrow> (\<exists>w0. once w0 = (r, w')) \<and>
      (rs_Condition st r \<longrightarrow> requests w' + k = requests w + rs_RetryCount st + 1))"
  using assms(1,3)
proof (induction rule: req_run.induct)
  case (req_final w r w' k)
  have "requests w' = requests w + 1" using assms(2) req_final.hyps(1) unfolding counted_def by (metis snd_conv)
  then show ?case using req_final by auto
next
  case (req_cancelled w r w' k e)
  have "requests w' = requests w + 1" using assms(2) req_cancelled.hyps(1) unfolding counted_def by (metis snd_conv)
  then show ?case using req_cancelled by auto
next
  case (req_again w r w' k r' w'')
  have "requests w' = requests w + 1" using assms(2) req_again.hyps(1) unfolding counted_def by (metis snd_conv)
  moreover note req_again.IH
  ultimately show ?case using req_again.hyps(3) by auto
qed

lemma lib_counts:
  assumes "req_ok lib" and "counted requests once" and "lib st once w = (r, w')"
  shows "requests w < requests w'" "requests w' \<le> requests w + rs_RetryCount st + 1"
    "r = Inr x \<Longrightarrow> (\<exists>w0. once w0 = (r, w')) \<and> (rs_Condition st r \<longrightarrow> requests w' = requests w + rs_RetryCount st + 1)"
proof -
  have "req_run st once 0 w r w'" using assms(1,3) unfolding req_ok_def by (metis fst_conv snd_conv)
  from req_run_counts [OF this assms(2)]
  show "requests w < requests w'" "requests w' \<le> requests w + rs_RetryCount st + 1"
    "r = Inr x \<Longrightarrow> (\<exists>w0. once w0 = (r, w')) \<and> (rs_Condition st r \<longrightarrow> requests w' = requests w + rs_RetryCount st + 1)"
    by auto
qed

lemma put_counts:
  assumes "req_ok lib" and "\<And>q. counted requests (http q)"
  shows "requests (snd (picture_put lib http p url ct content w)) \<le> requests w + 26"
proof -
  define st where "st = SetHeader ''Content-Type'' ct (pictureReq p)"
  obtain r w' where r: "lib st (http (request_of st ''PUT'' url content)) w = (r, w')" by (metis prod.exhaust)
  have "rs_RetryCount st = 25" by (simp add: st_def SetHeader_def pictureReq_def)
  then show ?thesis using lib_counts(2) [OF assms(1,2) r] r by (simp add: picture_put_def Let_def flip: st_def)
qed

lemma delete_counts:
  assumes "req_ok lib" and "\<And>q. counted requests (http q)"
  shows "requests (snd (picture_delete lib http p url w)) \<le> requests w + 26"
proof -
  obtain r w' where r: "lib (pictureReq p) (http (request_of (pictureReq p) ''DELETE'' url '''')) w = (r, w')" by (metis prod.exhaust)
  have "rs_RetryCount (pictureReq p) = 25" by (simp add: pictureReq_def)
  then show ?thesis using lib_counts(2) [OF assms(1,2) r] r by (simp add: picture_delete_def)
qed

lemma doUpload_counts:
  assumes "req_ok lib" and "\<And>q. counted requests (http q)"
  shows "requests (snd (doUploadPicture (picture_over lib http c) show_int p f content w)) \<le> requests w + 26"
proof -
  have "requests (snd (picture_put lib http c url ct content w)) \<le> requests w + 26" for url ct by (rule put_counts [OF assms])
  from this [of "uploadURL p (ff_Filename f)" "ff_ContentType f"]
  show ?thesis by (auto simp: doUploadPicture_def picture_over_def split: prod.splits sum.splits)
qed

lemma doDelete_counts:
  assumes "req_ok lib" and "\<And>q. counted requests (http q)"
  shows "requests (snd (doDeletePicture (picture_over lib http c) show_int p ignored name w)) \<le> requests w + 26"
proof -
  have "requests w' \<le> requests w + 26" if "picture_delete lib http c url w = (r, w')" for url r w'
    using delete_counts [where requests = requests and lib = lib and http = http and p = c and url = url and w = w, OF assms] that by simp
  then show ?thesis by (auto simp: doDeletePicture_def picture_over_def Let_def split: prod.splits sum.splits)
qed

lemma Upload_counts:
  assumes "req_ok lib" and "\<And>q. counted requests (http q)"
    and "UploadPicture (picture_over lib http c) show_int p ignored data old w = Ret (e, w')"
  shows "requests w' \<le> requests w + 52"
proof -
  define S where "S = picture_over lib http c"
  define replace where "replace = (\<lambda>w. apfst (wrap_err (''failed to delete old picture '' @ old)) (doDeletePicture S show_int p ignored old w))"
  have up: "requests (snd (doUploadPicture S show_int p f content w)) \<le> requests w + 26" for f content w
    unfolding S_def by (rule doUpload_counts [OF assms(1,2)])
  have re: "requests (snd (replace w)) \<le> requests w + 26" for w
    unfolding S_def replace_def using doDelete_counts [where requests = requests, OF assms(1,2)] by simp
  show ?thesis
  proof (cases data)
    case None
    then have "replace w = (e, w')" using assms(3) by (simp add: UploadPicture_def S_def replace_def Let_def)
    then show ?thesis using re [of w] by simp
  next
    case (Some f)
    consider "ff_Size f = 0" | w1 where "requests w1 \<le> requests w + 26"
      "(if ff_Close f = None then replace w1 else (ff_Close f, w1)) = (e, w')"
    proof (cases "ff_Size f = 0")
      case False
      have nil: "\<not> (ff_Open f \<noteq> None \<and> ff_Nil f)" using assms(3) Some False by (auto simp: UploadPicture_def Let_def)
      define x where "x = (if ff_Open f \<noteq> None then (wrap_err (''error opening file '' @ ff_Filename f) (ff_Open f), w)
          else case ff_ReadAll f of
            Inl e \<Rightarrow> (Some (Wrapped (''error reading file '' @ ff_Filename f) e), w)
          | Inr content \<Rightarrow> apfst (wrap_err (''error uploading picture '' @ ff_Filename f)) (doUploadPicture S show_int p f content w))"
      have "requests (snd x) \<le> requests w + 26" unfolding x_def using up by (simp split: sum.splits)
      moreover have "UploadPicture S show_int p ignored data old w =
          Ret (if ff_Close f = None then replace (snd x) else (ff_Close f, snd x))"
        unfolding UploadPicture_def Let_def x_def replace_def using Some False nil by (simp add: case_prod_beta)
      then have "(if ff_Close f = None then replace (snd x) else (ff_Close f, snd x)) = (e, w')"
        using assms(3) unfolding S_def by simp
      ultimately show ?thesis using that(2) by blast
    qed blast
    then show ?thesis
    proof cases
      case 1
      then have "replace w = (e, w')" using assms(3) Some by (simp add: UploadPicture_def S_def replace_def Let_def)
      then show ?thesis using re [of w] by simp
    next
      case 2
      then show ?thesis using re [of w1] by (auto split: if_splits)
    qed
  qed
qed

lemma telegram_post_counts:
  assumes "req_ok lib" and "\<And>q. counted requests (http q)" and "telegram_post (telegram_over lib http A) url body w = ((text, e), w')"
  shows "requests w' \<le> requests w + 26"
    "e = None \<Longrightarrow> \<exists>x w0. http (request_of telegram_buildHTTPRequest ''POST'' url body) w0 = (Inr x, w') \<and>
       (\<not> is_error_state x \<or> is_error_state x \<and> hr_Status x \<notin> {400, 403, 404, 409} \<and> requests w' = requests w + 26)"
proof -
  define once where "once = http (request_of telegram_buildHTTPRequest ''POST'' url body)"
  have c: "counted requests once" unfolding once_def by (rule assms(2))
  obtain r w1 where r: "lib telegram_buildHTTPRequest once w = (r, w1)" by (metis prod.exhaust)
  have post: "tg_Post (telegram_over lib http A) url body w = (r, w1)" using r by (simp add: telegram_over_def once_def)
  have w1: "w1 = w'" using assms(3) post by (auto simp: telegram_post_def split: sum.splits if_splits)
  have count: "rs_RetryCount telegram_buildHTTPRequest = 25" by (simp add: telegram_buildHTTPRequest_def)
  show "requests w' \<le> requests w + 26" using lib_counts(2) [OF assms(1) c r] w1 count by simp
  show "\<exists>x w0. http (request_of telegram_buildHTTPRequest ''POST'' url body) w0 = (Inr x, w') \<and>
       (\<not> is_error_state x \<or> is_error_state x \<and> hr_Status x \<notin> {400, 403, 404, 409} \<and> requests w' = requests w + 26)" if none: "e = None"
  proof -
    obtain x where x: "r = Inr x" and ok: "is_error_state x \<Longrightarrow> hr_Status x \<notin> {400, 403, 404, 409}"
      using assms(3) post none by (auto simp: telegram_post_def wrap_err_def status_error_def split: sum.splits if_splits)
    from lib_counts(3) [OF assms(1) c r x] obtain w0 where w0: "once w0 = (Inr x, w')"
      and again: "rs_Condition telegram_buildHTTPRequest r \<Longrightarrow> requests w' = requests w + 26"
      using x w1 count by auto
    have "is_error_state x \<Longrightarrow> rs_Condition telegram_buildHTTPRequest r"
      using ok x by (simp add: telegram_buildHTTPRequest_def telegram_retries_def)
    then show ?thesis using w0 again ok unfolding once_def by blast
  qed
qed

lemma GetUpdates_world:
  "snd (GetUpdates B c arg w) = w \<or> (\<exists>url body. snd (GetUpdates B c arg w) = snd (telegram_post B url body w))"
proof (cases "tg_ctx B w = None \<and> (\<exists>body. tg_MarshalUpdates B arg = Inr body)")
  case True
  then obtain body where body: "tg_MarshalUpdates B arg = Inr body" by blast
  obtain resp e w' where r: "telegram_post B (telegram_url c (gu_BotToken arg) ''getUpdates'') body w = ((resp, e), w')"
    by (metis prod.exhaust)
  have "snd (GetUpdates B c arg w) = w'"
    using True body r by (simp add: GetUpdates_def split: option.splits sum.splits)
  then show ?thesis using r by (metis snd_conv)
next
  case False
  then show ?thesis by (cases "tg_MarshalUpdates B arg") (auto simp: GetUpdates_def split: option.splits)
qed

lemma tracking_send_counts:
  assumes "req_ok lib" and "\<And>q. counted requests (http q)" and "tracking_send (tracking_over lib http json c T) url body w = (e, w')"
  shows "requests w' \<le> requests w + 26"
proof -
  define once where "once = http (request_of (tracking_buildHTTPRequest c) ''POST'' url (json body))"
  have cn: "counted requests once" unfolding once_def by (rule assms(2))
  obtain r w1 where r: "lib (tracking_buildHTTPRequest c) once w = (r, w1)" by (metis prod.exhaust)
  have "tk_Post (tracking_over lib http json c T) url body w = (r, w1)" using r by (simp add: tracking_over_def once_def)
  then have "w1 = w'" using assms(3) by (auto simp: tracking_send_def tracking_post_def split: sum.splits if_splits)
  then show ?thesis using lib_counts(2) [OF assms(1) cn r] by (simp add: tracking_buildHTTPRequest_def)
qed

text \<open>
  C13. The HTTP clients stop asking: at most 26 requests for a Telegram message, for updates and for a tracked action, and at most 52 for an
  upload that replaces a picture. A Telegram message is reported as sent only when the last of them was answered, and then either without an error
  status, or with one that the client does not know (such as 429 or 500) after all 26 requests were made in vain.
\<close>

theorem web_requests_are_bounded:
  assumes "req_ok lib" and "\<And>q. counted requests (http q)"
  shows "(case telegram_Send (telegram_over lib http A) c n w of (e, w') \<Rightarrow> requests w' \<le> requests w + 26 \<and>
      (e = None \<longrightarrow> (\<exists>q x w0. hq_Method q = ''POST'' \<and> hq_URL q = telegram_url c (tn_BotToken n) ''sendMessage'' \<and> http q w0 = (Inr x, w') \<and>
        (\<not> is_error_state x \<or> is_error_state x \<and> hr_Status x \<notin> {400, 403, 404, 409} \<and> requests w' = requests w + 26)))) \<and>
    requests (snd (GetUpdates (telegram_over lib http A) c arg w)) \<le> requests w + 26 \<and>
    requests (snd (TrackAction (tracking_over lib http json k T) k user action attributes w)) \<le> requests w + 26 \<and>
    (case UploadPicture (picture_over lib http p) show_int p ignored data old w of
       Panic \<Rightarrow> True | Ret (e, w') \<Rightarrow> requests w' \<le> requests w + 52)"
proof -
  note post = telegram_post_counts [where requests = requests and lib = lib and http = http, OF assms]
  define B where "B = telegram_over lib http A"
  have "case telegram_Send B c n w of (e, w') \<Rightarrow> requests w' \<le> requests w + 26 \<and>
      (e = None \<longrightarrow> (\<exists>q x w0. hq_Method q = ''POST'' \<and> hq_URL q = telegram_url c (tn_BotToken n) ''sendMessage'' \<and> http q w0 = (Inr x, w') \<and>
        (\<not> is_error_state x \<or> is_error_state x \<and> hr_Status x \<notin> {400, 403, 404, 409} \<and> requests w' = requests w + 26)))"
  proof (cases "tg_ctx B w = None \<and> (\<exists>msg. buildTelegramMessage B c n = Inr msg)")
    case True
    then obtain msg where msg: "buildTelegramMessage B c n = Inr msg" by blast
    define url where "url = telegram_url c (tn_BotToken n) ''sendMessage''"
    obtain resp e w' where r: "telegram_post B url msg w = ((resp, e), w')" by (metis prod.exhaust)
    have send: "telegram_Send B c n w = (wrap_err ''can't call send() function'' e, w')"
      using True msg r by (simp add: telegram_Send_def flip: url_def)
    have q: "hq_Method (request_of st ''POST'' url msg) = ''POST''" "hq_URL (request_of st ''POST'' url msg) = url" for st
      by (simp_all add: request_of_def)
    show ?thesis
      unfolding send prod.case using post(1) [OF r [unfolded B_def]] post(2) [OF r [unfolded B_def]] q
      by (cases e) (auto simp: wrap_err_def url_def)
  next
    case False
    then have "\<exists>e. telegram_Send B c n w = (Some e, w)"
      by (cases "buildTelegramMessage B c n") (auto simp: telegram_Send_def wrap_err_def)
    then show ?thesis by auto
  qed
  moreover have "requests (snd (GetUpdates B c arg w)) \<le> requests w + 26"
  proof -
    have "requests w' \<le> requests w + 26" if "telegram_post B url body w = (r, w')" for url body r w'
      using post(1) [of A url body w "fst r" "snd r"] that unfolding B_def by simp
    then have "requests (snd (telegram_post B url body w)) \<le> requests w + 26" for url body by (metis prod.collapse)
    then show ?thesis using GetUpdates_world [of B c arg w] by (metis le_add1)
  qed
  moreover have "requests (snd (TrackAction (tracking_over lib http json k T) k user action attributes w)) \<le> requests w + 26"
    unfolding TrackAction_def
    by (rule tracking_send_counts [where requests = requests and lib = lib and http = http, OF assms]) (rule prod.collapse [symmetric])
  moreover have "case UploadPicture (picture_over lib http p) show_int p ignored data old w of
       Panic \<Rightarrow> True | Ret (e, w') \<Rightarrow> requests w' \<le> requests w + 52"
    using Upload_counts [where requests = requests and lib = lib and http = http, OF assms] by (auto split: outcome.splits prod.splits)
  ultimately show ?thesis unfolding B_def by blast
qed

text \<open>At the other end of the witness is a service that answers 429 and counts.\<close>

definition busy_http :: "nat transport" where
  "busy_http q w = (Inr \<lparr>hr_Status = 429, hr_Body = Inr ''''\<rparr>, Suc w)"

definition counting_telegram :: "(unit, nat) telegram_api" where
  "counting_telegram = \<lparr>tg_Marshal = (\<lambda>m. Inr (ms_Text m)), tg_MarshalUpdates = (\<lambda>u. Inr ''''), tg_Parse = (\<lambda>s. Inr []),
     tg_Post = (\<lambda>u b w. (Inl (Sentinel ''none''), w)), tg_ctx = (\<lambda>w. None)\<rparr>"

definition counting_notification :: tg_notification where
  "counting_notification = \<lparr>tn_ChatID = ''1'', tn_Text = ''hi'', tn_PreviewImageURL = '''', tn_BotToken = ''t'', tn_Buttons = [],
     tn_ReplyMessageID = 0, tn_DisableNotification = False\<rparr>"

theorem web_requests_are_bounded_witness:
  "snd (telegram_Send (telegram_over patient_req busy_http counting_telegram)
     \<lparr>tg_BotToken = ''t'', tg_ParseMode = ''HTML'', tg_BaseURL = ''u'', tg_PreviewDisabled = False\<rparr> counting_notification 0) \<le> 26"
proof -
  have "counted id (busy_http q)" for q by (simp add: counted_def busy_http_def)
  note bounded = web_requests_are_bounded [where http = busy_http and lib = patient_req and requests = id and w = 0 and A = counting_telegram
      and c = "\<lparr>tg_BotToken = ''t'', tg_ParseMode = ''HTML'', tg_BaseURL = ''u'', tg_PreviewDisabled = False\<rparr>" and n = counting_notification,
      OF patient_req_ok this, THEN conjunct1]
  show ?thesis using bounded by (simp split: prod.splits)
qed

end
