(* ===== verification/Spec2Isabelle.thy ===== *)
theory Spec2Isabelle
  imports Coin_Text Storage_Connect Storage_Lock Storage_V3 Storage_V3_Types Storage_Listener
    Riverqueue Delivery Push_Client Server_Life Picture Telegram Privacy Translations Inapp Sms Zero_Logging Config Totp Retry_Policies Request_Retries
begin

text \<open>
  A verification development of \<open>wintr\<close>, the library on which the services of ice are built: amounts of its currency, clients of
  databases, queues, brokers and notification services, authentication and an HTTP server.

  \<^bold>\<open>How the program is modelled.\<close> Each Go function is a HOL function of the same name (with a prefix or suffix where two packages use the
  same name, or where HOL has it). A struct is a record, a nil pointer or interface is \<^term>\<open>None\<close>, an error is a value of the type
  \<open>goerr\<close> of the theory \<open>Go_Errors\<close>, a function that can fail returns a sum or an \<open>err\<close> beside its result, one that can panic returns
  an \<open>outcome\<close>. State is passed explicitly; what lies outside the repository (a driver, an HTTP client, a clock) is a record of functions
  over a world of type \<open>'w\<close>, an argument of the definitions that use it, and what the code relies on is a named hypothesis such as
  \<open>driver_ok\<close>, \<open>retry_contract\<close>, \<open>jwt_ok\<close>, \<open>fcm_ok\<close>, \<open>aead_ok\<close>; a witness shows each of them to be satisfiable. The order in which Go iterates
  over a map is an argument too. Goroutines are step relations; their interleavings are sequences of steps. Integers have their width
  (\<open>32 word\<close>, \<open>64 word\<close>, \<open>256 word\<close>) where overflow matters. The texts of error messages are kept as far as they are fixed or made of
  texts; printed values (\<open>%#v\<close>) are left out.

  \<^bold>\<open>The theories, from the bottom.\<close>

  \<^item> \<open>Prelude\<close>: outcomes, and Go's functions on strings. \<open>Decimal\<close>: decimal digits and padding. \<open>Go_Errors\<close>: error trees, \<open>errors.Is\<close> and
    \<open>errors.As\<close>, and the package \<open>terror\<close> (\<open>terror/error.go\<close>).
  \<^item> \<open>Backoff\<close>: the contract of the retry library, with the rule that the last attempt decides, and the locale \<open>retried_client\<close> of
    the clients that rest on it, interpreted on e-mail, text messages and in-app notifications.
    \<open>Round_Robin\<close>: a locale for load balancers that take turns, interpreted on storage/v2's replicas and storage/v3's instances.
    \<open>Rest_Client\<close>: settings from the environment and HTTP replies.
  \<^item> \<open>Coin\<close> (\<open>coin/coin.go\<close>): amounts of 256 bits and coins whose four words mirror the amount; every operation keeps them in step, addition is
    exact or panics, subtraction saturates. The big integers are the parameter \<open>uint_lib\<close> with the laws \<open>uint_laws\<close>, which words satisfy.
    \<open>Coin_Text\<close>: the decimal notation, its parsing, printing and JSON, with their round trips.
  \<^item> \<open>Storage_Errors\<close>, \<open>Storage_V2\<close>, \<open>Storage_Connect\<close>, \<open>Storage_Lock\<close>, \<open>Storage_Listener\<close> (\<open>connectors/storage/v2\<close>): the classification of errors; queries,
    writes and transactions with their retries and fallbacks; connecting; advisory locks and closing; and the goroutine that listens for
    notifications, with an invariant over all its steps and its end after ten errors.
  \<^item> \<open>Storage_V3_Proxy\<close>, \<open>Storage_V3\<close>, \<open>Storage_V3_Values\<close> (\<open>connectors/storage/v3\<close>): the load balancer's 557 forwarding methods as a table, what a
    sequence of calls on it does, its own operations, and structs stored as hashes.
  \<^item> \<open>Riverqueue\<close> (\<open>riverqueue\<close>): the job queue client, which switches between primary databases.
  \<^item> \<open>Consumers\<close>, \<open>Broker\<close> (\<open>connectors/message_broker\<close>): partition consumers in a store of shared objects, polling, rebalances and shutdown as steps; connecting,
    topics, producing. The main invariant: every key's records are processed in the order in which they came.
  \<^item> \<open>Push_Batch\<close>, \<open>Push_Sink\<close>, \<open>Push_Client\<close> (\<open>notifications/push\<close>): a batch with its retries; the collecting sink, which refines the abstract queue of
    the locale \<open>batching\<close>; the client. \<open>Inapp\<close>, \<open>Telegram\<close>, \<open>Email\<close>, \<open>Sms\<close>: the other ways to notify (\<open>notifications/inapp\<close>,
    \<open>notifications/telegram\<close>, \<open>email\<close>, \<open>sms\<close>).
  \<^item> \<open>Auth_Ice\<close>, \<open>Auth\<close> (\<open>auth\<close>): tokens made and verified by the application, Firebase users, and the client of both.
    \<open>Server_Http\<close> (\<open>server/router.go\<close>, \<open>server/http_response.go\<close>): a request's way from its bytes to its reply, over the interface \<open>auth_api\<close> of an
    authentication client, a locale interpreted on \<open>Auth\<close>. \<open>Server_Life\<close> (\<open>server/server.go\<close>): the server's two threads.
  \<^item> \<open>Picture\<close> (\<open>multimedia/picture\<close>), \<open>Privacy\<close> (\<open>privacy\<close>), \<open>Translations\<close> (\<open>translations\<close>), \<open>Tracking\<close> (\<open>analytics/tracking\<close>), \<open>Logging\<close> (\<open>log\<close>),
    \<open>Go_Time\<close> (\<open>time\<close>).

  \<^bold>\<open>How the parts interact.\<close> Storage, push, in-app, e-mail and text messages share \<open>Backoff\<close>; all share \<open>Go_Errors\<close>. \<open>Server_Http\<close> uses \<open>Auth\<close>: a handler
  sees exactly the verified user. \<open>Broker\<close> gives \<open>Consumers\<close> their partition counts, and its polling loop is a sequence of the broker's steps.

  \<^bold>\<open>What the lemmas show.\<close> Of every component: an invariant of its state and that each step keeps it, or what each operation returns on each of its
  branches. The texts before the numbered properties state them. Several show what the code does where it is not what it means to do: a
  listener failure before the signal channel exists is lost; a failed upload deletes the old picture; refused Telegram messages
  are reported as sent; a fetched partition without a consumer is counted twice and blocks polling; a failed-over
  transaction is reported as an error; a token without claims panics; hexadecimal text is stored in the clear.

  \<^bold>\<open>Bounds and fuel.\<close> \<open>DoInTransaction\<close> may repeat for ever and is a partial function whose termination is a property. Loops that end by a deadline
  or by the end of a context take the finite sequence of what happened until then (the polling loop its rounds, the
  refreshing of translations its ticks, the shutdown its looks), so no fuel is chosen. The listener's loop is a step relation,
  and that it stops when the database is gone is proved by counting its errors. All other recursions are structural or have a measure.

  \<^bold>\<open>Not modelled.\<close> Waiting times of backoff and tickers (only their order), the content of logs, gin's router, the zerolog variant of the
  logger, the loading of configuration files (\<open>config\<close>), \<open>totp\<close> (calls of a library only), and the test fixtures.
  The textual form of Go's own times is a parameter of \<open>Go_Time\<close>.
\<close>

section \<open>Tokens and requests\<close>



end
